(* ===== verification/Prelude.thy ===== *)
theory Prelude
  imports Main "HOL-Library.Sublist"
begin

text \<open>
  Shared vocabulary of the development: the names of the model's types (Python strings
  are modelled as \<open>string\<close>, i.e. \<open>char list\<close>), Python's \<open>str.split\<close> on one
  character, and the list lemmas on prefixes, \<open>takeWhile\<close>/\<open>dropWhile\<close> and
  \<open>py_join\<close> that the component theories share. The collection \<open>scan_simps\<close>
  gathers the equations that evaluate the redaction scanner of \<open>Redactor\<close> on concrete
  input.
\<close>

named_theorems scan_simps "equations evaluating the redaction scanner on concrete input"

type_synonym field_name = string
type_synonym message = string
type_synonym separator = string

subsection \<open>Python's \<open>str.join\<close> and \<open>str.split\<close>\<close>

text \<open>\<open>sep.join(xs)\<close>: the pieces with \<open>sep\<close> between consecutive ones.\<close>

fun py_join :: "'a list \<Rightarrow> 'a list list \<Rightarrow> 'a list" where
  "py_join sep [] = []"
| "py_join sep [x] = x"
| "py_join sep (x # y # xs) = x @ sep @ py_join sep (y # xs)"

text \<open>
  \<open>s.split(d)\<close> for a one-character \<open>d\<close>: never empty, \<open>''.split(d) == ['']\<close>.
  The regular-expression parser reads the alternation \<open>a|b|c\<close> of a group the same way,
  which is how \<open>Redactor.alternatives\<close> uses it.
\<close>

fun split_at_char :: "'a \<Rightarrow> 'a list \<Rightarrow> 'a list list" where
  "split_at_char d [] = [[]]"
| "split_at_char d (c # cs) =
     (if c = d then [] # split_at_char d cs
      else (let r = split_at_char d cs in (c # hd r) # tl r))"

lemma split_at_char_not_Nil [simp]: "split_at_char d xs \<noteq> []"
  by (induction xs) (auto simp: Let_def)

lemma split_at_char_free [simp]: "d \<notin> set xs \<Longrightarrow> split_at_char d xs = [xs]"
  by (induction xs) (auto simp: Let_def)

lemma split_at_char_append_delim:
  "d \<notin> set xs \<Longrightarrow> split_at_char d (xs @ d # ys) = xs # split_at_char d ys"
  by (induction xs) (auto simp: Let_def)

lemma split_at_char_py_join:
  assumes "xss \<noteq> []" and "\<forall>xs\<in>set xss. d \<notin> set xs"
  shows "split_at_char d (py_join [d] xss) = xss"
  using assms
proof (induction xss)
  case Nil
  then show ?case by simp
next
  case (Cons xs xss)
  then show ?case
    by (cases xss) (simp_all add: split_at_char_append_delim)
qed

subsection \<open>Prefixes, runs and separators\<close>

lemma dropWhile_append_not:
  "\<forall>x\<in>set xs. P x \<Longrightarrow> dropWhile P (xs @ ys) = dropWhile P ys"
  by (induction xs) auto

lemma dropWhile_hd_not:
  "dropWhile P xs = [] \<or> \<not> P (hd (dropWhile P xs))"
  by (induction xs) auto

lemma length_dropWhile_drop_less:
  "length (dropWhile P (drop n cs)) < Suc (length cs)"
  by (metis le_imp_less_Suc length_dropWhile_le length_drop diff_le_self order_trans)

lemma find_map_option: "find P (map f xs) = map_option f (find (P \<circ> f) xs)"
  by (induction xs) auto

lemma find_upt_Suc:
  "find P [0..<Suc n] = (if P 0 then Some 0 else map_option Suc (find (P \<circ> Suc) [0..<n]))"
  by (simp add: upt_conv_Cons map_Suc_upt [symmetric] find_map_option del: upt_Suc)

lemma prefix_append_stop:
  assumes "prefix p (u @ r)" and "list_all P p" and "r = [] \<or> \<not> P (hd r)"
  shows "prefix p u"
proof -
  from assms(1) consider "prefix p u" | us where "p = u @ us" and "prefix us r"
    by (auto simp: prefix_append)
  then show ?thesis
  proof cases
    case 1
    then show ?thesis .
  next
    case 2
    show ?thesis
    proof (cases us)
      case Nil
      with 2 show ?thesis by simp
    next
      case (Cons x us')
      with 2 assms(2,3) show ?thesis by (cases r) auto
    qed
  qed
qed

lemma prefix_delim_iff:
  "e \<notin> set a \<Longrightarrow> e \<notin> set b \<Longrightarrow> prefix (a @ [e]) (b @ e # v) \<longleftrightarrow> a = b"
proof (induction a arbitrary: b)
  case Nil
  then show ?case by (cases b) auto
next
  case (Cons x a)
  then show ?case by (cases b) auto
qed

lemma prefix_snoc_in_set: "prefix (p @ [e]) s \<Longrightarrow> e \<in> set s"
  by (auto simp: prefix_def)

lemma takeWhile_dropWhile_stop:
  assumes "list_all P x" and "y = [] \<or> \<not> P (hd y)"
  shows "takeWhile P (x @ y) = x" and "dropWhile P (x @ y) = y"
  using assms by (cases y; simp add: list_all_iff)+

lemma count_list_suffix: "suffix xs ys \<Longrightarrow> count_list xs a \<le> count_list ys a"
  by (auto simp: suffix_def)

lemma filter_dropWhile_neg:
  "(\<And>x. Q x \<Longrightarrow> \<not> P x) \<Longrightarrow> filter Q (dropWhile P xs) = filter Q xs"
  by (induction xs) auto


lemma prefix_snoc_last_in:
  assumes "prefix (a @ [e]) (x @ w)" and "e \<notin> set x" and "x \<noteq> []"
  shows "last x \<in> set a"
proof -
  from assms(1) consider "prefix (a @ [e]) x" | us where "a @ [e] = x @ us" and "prefix us w"
    unfolding prefix_append by blast
  then show ?thesis
  proof cases
    case 1
    then have "e \<in> set x" by (rule prefix_snoc_in_set)
    with assms(2) show ?thesis ..
  next
    case 2
    show ?thesis
    proof (cases us rule: rev_cases)
      case Nil
      with 2 assms(2) show ?thesis by auto
    next
      case (snoc us' u)
      with 2 have "a = x @ us'" by simp
      with assms(3) show ?thesis by simp
    qed
  qed
qed

lemma append_py_join_Cons: "p @ py_join sep (y # zs) = py_join sep ((p @ y) # zs)"
  by (cases zs) simp_all

lemma py_join_Cons_pad:
  "py_join (s # p) (x # xs) = py_join [s] (x # map (\<lambda>y. p @ y) xs)"
proof (induction xs arbitrary: x)
  case (Cons y xs)
  then show ?case by (simp add: append_py_join_Cons)
qed simp

lemma concat_map_pair_singleton:
  "concat (map (\<lambda>(a, b). [f a b]) xs) = map (\<lambda>(a, b). f a b) xs"
  by (induction xs) auto

subsection \<open>Splitting, joining and prefixes\<close>

lemma split_at_char_Cons_cases:
  obtains y ys where "split_at_char d s = y # ys"
  using split_at_char_not_Nil[of d s] by (cases "split_at_char d s") auto

lemma py_join_split_at_char: "py_join [d] (split_at_char d s) = s"
proof (induction s)
  case (Cons a s)
  obtain y ys where yys: "split_at_char d s = y # ys" by (rule split_at_char_Cons_cases)
  have "py_join [d] ((a # y) # ys) = a # py_join [d] (y # ys)"
    using append_py_join_Cons[of "[a]" "[d]" y ys] by simp
  with Cons.IH yys show ?case by (simp add: Let_def)
qed simp

lemma split_at_char_subset: "x \<in> set (split_at_char d s) \<Longrightarrow> set x \<subseteq> set s - {d}"
proof (induction s arbitrary: x)
  case (Cons a s)
  obtain y ys where "split_at_char d s = y # ys" by (rule split_at_char_Cons_cases)
  with Cons show ?case by (fastforce simp: Let_def split: if_splits)
qed simp

lemma prefix_append_iff: "prefix (a @ b) s \<longleftrightarrow> prefix a s \<and> prefix b (drop (length a) s)"
proof (induction a arbitrary: s)
  case (Cons x a)
  then show ?case by (cases s) auto
qed simp

lemma concat_map_concat:
  "concat (map f (concat xss)) = concat (map (\<lambda>xs. concat (map f xs)) xss)"
  by (induction xss) auto

lemma py_join_append_Cons:
  "py_join sep (xs @ y # ys) = (if xs = [] then py_join sep (y # ys) else py_join sep xs @ sep @ py_join sep (y # ys))"
  by (induction sep xs rule: py_join.induct) auto

end
