(* ===== verification/Redactor.thy ===== *)
theory Redactor
  imports Prelude
begin

text \<open>
  The redactor \<open>filter_datum\<close> of \<^verbatim>\<open>src/0x00-personal_data/filtered_logger.py\<close>
  (lines 15--32). The Python builds the pattern
  \<^verbatim>\<open>r'({})=([^{}]*)'.format('|'.join(fields), separator)\<close>
  and calls \<^verbatim>\<open>re.sub(pattern, lambda m: f"{m.group(1)}={redaction}", message)\<close>.
  The model keeps the three ingredients of that pattern apart:
  \<^item> \<open>alternatives fields\<close>: the branches of the group \<open>(f1|f2|...)\<close>, obtained as the
    regular-expression parser obtains them, by splitting \<open>'|'.join(fields)\<close> at
    \<open>|\<close> (so \<open>fields = []\<close> gives the single empty branch);
  \<^item> \<open>value_char separator\<close>: the negated class \<open>[^separator]\<close>, every character
    of the separator string being excluded;
  \<^item> \<open>re_sub\<close>: \<open>re.sub\<close>'s left-to-right scan. At each position the branches are
    tried in order; the first branch \<open>k\<close> with \<open>k=\<close> at this position matches (the
    greedy \<open>[^sep]*\<close> always succeeds, so there is no backtracking into the group);
    the match is replaced by \<open>k=\<close> and the redaction, and the scan resumes after the
    longest run of value characters. Matches are never empty (they contain \<open>=\<close>).
  This is exact for field names free of the other regular-expression metacharacters
  \<open>.^$*+?{}[]\()\<close> and separators free of \<open>]\-\<close> and non-empty, the inputs
  the program passes (\<open>PII_FIELDS\<close> and \<open>";"\<close>).
\<close>

definition alternatives :: "field_name list \<Rightarrow> string list" where
  "alternatives fields = split_at_char CHR ''|'' (py_join ''|'' fields)"

definition value_char :: "separator \<Rightarrow> char \<Rightarrow> bool" where
  "value_char separator c \<longleftrightarrow> c \<notin> set separator"

fun match_key :: "string list \<Rightarrow> string \<Rightarrow> string option" where
  "match_key [] s = None"
| "match_key (a # as) s = (if prefix (a @ ''='') s then Some a else match_key as s)"

function re_sub :: "string list \<Rightarrow> separator \<Rightarrow> string \<Rightarrow> message \<Rightarrow> message" where
  "re_sub alts separator redaction [] = []"
| "re_sub alts separator redaction (c # cs) =
     (case match_key alts (c # cs) of
        None \<Rightarrow> c # re_sub alts separator redaction cs
      | Some k \<Rightarrow> k @ ''='' @ redaction @
          re_sub alts separator redaction
            (dropWhile (value_char separator) (drop (Suc (length k)) (c # cs))))"
  by pat_completeness auto
termination
  by (relation "measure (\<lambda>(_, _, _, s). length s)") (auto simp: length_dropWhile_drop_less)

definition filter_datum :: "field_name list \<Rightarrow> string \<Rightarrow> message \<Rightarrow> separator \<Rightarrow> message" where
  "filter_datum fields redaction message separator =
     re_sub (alternatives fields) separator redaction message"

subsection \<open>A token-wise specification\<close>

text \<open>
  The reference description of what the scan computes when no key crosses a separator:
  the message is cut at every separator character into tokens; in each token the
  leftmost position where some branch followed by \<open>=\<close> starts (\<open>first_match\<close>)
  keeps the text before it and that key, and the rest of the token becomes the
  redaction. \<open>keys_avoid\<close> is the condition that every branch and the \<open>=\<close> are
  value characters.
\<close>

definition first_match :: "string list \<Rightarrow> string \<Rightarrow> nat option" where
  "first_match alts t = find (\<lambda>i. match_key alts (drop i t) \<noteq> None) [0..<length t]"

definition redact_token :: "string list \<Rightarrow> string \<Rightarrow> string \<Rightarrow> string" where
  "redact_token alts redaction t =
     (case first_match alts t of
        None \<Rightarrow> t
      | Some i \<Rightarrow>
          (case match_key alts (drop i t) of
             None \<Rightarrow> t
           | Some k \<Rightarrow> take i t @ k @ ''='' @ redaction))"

function redact_tokens :: "string list \<Rightarrow> separator \<Rightarrow> string \<Rightarrow> message \<Rightarrow> message" where
  "redact_tokens alts separator redaction m =
     redact_token alts redaction (takeWhile (value_char separator) m) @
     (case dropWhile (value_char separator) m of
        [] \<Rightarrow> []
      | s # r \<Rightarrow> s # redact_tokens alts separator redaction r)"
  by pat_completeness auto
termination
proof (relation "measure (\<lambda>(_, _, _, m). length m)")
  fix alts separator redaction m s r
  assume "dropWhile (value_char separator) m = s # r"
  then have "length (s # r) \<le> length m" by (metis length_dropWhile_le)
  then show "((alts, separator, redaction, r), alts, separator, redaction, m)
    \<in> measure (\<lambda>(_, _, _, m). length m)" by simp
qed simp

definition keys_avoid :: "separator \<Rightarrow> string list \<Rightarrow> bool" where
  "keys_avoid separator alts \<longleftrightarrow> (\<forall>a\<in>set alts. list_all (value_char separator) (a @ ''=''))"


section \<open>Lemmas\<close>

declare redact_tokens.simps [simp del]

lemmas [scan_simps] = filter_datum_def alternatives_def value_char_def re_sub.simps

subsection \<open>The matcher\<close>

lemma match_key_None_iff: "match_key alts s = None \<longleftrightarrow> (\<forall>a\<in>set alts. \<not> prefix (a @ ''='') s)"
  by (induction alts) auto

lemma match_key_SomeD: "match_key alts s = Some k \<Longrightarrow> k \<in> set alts \<and> prefix (k @ ''='') s"
  by (induction alts) (auto split: if_splits)

lemma match_key_cong:
  "\<forall>a\<in>set alts. prefix (a @ ''='') s \<longleftrightarrow> prefix (a @ ''='') s' \<Longrightarrow> match_key alts s = match_key alts s'"
  by (induction alts) auto

lemma match_key_mono:
  assumes "\<forall>a\<in>set alts. prefix (a @ ''='') s \<longrightarrow> prefix (a @ ''='') s'"
    and "match_key alts s' = Some k" and "prefix (k @ ''='') s"
  shows "match_key alts s = Some k"
  using assms by (induction alts) (auto split: if_splits)

lemma match_key_unique:
  "\<forall>a\<in>set alts. prefix (a @ ''='') s \<longleftrightarrow> a = k \<Longrightarrow>
   match_key alts s = (if k \<in> set alts then Some k else None)"
  by (induction alts) auto

subsection \<open>The token specification\<close>

lemma redact_token_Nil [simp]: "redact_token alts redaction [] = []"
  by (simp add: redact_token_def first_match_def)

lemma redact_token_Cons:
  "redact_token alts redaction (c # t) =
     (case match_key alts (c # t) of
        None \<Rightarrow> c # redact_token alts redaction t
      | Some k \<Rightarrow> k @ ''='' @ redaction)"
proof (cases "match_key alts (c # t)")
  case None
  then have "first_match alts (c # t) = map_option Suc (first_match alts t)"
    by (simp add: first_match_def find_upt_Suc del: upt_Suc) (simp add: comp_def)
  with None show ?thesis
    by (auto simp: redact_token_def split: option.splits)
next
  case (Some k)
  then have "first_match alts (c # t) = Some 0"
    by (simp add: first_match_def find_upt_Suc del: upt_Suc)
  with Some show ?thesis by (simp add: redact_token_def)
qed

declare re_sub.simps [simp del]

lemma re_sub_Nil [simp]: "re_sub alts separator redaction [] = []"
  by (rule re_sub.simps(1))

lemma keys_avoidD:
  "keys_avoid separator alts \<Longrightarrow> a \<in> set alts \<Longrightarrow> list_all (value_char separator) (a @ ''='')"
  by (simp add: keys_avoid_def)

lemma re_sub_token:
  assumes keys: "keys_avoid separator alts"
    and tok: "list_all (value_char separator) t"
    and stop: "r = [] \<or> \<not> value_char separator (hd r)"
  shows "re_sub alts separator redaction (t @ r) =
           redact_token alts redaction t @ re_sub alts separator redaction r"
  using tok
proof (induction t)
  case Nil
  then show ?case by simp
next
  case (Cons c t)
  have same: "match_key alts (c # t @ r) = match_key alts (c # t)"
  proof (rule match_key_cong, intro ballI iffI)
    fix a assume "a \<in> set alts" and "prefix (a @ ''='') (c # t @ r)"
    with keys stop show "prefix (a @ ''='') (c # t)"
      using prefix_append_stop [of "a @ ''=''" "c # t" r] keys_avoidD by auto
  next
    fix a assume "prefix (a @ ''='') (c # t)"
    then show "prefix (a @ ''='') (c # t @ r)"
      by (metis append_Cons prefix_prefix)
  qed
  show ?case
  proof (cases "match_key alts (c # t)")
    case None
    with same Cons show ?thesis by (simp add: re_sub.simps redact_token_Cons)
  next
    case (Some k)
    then have pk: "prefix (k @ ''='') (c # t)" by (rule match_key_SomeD [THEN conjunct2])
    then have len: "Suc (length k) \<le> length (c # t)" by (metis length_append_singleton prefix_length_le)
    have "drop (Suc (length k)) (c # t @ r) = drop (Suc (length k)) (c # t) @ r"
      using len by (metis append_Cons drop_append diff_is_0_eq' drop0)
    moreover have "list_all (value_char separator) (drop (Suc (length k)) (c # t))"
      using Cons.prems by (simp add: list_all_iff) (meson in_set_dropD)
    ultimately have "dropWhile (value_char separator) (drop (Suc (length k)) (c # t @ r)) = r"
      using stop by (auto simp: dropWhile_append_not list_all_iff) (cases r; simp)+
    with Some same show ?thesis by (simp add: re_sub.simps redact_token_Cons)
  qed
qed

lemma re_sub_sep_Cons:
  assumes keys: "keys_avoid separator alts" and sep: "\<not> value_char separator s"
  shows "re_sub alts separator redaction (s # r) = s # re_sub alts separator redaction r"
proof -
  have "match_key alts (s # r) = None"
  proof (unfold match_key_None_iff, intro ballI notI)
    fix a assume a: "a \<in> set alts" and "prefix (a @ ''='') (s # r)"
    then obtain zs where "s # r = (a @ ''='') @ zs" by (auto elim: prefixE)
    then have "s = hd (a @ ''='')" by (cases a) auto
    then have "s \<in> set (a @ ''='')" using hd_in_set [of "a @ ''=''"] by simp
    with keys_avoidD [OF keys a] sep show False by (auto simp: list_all_iff)
  qed
  then show ?thesis by (simp add: re_sub.simps)
qed

theorem re_sub_eq_redact_tokens:
  "keys_avoid separator alts \<Longrightarrow>
   re_sub alts separator redaction m = redact_tokens alts separator redaction m"
proof (induction alts separator redaction m rule: redact_tokens.induct)
  case (1 alts separator redaction m)
  let ?t = "takeWhile (value_char separator) m" and ?r = "dropWhile (value_char separator) m"
  have "re_sub alts separator redaction m = re_sub alts separator redaction (?t @ ?r)" by simp
  also have "\<dots> = redact_token alts redaction ?t @ re_sub alts separator redaction ?r"
    using "1.prems" dropWhile_hd_not [of "value_char separator" m]
    by (intro re_sub_token) (auto simp: list_all_iff dest: set_takeWhileD)
  also have "\<dots> = redact_tokens alts separator redaction m"
  proof (cases ?r)
    case Nil
    show ?thesis unfolding redact_tokens.simps [of _ _ _ m] Nil by simp
  next
    case (Cons s r)
    then have "\<not> value_char separator s" using dropWhile_hd_not [of "value_char separator" m] by simp
    with "1.IH" [OF Cons] "1.prems" show ?thesis
      unfolding redact_tokens.simps [of _ _ _ m] Cons by (simp add: re_sub_sep_Cons)
  qed
  finally show ?case .
qed

lemma match_key_kv:
  assumes "CHR ''='' \<notin> set key" and "\<forall>a\<in>set alts. CHR ''='' \<notin> set a"
  shows "match_key alts (key @ ''='' @ v) = (if key \<in> set alts then Some key else None)"
  using assms by (intro match_key_unique) (simp add: prefix_delim_iff)

lemma redact_token_kv:
  assumes "CHR ''='' \<notin> set key" and noeq: "\<forall>a\<in>set alts. CHR ''='' \<notin> set a"
  shows "redact_token alts redaction (key @ ''='' @ v) =
           (if \<exists>a\<in>set alts. suffix a key then key @ ''='' @ redaction
            else key @ ''='' @ redact_token alts redaction v)"
  using assms(1)
proof (induction key)
  case Nil
  have "match_key alts (''='' @ v) = (if [] \<in> set alts then Some [] else None)"
    using match_key_kv [of "[]" alts v] noeq by simp
  then show ?case by (auto simp: redact_token_Cons)
next
  case (Cons c key)
  have "match_key alts ((c # key) @ ''='' @ v) = (if c # key \<in> set alts then Some (c # key) else None)"
    using Cons.prems noeq by (intro match_key_kv) auto
  with Cons show ?case by (auto simp: redact_token_Cons suffix_Cons)
qed

lemma redact_token_no_eq: "CHR ''='' \<notin> set t \<Longrightarrow> redact_token alts redaction t = t"
proof (induction t)
  case (Cons c t)
  have "match_key alts (c # t) = None"
    using Cons.prems prefix_snoc_in_set [of _ "CHR ''=''" "c # t"]
    by (auto simp: match_key_None_iff)
  with Cons show ?case by (simp add: redact_token_Cons)
qed simp

lemma redact_tokens_py_join:
  assumes "\<not> value_char separator s"
    and "\<forall>t\<in>set ts. list_all (value_char separator) t"
  shows "redact_tokens alts separator redaction (py_join [s] ts) =
           py_join [s] (map (redact_token alts redaction) ts)"
  using assms(2)
proof (induction ts rule: induct_list012)
  case 1
  then show ?case by (simp add: redact_tokens.simps)
next
  case (2 t)
  then have tw: "takeWhile (value_char separator) t = t"
    and dw: "dropWhile (value_char separator) t = []"
    by (simp_all add: list_all_iff)
  have "redact_tokens alts separator redaction t = redact_token alts redaction t"
    unfolding redact_tokens.simps [of _ _ _ t] tw dw by simp
  then show ?case by simp
next
  case (3 t u ts)
  then have "takeWhile (value_char separator) (t @ s # py_join [s] (u # ts)) = t"
    "dropWhile (value_char separator) (t @ s # py_join [s] (u # ts)) = s # py_join [s] (u # ts)"
    using assms(1) by (simp_all add: list_all_iff takeWhile_append2 dropWhile_append2)
  with 3 show ?case by (simp add: redact_tokens.simps [of _ _ _ "t @ s # py_join [s] (u # ts)"])
qed

lemma redact_token_no_new_key:
  assumes "CHR ''='' \<notin> set redaction"
  shows "prefix (p @ ''='') (u @ redact_token alts redaction t) \<Longrightarrow> prefix (p @ ''='') (u @ t)"
proof (induction t arbitrary: u)
  case Nil
  then show ?case by simp
next
  case (Cons c t)
  show ?case
  proof (cases "match_key alts (c # t)")
    case None
    with Cons.prems have "prefix (p @ ''='') ((u @ [c]) @ redact_token alts redaction t)"
      by (simp add: redact_token_Cons)
    then show ?thesis using Cons.IH by fastforce
  next
    case (Some k)
    with Cons.prems have pre: "prefix (p @ ''='') (u @ k @ ''='' @ redaction)"
      by (simp add: redact_token_Cons)
    from Some have ck: "prefix (k @ ''='') (c # t)" by (rule match_key_SomeD [THEN conjunct2])
    from pre have "prefix (p @ ''='') ((u @ k @ ''='') @ redaction)" by simp
    then consider "prefix (p @ ''='') (u @ k @ ''='')"
      | w where "p @ ''='' = (u @ k @ ''='') @ w" and "prefix w redaction"
      unfolding prefix_append by blast
    then have "prefix (p @ ''='') (u @ k @ ''='')"
    proof cases
      case 2
      show ?thesis
      proof (cases "w = []")
        case False
        have "last (p @ ''='') = last ((u @ k @ ''='') @ w)" using 2(1) by (rule arg_cong)
        with False have "last w = CHR ''=''" by simp
        moreover have "last w \<in> set redaction"
          using False 2(2) last_in_set set_mono_prefix by blast
        ultimately have False using assms by simp
        then show ?thesis ..
      qed (use 2 in simp)
    qed
    moreover have "prefix (u @ k @ ''='') (u @ c # t)" using ck by simp
    ultimately show ?thesis by (rule prefix_order.trans)
  qed
qed

lemma redact_token_Some:
  "match_key alts s = Some k \<Longrightarrow> redact_token alts redaction s = k @ ''='' @ redaction"
  by (cases s) (auto simp: redact_token_Cons dest: match_key_SomeD)

lemma redact_token_idem:
  assumes "CHR ''='' \<notin> set redaction"
  shows "redact_token alts redaction (redact_token alts redaction t) = redact_token alts redaction t"
proof (induction t)
  case Nil
  then show ?case by simp
next
  case (Cons c t)
  show ?case
  proof (cases "match_key alts (c # t)")
    case None
    have "match_key alts (c # redact_token alts redaction t) = None"
      using None redact_token_no_new_key [OF assms, of _ "[c]" alts t]
      by (auto simp: match_key_None_iff)
    with None Cons.IH show ?thesis by (simp add: redact_token_Cons)
  next
    case (Some k)
    have "match_key alts (k @ ''='' @ redaction) = Some k"
    proof (rule match_key_mono [OF _ Some])
      show "\<forall>a\<in>set alts. prefix (a @ ''='') (k @ ''='' @ redaction) \<longrightarrow> prefix (a @ ''='') (c # t)"
        using redact_token_no_new_key [OF assms, of _ "[]" alts "c # t"] Some
        by (simp add: redact_token_Cons)
    qed simp
    then show ?thesis using Some by (simp add: redact_token_Some)
  qed
qed

lemma redact_token_value_chars:
  "list_all P t \<Longrightarrow> list_all P redaction \<Longrightarrow> list_all P (redact_token alts redaction t)"
proof (induction t)
  case (Cons c t)
  show ?case
  proof (cases "match_key alts (c # t)")
    case (Some k)
    then have "prefix (k @ ''='') (c # t)" by (rule match_key_SomeD [THEN conjunct2])
    then have "set (k @ ''='') \<subseteq> set (c # t)" by (metis prefix_def set_append Un_upper1)
    with Some Cons.prems show ?thesis by (auto simp: redact_token_Cons list_all_iff)
  qed (use Cons in \<open>simp_all add: redact_token_Cons\<close>)
qed simp

lemma redact_tokens_idem:
  assumes "CHR ''='' \<notin> set redaction" and "list_all (value_char separator) redaction"
  shows "redact_tokens alts separator redaction (redact_tokens alts separator redaction m) =
           redact_tokens alts separator redaction m"
  using assms
proof (induction alts separator redaction m rule: redact_tokens.induct)
  case (1 alts separator redaction m)
  note assms = "1.prems"
  let ?P = "value_char separator"
  let ?t = "takeWhile ?P m" and ?r = "dropWhile ?P m"
  let ?out = "redact_token alts redaction ?t"
  have t: "list_all ?P ?out"
    using assms(2) by (intro redact_token_value_chars) (auto simp: list_all_iff dest: set_takeWhileD)
  show ?case
  proof (cases ?r)
    case Nil
    then have "redact_tokens alts separator redaction m = ?out"
      unfolding redact_tokens.simps [of _ _ _ m] Nil by simp
    moreover have tw: "takeWhile ?P ?out = ?out" and dw: "dropWhile ?P ?out = []"
      using t by (simp_all add: list_all_iff)
    moreover have "redact_tokens alts separator redaction ?out = ?out"
      unfolding redact_tokens.simps [of _ _ _ ?out] tw dw by (simp add: redact_token_idem assms(1))
    ultimately show ?thesis by simp
  next
    case (Cons s r)
    then have s: "\<not> ?P s" using dropWhile_hd_not [of ?P m] by simp
    have m: "redact_tokens alts separator redaction m =
               ?out @ s # redact_tokens alts separator redaction r"
      unfolding redact_tokens.simps [of _ _ _ m] Cons by simp
    let ?rest = "s # redact_tokens alts separator redaction r"
    have tw: "takeWhile ?P (?out @ ?rest) = ?out" and dw: "dropWhile ?P (?out @ ?rest) = ?rest"
      using t s by (simp_all add: takeWhile_dropWhile_stop)
    have "redact_tokens alts separator redaction (?out @ ?rest) = ?out @ ?rest"
      unfolding redact_tokens.simps [of _ _ _ "?out @ ?rest"] tw dw
      using "1.IH" [OF Cons assms] by (simp add: redact_token_idem assms(1))
    with m show ?thesis by simp
  qed
qed

lemma re_sub_Some:
  assumes "match_key alts s = Some k"
  shows "s = k @ ''='' @ drop (Suc (length k)) s"
    and "re_sub alts separator redaction s = k @ ''='' @ redaction @
           re_sub alts separator redaction (dropWhile (value_char separator) (drop (Suc (length k)) s))"
proof -
  from assms have pk: "prefix (k @ ''='') s" by (rule match_key_SomeD [THEN conjunct2])
  then show "s = k @ ''='' @ drop (Suc (length k)) s" by (auto simp: prefix_def)
  from pk obtain c cs where "s = c # cs" by (cases s) auto
  with assms show "re_sub alts separator redaction s = k @ ''='' @ redaction @
           re_sub alts separator redaction (dropWhile (value_char separator) (drop (Suc (length k)) s))"
    by (simp add: re_sub.simps)
qed

lemma re_sub_None:
  "match_key alts (c # cs) = None \<Longrightarrow>
   re_sub alts separator redaction (c # cs) = c # re_sub alts separator redaction cs"
  by (simp add: re_sub.simps)

lemma re_sub_separators:
  "list_all (value_char separator) redaction \<Longrightarrow>
   filter (\<lambda>c. c \<in> set separator) (re_sub alts separator redaction m) =
   filter (\<lambda>c. c \<in> set separator) m"
proof (induction alts separator redaction m rule: re_sub.induct)
  case (2 alts separator redaction c cs)
  let ?Q = "\<lambda>c. c \<in> set separator"
  show ?case
  proof (cases "match_key alts (c # cs)")
    case None
    with 2 show ?thesis by (simp add: re_sub_None)
  next
    case (Some k)
    define x where "x = drop (Suc (length k)) (c # cs)"
    define r where "r = dropWhile (value_char separator) x"
    have red: "filter ?Q redaction = []"
      using "2.prems" by (auto simp: filter_empty_conv list_all_iff value_char_def)
    have "filter ?Q (re_sub alts separator redaction (c # cs)) =
          filter ?Q (k @ ''='' @ redaction @ re_sub alts separator redaction r)"
      unfolding r_def x_def by (rule arg_cong [OF re_sub_Some(2) [OF Some]])
    also have "\<dots> = filter ?Q (k @ ''='') @ filter ?Q (re_sub alts separator redaction r)"
      using red by simp
    also have "\<dots> = filter ?Q (k @ ''='') @ filter ?Q r"
      using "2.IH"(2) [OF Some "2.prems"] unfolding r_def x_def by simp
    also have "filter ?Q r = filter ?Q x"
      unfolding r_def by (rule filter_dropWhile_neg) (simp add: value_char_def)
    also have "filter ?Q (k @ ''='') @ filter ?Q x = filter ?Q (c # cs)"
      using re_sub_Some(1) [OF Some] unfolding x_def by (metis append_assoc filter_append)
    finally show ?thesis .
  qed
qed simp

lemma re_sub_length:
  "length (re_sub alts separator redaction m) \<le>
     length m + count_list m (CHR ''='') * length redaction"
proof (induction alts separator redaction m rule: re_sub.induct)
  case (2 alts separator redaction c cs)
  show ?case
  proof (cases "match_key alts (c # cs)")
    case None
    with 2 show ?thesis by (simp add: re_sub_None)
  next
    case (Some k)
    define x where "x = drop (Suc (length k)) (c # cs)"
    define r where "r = dropWhile (value_char separator) x"
    have sfx: "suffix r x" unfolding r_def by (metis suffix_def takeWhile_dropWhile_id)
    have len: "length r \<le> length x" using sfx by (rule suffix_length_le)
    have "count_list r (CHR ''='') \<le> count_list x (CHR ''='')"
      using sfx by (rule count_list_suffix)
    then have cnt: "count_list r (CHR ''='') * length redaction \<le> count_list x (CHR ''='') * length redaction"
      by (rule mult_le_mono1)
    have m: "c # cs = k @ ''='' @ x" unfolding x_def by (rule re_sub_Some(1) [OF Some])
    have ih: "length (re_sub alts separator redaction r) \<le> length r + count_list r (CHR ''='') * length redaction"
      using "2.IH"(2) [OF Some] unfolding r_def x_def .
    have "length (re_sub alts separator redaction (c # cs)) =
            length k + 1 + length redaction + length (re_sub alts separator redaction r)"
      using re_sub_Some(2) [OF Some, of separator redaction] unfolding r_def x_def by simp
    also have "\<dots> \<le> length k + 1 + length redaction + length x + count_list x (CHR ''='') * length redaction"
      using ih len cnt by linarith
    also have "\<dots> \<le> length (c # cs) + count_list (c # cs) (CHR ''='') * length redaction"
      by (subst (1 2) m) simp
    finally show ?thesis .
  qed
qed simp

lemma re_sub_no_key:
  "\<forall>a\<in>set alts. \<not> sublist (a @ ''='') m \<Longrightarrow> re_sub alts separator redaction m = m"
proof (induction m)
  case (Cons c cs)
  then have "match_key alts (c # cs) = None"
    by (auto simp: match_key_None_iff)
  with Cons show ?case by (simp add: re_sub_None sublist_Cons_right)
qed simp


subsection \<open>The branches of the pattern\<close>

lemma alternatives_Nil [simp]: "alternatives [] = [[]]"
  by (simp add: alternatives_def)

lemma alternatives_plain:
  "fields \<noteq> [] \<Longrightarrow> \<forall>f\<in>set fields. CHR ''|'' \<notin> set f \<Longrightarrow> alternatives fields = fields"
  by (simp add: alternatives_def split_at_char_py_join)

lemma keys_avoid_eq:
  "keys_avoid separator alts \<Longrightarrow> alts \<noteq> [] \<Longrightarrow> value_char separator CHR ''=''"
  by (auto simp: keys_avoid_def neq_Nil_conv)

lemma alternatives_not_Nil [simp]: "alternatives fields \<noteq> []"
  by (simp add: alternatives_def)

text \<open>
  Redaction of a message made of \<open>key=value\<close> tokens joined by one separator
  character: a token is masked exactly when some branch of the pattern is a suffix of its
  key (the pattern is not anchored at the start of the token); otherwise the scan looks for
  a key inside the value.
\<close>

lemma filter_datum_kv_tokens:
  assumes sep: "s \<in> set separator"
    and keys: "keys_avoid separator (alternatives fields)"
    and noeq: "\<forall>a\<in>set (alternatives fields). CHR ''='' \<notin> set a"
    and kvs: "\<forall>(k, v)\<in>set kvs. CHR ''='' \<notin> set k \<and> list_all (value_char separator) (k @ v)"
  shows "filter_datum fields redaction (py_join [s] (map (\<lambda>(k, v). k @ ''='' @ v) kvs)) separator =
         py_join [s] (map (\<lambda>(k, v). k @ ''='' @
           (if \<exists>a\<in>set (alternatives fields). suffix a k then redaction
            else redact_token (alternatives fields) redaction v)) kvs)"
proof -
  let ?alts = "alternatives fields"
  have eq: "value_char separator CHR ''=''" using keys by (rule keys_avoid_eq) simp
  have toks: "\<forall>t\<in>set (map (\<lambda>(k, v). k @ ''='' @ v) kvs). list_all (value_char separator) t"
    using kvs eq by auto
  have "filter_datum fields redaction (py_join [s] (map (\<lambda>(k, v). k @ ''='' @ v) kvs)) separator =
        py_join [s] (map (redact_token ?alts redaction) (map (\<lambda>(k, v). k @ ''='' @ v) kvs))"
    unfolding filter_datum_def re_sub_eq_redact_tokens [OF keys]
    using sep toks by (intro redact_tokens_py_join) (auto simp: value_char_def)
  also have "map (redact_token ?alts redaction) (map (\<lambda>(k, v). k @ ''='' @ v) kvs) =
             map (\<lambda>(k, v). k @ ''='' @ (if \<exists>a\<in>set ?alts. suffix a k then redaction
                   else redact_token ?alts redaction v)) kvs"
    using kvs noeq by (auto simp: redact_token_kv [simplified])
  finally show ?thesis .
qed

text \<open>
  The same for the messages \<open>main\<close> builds, joined by \<open>"; "\<close> and redacted at
  \<open>";"\<close>: every token after the first starts with a space, which is part of its key;
  a field without spaces is a suffix of \<open>" " + key\<close> exactly when it is one of the key.
\<close>

lemma filter_datum_semicolon_join:
  assumes keys: "keys_avoid '';'' (alternatives fields)"
    and alts: "\<forall>a\<in>set (alternatives fields). CHR ''='' \<notin> set a \<and> CHR '' '' \<notin> set a"
    and kvs: "\<forall>(k, v)\<in>set kvs. CHR ''='' \<notin> set k \<and> CHR ''='' \<notin> set v \<and> CHR '';'' \<notin> set k \<and> CHR '';'' \<notin> set v"
  shows "filter_datum fields redaction (py_join ''; '' (map (\<lambda>(k, v). k @ ''='' @ v) kvs)) '';'' =
         py_join ''; '' (map (\<lambda>(k, v). k @ ''='' @
           (if \<exists>a\<in>set (alternatives fields). suffix a k then redaction else v)) kvs)"
proof (cases kvs)
  case Nil
  then show ?thesis by (simp add: filter_datum_def)
next
  case (Cons kv0 rest)
  obtain k0 v0 where kv0: "kv0 = (k0, v0)" by fastforce
  let ?alts = "alternatives fields"
  let ?kvs' = "(k0, v0) # map (\<lambda>(k, v). (CHR '' '' # k, v)) rest"
  let ?out = "\<lambda>(k, v). k @ ''='' @ (if \<exists>a\<in>set ?alts. suffix a k then redaction
                 else redact_token ?alts redaction v)"
  have msg: "py_join ''; '' (map (\<lambda>(k, v). k @ ''='' @ v) kvs) =
             py_join [CHR '';''] (map (\<lambda>(k, v). k @ ''='' @ v) ?kvs')"
    unfolding Cons kv0 list.map(2) py_join_Cons_pad [of "CHR '';''" "'' ''"] map_map
    by (simp add: comp_def case_prod_beta)
  have kvs': "\<forall>(k, v)\<in>set ?kvs'. CHR ''='' \<notin> set k \<and> list_all (value_char '';'') (k @ v)"
    using kvs unfolding Cons kv0 by (auto simp: value_char_def list_all_iff)
  have noeq: "\<forall>a\<in>set ?alts. CHR ''='' \<notin> set a" using alts by blast
  have step1: "filter_datum fields redaction (py_join [CHR '';''] (map (\<lambda>(k, v). k @ ''='' @ v) ?kvs')) '';'' =
        py_join [CHR '';''] (map ?out ?kvs')"
    by (rule filter_datum_kv_tokens [OF _ keys noeq kvs']) simp
  let ?fin = "\<lambda>(k, v). k @ ''='' @ (if \<exists>a\<in>set ?alts. suffix a k then redaction else v)"
  have sp: "\<And>k. (\<exists>a\<in>set ?alts. suffix a (CHR '' '' # k)) = (\<exists>a\<in>set ?alts. suffix a k)"
    using alts by (auto simp: suffix_Cons)
  have hd: "?out (k0, v0) = ?fin (k0, v0)"
    using kvs unfolding Cons kv0 by (simp add: redact_token_no_eq)
  have tl: "map ?out (map (\<lambda>(k, v). (CHR '' '' # k, v)) rest) = map (\<lambda>y. '' '' @ y) (map ?fin rest)"
    using kvs unfolding Cons by (auto simp: sp redact_token_no_eq)
  have step2: "py_join [CHR '';''] (map ?out ?kvs') = py_join ''; '' (map ?fin kvs)"
    unfolding Cons kv0 list.map(2) py_join_Cons_pad [of "CHR '';''" "'' ''"] hd tl ..
  show ?thesis unfolding msg step1 step2 ..
qed

section \<open>Properties of the redactor\<close>

text \<open>
  C1. On a message of \<open>key=value\<close> tokens joined by a separator character, with keys and
  values free of \<open>=\<close> and of separator characters, \<open>filter_datum\<close> keeps every key and
  every separator, and replaces a value by the redaction exactly when one of the fields
  (a branch of the pattern) is a suffix of the token's key; every other value is kept.
\<close>

theorem filter_datum_kv_message:
  assumes "s \<in> set separator"
    and "keys_avoid separator (alternatives fields)"
    and "\<forall>a\<in>set (alternatives fields). CHR ''='' \<notin> set a"
    and "\<forall>(k, v)\<in>set kvs. CHR ''='' \<notin> set k \<and> CHR ''='' \<notin> set v \<and> list_all (value_char separator) (k @ v)"
  shows "filter_datum fields redaction (py_join [s] (map (\<lambda>(k, v). k @ ''='' @ v) kvs)) separator =
         py_join [s] (map (\<lambda>(k, v). k @ ''='' @
           (if \<exists>a\<in>set (alternatives fields). suffix a k then redaction else v)) kvs)"
proof -
  have kvs: "\<forall>(k, v)\<in>set kvs. CHR ''='' \<notin> set k \<and> list_all (value_char separator) (k @ v)"
    using assms(4) by auto
  have map_eq: "map (\<lambda>(k, v). k @ ''='' @ (if \<exists>a\<in>set (alternatives fields). suffix a k then redaction
           else redact_token (alternatives fields) redaction v)) kvs =
        map (\<lambda>(k, v). k @ ''='' @ (if \<exists>a\<in>set (alternatives fields). suffix a k then redaction
           else v)) kvs"
    using assms(4) by (auto simp: redact_token_no_eq)
  show ?thesis
    unfolding filter_datum_kv_tokens [OF assms(1-3) kvs] map_eq ..
qed

theorem filter_datum_kv_message_witness:
  "CHR '';'' \<in> set '';'' \<and> keys_avoid '';'' (alternatives [''password'', ''ssn'']) \<and>
   list_all (\<lambda>a. CHR ''='' \<notin> set a) (alternatives [''password'', ''ssn'']) \<and>
   list_all (\<lambda>(k, v). CHR ''='' \<notin> set k \<and> CHR ''='' \<notin> set v \<and> list_all (value_char '';'') (k @ v))
     [(''name'', ''Bob''), (''password'', ''hunter2'')] \<and>
   filter_datum [''password'', ''ssn''] ''***''
     (py_join '';'' (map (\<lambda>(k, v). k @ ''='' @ v) [(''name'', ''Bob''), (''password'', ''hunter2'')])) '';'' =
   py_join '';'' (map (\<lambda>(k, v). k @ ''='' @
     (if \<exists>a\<in>set (alternatives [''password'', ''ssn'']). suffix a k then ''***'' else v))
     [(''name'', ''Bob''), (''password'', ''hunter2'')])"
proof -
  have alts: "alternatives [''password'', ''ssn''] = [''password'', ''ssn'']"
    by (simp add: alternatives_def)
  have h: "keys_avoid '';'' (alternatives [''password'', ''ssn''])"
    by (simp add: alts keys_avoid_def value_char_def)
  show ?thesis
    using filter_datum_kv_message [of "CHR '';''" "'';''" "[''password'', ''ssn'']"
        "[(''name'', ''Bob''), (''password'', ''hunter2'')]" "''***''"] h
    by (simp add: alts value_char_def)
qed

text \<open>
  C2. Refinement of the token-wise specification: when every branch of the pattern and the
  \<open>=\<close> avoid the separator characters, \<open>filter_datum\<close>'s left-to-right
  \<open>re.sub\<close> scan computes exactly \<open>redact_tokens\<close>, which cuts the message at the
  separators and redacts each token on its own from the leftmost key occurrence.
\<close>

theorem filter_datum_tokenwise:
  "keys_avoid separator (alternatives fields) \<Longrightarrow>
   filter_datum fields redaction message separator =
   redact_tokens (alternatives fields) separator redaction message"
  unfolding filter_datum_def by (rule re_sub_eq_redact_tokens)

theorem filter_datum_tokenwise_witness:
  "keys_avoid '';'' (alternatives [''email'']) \<and>
   filter_datum [''email''] ''***'' ''email=a@b;x=1'' '';'' =
   redact_tokens (alternatives [''email'']) '';'' ''***'' ''email=a@b;x=1''"
proof -
  have h: "keys_avoid '';'' (alternatives [''email''])"
    by (simp add: alternatives_def keys_avoid_def value_char_def)
  show ?thesis using h filter_datum_tokenwise [OF h] by simp
qed

text \<open>
  C3. Idempotence: when the redaction contains neither \<open>=\<close> nor a separator character
  and the fields avoid the separator, redacting an already redacted message changes
  nothing.
\<close>

theorem filter_datum_idempotent:
  assumes "keys_avoid separator (alternatives fields)"
    and "CHR ''='' \<notin> set redaction" and "list_all (value_char separator) redaction"
  shows "filter_datum fields redaction (filter_datum fields redaction message separator) separator =
         filter_datum fields redaction message separator"
  using assms by (simp add: filter_datum_def re_sub_eq_redact_tokens redact_tokens_idem)

theorem filter_datum_idempotent_witness:
  "keys_avoid '';'' (alternatives [''password'']) \<and> CHR ''='' \<notin> set ''***'' \<and>
   list_all (value_char '';'') ''***'' \<and>
   filter_datum [''password''] ''***'' (filter_datum [''password''] ''***'' ''password=x;a=b'' '';'') '';'' =
   filter_datum [''password''] ''***'' ''password=x;a=b'' '';''"
proof -
  have h: "keys_avoid '';'' (alternatives [''password''])"
    by (simp add: alternatives_def keys_avoid_def value_char_def)
  have r: "CHR ''='' \<notin> set ''***''" "list_all (value_char '';'') ''***''"
    by (simp_all add: value_char_def)
  show ?thesis using h r filter_datum_idempotent [OF h r] by simp
qed

text \<open>
  C4. The separator skeleton is an invariant: when the redaction contains no separator
  character, the sequence of separator characters of the message is unchanged, whatever
  the fields (so redaction never adds, removes or merges tokens).
\<close>

theorem filter_datum_keeps_separators:
  "list_all (value_char separator) redaction \<Longrightarrow>
   filter (\<lambda>c. c \<in> set separator) (filter_datum fields redaction message separator) =
   filter (\<lambda>c. c \<in> set separator) message"
  unfolding filter_datum_def by (rule re_sub_separators)

theorem filter_datum_keeps_separators_witness:
  "list_all (value_char '';'') ''***'' \<and>
   filter (\<lambda>c. c \<in> set '';'') (filter_datum [''name''] ''***'' ''name=a;b=c;d'' '';'') =
   filter (\<lambda>c. c \<in> set '';'') ''name=a;b=c;d''"
proof -
  have h: "list_all (value_char '';'') ''***''" by (simp add: value_char_def)
  show ?thesis using h filter_datum_keeps_separators [OF h, of "[''name'']" "''name=a;b=c;d''"] by simp
qed

text \<open>
  C5. With no fields, the pattern is \<open>()=([^sep]*)\<close> and every value is redacted: on a
  message of \<open>key=value\<close> tokens, \<open>filter_datum []\<close> masks every value (the
  specification says an empty field set is the identity).
\<close>

theorem filter_datum_no_fields_masks_all:
  assumes "s \<in> set separator" and "CHR ''='' \<notin> set separator"
    and "\<forall>(k, v)\<in>set kvs. CHR ''='' \<notin> set k \<and> list_all (value_char separator) (k @ v)"
  shows "filter_datum [] redaction (py_join [s] (map (\<lambda>(k, v). k @ ''='' @ v) kvs)) separator =
         py_join [s] (map (\<lambda>(k, v). k @ ''='' @ redaction) kvs)"
proof -
  have keys: "keys_avoid separator (alternatives [])"
    using assms(2) by (simp add: keys_avoid_def value_char_def)
  have "filter_datum [] redaction (py_join [s] (map (\<lambda>(k, v). k @ ''='' @ v) kvs)) separator =
        py_join [s] (map (\<lambda>(k, v). k @ ''='' @
          (if \<exists>a\<in>set (alternatives []). suffix a k then redaction
           else redact_token (alternatives []) redaction v)) kvs)"
    using assms(1,3) keys by (intro filter_datum_kv_tokens) auto
  then show ?thesis by simp
qed

theorem filter_datum_no_fields_masks_all_witness:
  "CHR '';'' \<in> set '';'' \<and> CHR ''='' \<notin> set '';'' \<and>
   list_all (\<lambda>(k, v). CHR ''='' \<notin> set k \<and> list_all (value_char '';'') (k @ v)) [(''a'', ''1''), (''b'', ''2'')] \<and>
   filter_datum [] ''***'' (py_join '';'' (map (\<lambda>(k, v). k @ ''='' @ v) [(''a'', ''1''), (''b'', ''2'')])) '';'' =
   py_join '';'' (map (\<lambda>(k, v). k @ ''='' @ ''***'') [(''a'', ''1''), (''b'', ''2'')])"
proof -
  have h: "\<forall>(k, v)\<in>set [(''a'', ''1''), (''b'', ''2'')]. CHR ''='' \<notin> set k \<and> list_all (value_char '';'') (k @ v)"
    by (simp add: value_char_def)
  show ?thesis
    using h filter_datum_no_fields_masks_all [of "CHR '';''" "'';''" "[(''a'', ''1''), (''b'', ''2'')]" "''***''"]
    by simp
qed

text \<open>
  C14. A value that contains a separator character is masked only up to it: the token
  \<open>key=v;rest\<close> of a masked key becomes \<open>key=***;rest\<close>, and \<open>rest\<close>, the part of the
  value after the separator, is kept. \<open>main\<close> renders row values without escaping, so
  such a value reaches the log partly in clear.
\<close>

theorem filter_datum_value_with_separator:
  assumes sep: "s \<in> set separator"
    and keys: "keys_avoid separator (alternatives fields)"
    and noeq: "\<forall>a\<in>set (alternatives fields). CHR ''='' \<notin> set a"
    and key: "\<exists>a\<in>set (alternatives fields). suffix a k" "CHR ''='' \<notin> set k"
    and chars: "list_all (value_char separator) (k @ v)" "list_all (value_char separator) rest"
    and rest: "CHR ''='' \<notin> set rest"
  shows "filter_datum fields redaction (k @ ''='' @ v @ s # rest) separator =
         k @ ''='' @ redaction @ s # rest"
proof -
  let ?alts = "alternatives fields"
  have eq: "value_char separator CHR ''=''" using keys by (rule keys_avoid_eq) simp
  have msg: "k @ ''='' @ v @ s # rest = py_join [s] [k @ ''='' @ v, rest]" by simp
  have "filter_datum fields redaction (py_join [s] [k @ ''='' @ v, rest]) separator =
        py_join [s] (map (redact_token ?alts redaction) [k @ ''='' @ v, rest])"
    unfolding filter_datum_def re_sub_eq_redact_tokens [OF keys]
    using sep chars eq by (intro redact_tokens_py_join) (auto simp: value_char_def)
  also have "\<dots> = py_join [s] [k @ ''='' @ redaction, rest]"
    using redact_token_kv [OF key(2) noeq, of redaction v] key(1) rest by (simp add: redact_token_no_eq)
  finally show ?thesis by (simp add: msg)
qed

theorem filter_datum_value_with_separator_witness:
  "CHR '';'' \<in> set '';'' \<and> keys_avoid '';'' (alternatives [''password'']) \<and>
   list_all (\<lambda>a. CHR ''='' \<notin> set a) (alternatives [''password'']) \<and>
   list_ex (\<lambda>a. suffix a ''password'') (alternatives [''password'']) \<and> CHR ''='' \<notin> set ''password'' \<and>
   list_all (value_char '';'') (''password'' @ ''hun'') \<and> list_all (value_char '';'') ''ter2'' \<and>
   CHR ''='' \<notin> set ''ter2'' \<and>
   filter_datum [''password''] ''***'' ''password=hun;ter2'' '';'' = ''password=***;ter2''"
proof -
  have h: "CHR '';'' \<in> set '';''" "keys_avoid '';'' (alternatives [''password''])"
    "\<forall>a\<in>set (alternatives [''password'']). CHR ''='' \<notin> set a"
    "\<exists>a\<in>set (alternatives [''password'']). suffix a ''password''" "CHR ''='' \<notin> set ''password''"
    "list_all (value_char '';'') (''password'' @ ''hun'')" "list_all (value_char '';'') ''ter2''"
    "CHR ''='' \<notin> set ''ter2''"
    by (simp_all add: keys_avoid_def alternatives_def value_char_def)
  show ?thesis
    using filter_datum_value_with_separator [OF h, of "''***''"] h by (simp add: list_all_iff list_ex_iff)
qed

text \<open>
  C6. A message in which no field followed by \<open>=\<close> occurs is returned unchanged.
\<close>

theorem filter_datum_no_key_identity:
  "\<forall>a\<in>set (alternatives fields). \<not> sublist (a @ ''='') message \<Longrightarrow>
   filter_datum fields redaction message separator = message"
  unfolding filter_datum_def by (rule re_sub_no_key)

theorem filter_datum_no_key_identity_witness:
  "list_all (\<lambda>a. \<not> sublist (a @ ''='') ''name=Bob;ssn 12'') (alternatives [''ssn'']) \<and>
   filter_datum [''ssn''] ''***'' ''name=Bob;ssn 12'' '';'' = ''name=Bob;ssn 12''"
proof -
  have h: "\<forall>a\<in>set (alternatives [''ssn'']). \<not> sublist (a @ ''='') ''name=Bob;ssn 12''"
    by (simp add: alternatives_def sublist_code)
  show ?thesis using h filter_datum_no_key_identity [OF h] by (simp add: list_all_iff)
qed

text \<open>
  C7. Bound on the output: each redaction consumes at least one \<open>=\<close> of the message,
  so the result is at most the message's length plus one redaction per \<open>=\<close>.
\<close>

theorem filter_datum_length_bound:
  "length (filter_datum fields redaction message separator) \<le>
     length message + count_list message (CHR ''='') * length redaction"
  unfolding filter_datum_def by (rule re_sub_length)

end
