(* ===== verification/PercentFormat.thy ===== *)
theory PercentFormat
  imports Prelude "HOL-Library.Code_Target_Nat"
begin

text \<open>
  Python's \<open>str % mapping\<close>, the operation \<open>logging.PercentStyle\<close> applies to a
  formatter's template and the record's attributes (\<open>self._fmt % record.__dict__\<close>),
  for string-valued attributes. A conversion specification is read as CPython's
  \<open>PyUnicode_Format\<close> reads it: \<open>%\<close>, an optional mapping key in parentheses (balanced
  parentheses inside the key are part of it), flags among \<open>-+ #0\<close>, a decimal width, a
  precision \<open>.digits\<close>, a length modifier \<open>h l L\<close> (ignored), the conversion character.
  \<open>%s\<close> takes the first \<open>precision\<close> characters and pads to \<open>width\<close> with blanks, on
  the right under the flag \<open>-\<close> and on the left otherwise; \<open>%%\<close> writes \<open>%\<close>. The
  errors are values of \<open>fmt_error\<close>: an unknown key (\<open>KeyError\<close>), a template ending
  inside a specification or a key (\<open>ValueError\<close>), a width or precision above
  \<open>PY_SSIZE_T_MAX\<close> (\<open>ValueError\<close>), a numeric conversion or \<open>%c\<close> on a string of
  another length (\<open>TypeError\<close>), an unknown conversion character (\<open>ValueError\<close>).
  A specification without a key, \<open>*\<close> widths and the conversions \<open>r\<close> and \<open>a\<close> (which
  format \<open>repr\<close>) are outside the model (\<open>FmtUnsupported\<close>).
\<close>

datatype fmt_error =
    KeyError string
  | IncompleteFormat
  | IncompleteFormatKey
  | WidthTooBig
  | PrecTooBig
  | RealNumberRequired char
  | CharRequired
  | UnsupportedFormatChar char
  | FmtUnsupported

definition PY_SSIZE_T_MAX :: nat where
  "PY_SSIZE_T_MAX = 2 ^ 63 - 1"

definition is_digit :: "char \<Rightarrow> bool" where
  "is_digit c \<longleftrightarrow> c \<in> set ''0123456789''"

definition is_flag :: "char \<Rightarrow> bool" where
  "is_flag c \<longleftrightarrow> c \<in> set ''-+ #0''"

definition digits_value :: "string \<Rightarrow> nat" where
  "digits_value ds = foldl (\<lambda>n c. 10 * n + (of_char c - 48)) 0 ds"

fun key_scan :: "nat \<Rightarrow> string \<Rightarrow> string \<Rightarrow> (string \<times> string) option" where
  "key_scan depth acc [] = None"
| "key_scan depth acc (c # cs) =
     (if c = CHR '')'' then
        (if depth = 1 then Some (rev acc, cs) else key_scan (depth - 1) (c # acc) cs)
      else key_scan (if c = CHR ''('' then Suc depth else depth) (c # acc) cs)"

definition pad_to :: "bool \<Rightarrow> nat \<Rightarrow> string \<Rightarrow> string" where
  "pad_to left width v =
     (if left then v @ replicate (width - length v) CHR '' ''
      else replicate (width - length v) CHR '' '' @ v)"

text \<open>The conversion character applied to the looked-up value.\<close>

definition convert ::
  "char \<Rightarrow> string option \<Rightarrow> string \<Rightarrow> nat \<Rightarrow> nat option \<Rightarrow> fmt_error + string" where
  "convert x val flags width prec =
     (if x = CHR ''%'' then Inr ''%''
      else case val of
        None \<Rightarrow> Inl FmtUnsupported
      | Some v \<Rightarrow>
          (if x = CHR ''s'' then
             Inr (pad_to (CHR ''-'' \<in> set flags) width
                    (case prec of None \<Rightarrow> v | Some p \<Rightarrow> take p v))
           else if x = CHR ''c'' then
             (if length v = 1 then Inr (pad_to (CHR ''-'' \<in> set flags) width v) else Inl CharRequired)
           else if x \<in> set ''diouxXeEfFgG'' then Inl (RealNumberRequired x)
           else if x \<in> set ''ra'' then Inl FmtUnsupported
           else Inl (UnsupportedFormatChar x)))"

text \<open>
  One conversion specification, the text after its \<open>%\<close>: the mapping key and its value
  (\<open>spec_key\<close>), then flags, width digits, precision digits and length modifier
  (\<open>spec_fields\<close>), then the checks and the conversion (\<open>conv_spec\<close>), which returns the
  text produced and the rest of the template.
\<close>

definition spec_key ::
  "(string \<Rightarrow> string option) \<Rightarrow> string \<Rightarrow> fmt_error + (string option \<times> string)" where
  "spec_key attrs s =
     (if s \<noteq> [] \<and> hd s = CHR ''(''
      then (case key_scan 1 [] (tl s) of
              None \<Rightarrow> Inl IncompleteFormatKey
            | Some (k, r) \<Rightarrow> (case attrs k of None \<Rightarrow> Inl (KeyError k) | Some v \<Rightarrow> Inr (Some v, r)))
      else Inr (None, s))"

definition spec_fields :: "string \<Rightarrow> string \<times> string \<times> string option \<times> string" where
  "spec_fields r1 =
     (let flags = takeWhile is_flag r1;
          r2 = dropWhile is_flag r1;
          wd = takeWhile is_digit r2;
          r3 = dropWhile is_digit r2;
          dot = (r3 \<noteq> [] \<and> hd r3 = CHR ''.'');
          pd = (if dot then Some (takeWhile is_digit (tl r3)) else None);
          r4 = (if dot then dropWhile is_digit (tl r3) else r3);
          r5 = (case r4 of c # r \<Rightarrow> if c \<in> set ''hlL'' then r else r4 | [] \<Rightarrow> [])
      in (flags, wd, pd, r5))"

text \<open>\<open>*\<close> as width or precision: the text after the flags, or after the dot.\<close>

definition star_arg :: "string \<Rightarrow> bool" where
  "star_arg r1 \<longleftrightarrow>
     (let r2 = dropWhile is_flag r1; r3 = dropWhile is_digit r2
      in (r2 \<noteq> [] \<and> hd r2 = CHR ''*'') \<or>
         (r3 \<noteq> [] \<and> hd r3 = CHR ''.'' \<and> tl r3 \<noteq> [] \<and> hd (tl r3) = CHR ''*''))"

definition conv_spec ::
  "(string \<Rightarrow> string option) \<Rightarrow> string \<Rightarrow> fmt_error + (string \<times> string)" where
  "conv_spec attrs s =
     (case spec_key attrs s of
        Inl e \<Rightarrow> Inl e
      | Inr (val, r1) \<Rightarrow>
          (case spec_fields r1 of (flags, wd, pd, r5) \<Rightarrow>
             if star_arg r1 then Inl FmtUnsupported
             else if PY_SSIZE_T_MAX < digits_value wd then Inl WidthTooBig
             else if PY_SSIZE_T_MAX < digits_value (case pd of None \<Rightarrow> [] | Some p \<Rightarrow> p)
               then Inl PrecTooBig
             else case r5 of
               [] \<Rightarrow> Inl IncompleteFormat
             | x # rest \<Rightarrow>
                 (case convert x val flags (digits_value wd) (map_option digits_value pd) of
                    Inl e \<Rightarrow> Inl e
                  | Inr out \<Rightarrow> Inr (out, rest))))"

section \<open>Lemmas\<close>

lemma key_scan_shorter: "key_scan depth acc s = Some (k, r) \<Longrightarrow> length r < length s"
  by (induction depth acc s rule: key_scan.induct) (auto split: if_splits)

lemma spec_key_shorter: "spec_key attrs s = Inr (val, r1) \<Longrightarrow> length r1 \<le> length s"
  by (cases s) (auto simp: spec_key_def split: if_splits option.splits dest!: key_scan_shorter)

lemma suffix_skip_one: "suffix (case xs of c # r \<Rightarrow> if P c then r else xs | [] \<Rightarrow> []) xs"
  by (cases xs) (auto intro: suffix_ConsI)

lemma suffix_if_dropWhile_tl: "suffix (if b then dropWhile Q (tl ys) else ys) ys"
  using suffix_dropWhile suffix_tl suffix_order.trans by fastforce

lemma spec_fields_suffix: "suffix (snd (snd (snd (spec_fields r1)))) r1"
  unfolding spec_fields_def Let_def snd_conv
  by (rule suffix_order.trans[OF suffix_skip_one], rule suffix_order.trans[OF suffix_if_dropWhile_tl],
      rule suffix_order.trans[OF suffix_dropWhile suffix_dropWhile])

lemma spec_fields_shorter: "spec_fields r1 = (flags, wd, pd, r5) \<Longrightarrow> length r5 \<le> length r1"
  using spec_fields_suffix[of r1] by (simp add: suffix_length_le)

text \<open>A specification consumes at least its conversion character.\<close>

lemma conv_spec_shorter:
  assumes "conv_spec attrs s = Inr (out, rest)"
  shows "length rest < length s"
proof -
  obtain val r1 flags wd pd r5 where k: "spec_key attrs s = Inr (val, r1)"
    and f: "spec_fields r1 = (flags, wd, pd, r5)" and r5: "\<exists>x. r5 = x # rest"
    using assms by (auto simp: conv_spec_def split: sum.splits prod.splits if_splits list.splits)
  then show ?thesis using spec_key_shorter[OF k] spec_fields_shorter[OF f] by auto
qed

end
