(* ===== verification/FormatTime.thy ===== *)
theory FormatTime
  imports PercentFormat
begin

text \<open>
  \<open>logging.Formatter.formatTime(record)\<close> without a date format, the time stamp that the
  template's \<open>%(asctime)s\<close> shows: \<open>time.strftime("%Y-%m-%d %H:%M:%S", ct)\<close> of the local
  time \<open>ct\<close> of the record's creation, then \<open>'%s,%03d' % (s, record.msecs)\<close>. The local
  time is a \<open>struct_time\<close> record (the conversion from seconds since the epoch, with its
  time zone, is not modelled); \<open>%Y\<close> is the year in decimal, the other fields two
  digits with leading zeros, and the milliseconds three digits. \<open>py_str_nat\<close> is
  Python's decimal rendering of a non-negative integer.
\<close>

record struct_time =
  tm_year :: nat
  tm_mon :: nat
  tm_mday :: nat
  tm_hour :: nat
  tm_min :: nat
  tm_sec :: nat

definition decimal_digit :: "nat \<Rightarrow> char" where
  "decimal_digit d = ''0123456789'' ! d"

fun py_str_nat :: "nat \<Rightarrow> string" where
  "py_str_nat n =
     (if n < 10 then [decimal_digit n] else py_str_nat (n div 10) @ [decimal_digit (n mod 10)])"

definition zero_pad :: "nat \<Rightarrow> string \<Rightarrow> string" where
  "zero_pad w s = replicate (w - length s) CHR ''0'' @ s"

definition strftime_default :: "struct_time \<Rightarrow> string" where
  "strftime_default ct =
     py_str_nat (tm_year ct) @ ''-'' @ zero_pad 2 (py_str_nat (tm_mon ct)) @ ''-'' @
     zero_pad 2 (py_str_nat (tm_mday ct)) @ '' '' @ zero_pad 2 (py_str_nat (tm_hour ct)) @ '':'' @
     zero_pad 2 (py_str_nat (tm_min ct)) @ '':'' @ zero_pad 2 (py_str_nat (tm_sec ct))"

definition format_time :: "struct_time \<Rightarrow> nat \<Rightarrow> string" where
  "format_time ct msecs = strftime_default ct @ '','' @ zero_pad 3 (py_str_nat msecs)"

text \<open>The ranges \<open>time.localtime\<close> produces for four-digit years, and \<open>msecs < 1000\<close>.\<close>

definition valid_time :: "struct_time \<Rightarrow> nat \<Rightarrow> bool" where
  "valid_time ct msecs \<longleftrightarrow>
     1000 \<le> tm_year ct \<and> tm_year ct < 10000 \<and> 1 \<le> tm_mon ct \<and> tm_mon ct \<le> 12 \<and>
     1 \<le> tm_mday ct \<and> tm_mday ct \<le> 31 \<and> tm_hour ct < 24 \<and> tm_min ct < 60 \<and>
     tm_sec ct \<le> 61 \<and> msecs < 1000"

text \<open>Reading a time stamp back: fixed positions, each field by \<open>digits_value\<close>.\<close>

definition parse_time :: "string \<Rightarrow> (struct_time \<times> nat) option" where
  "parse_time s =
     (if length s = 23 \<and> list_all is_digit (take 4 s) \<and> list_all is_digit (take 2 (drop 5 s)) \<and>
         list_all is_digit (take 2 (drop 8 s)) \<and> list_all is_digit (take 2 (drop 11 s)) \<and>
         list_all is_digit (take 2 (drop 14 s)) \<and> list_all is_digit (take 2 (drop 17 s)) \<and>
         list_all is_digit (drop 20 s)
      then Some (\<lparr>tm_year = digits_value (take 4 s), tm_mon = digits_value (take 2 (drop 5 s)),
                  tm_mday = digits_value (take 2 (drop 8 s)), tm_hour = digits_value (take 2 (drop 11 s)),
                  tm_min = digits_value (take 2 (drop 14 s)), tm_sec = digits_value (take 2 (drop 17 s))\<rparr>,
                 digits_value (drop 20 s))
      else None)"

section \<open>Lemmas\<close>

declare py_str_nat.simps [simp del]

lemma decimal_digit_is_digit: "d < 10 \<Longrightarrow> is_digit (decimal_digit d)"
  unfolding decimal_digit_def is_digit_def by (rule nth_mem) simp

lemma of_char_decimal_digit: "d < 10 \<Longrightarrow> of_char (decimal_digit d) = (48 + d :: nat)"
proof -
  assume "d < 10"
  then have "d \<in> {0, 1, 2, 3, 4, 5, 6, 7, 8, 9}" by auto
  then show ?thesis by (auto simp: decimal_digit_def)
qed

lemma py_str_nat_digits: "list_all is_digit (py_str_nat n)"
  by (induction n rule: py_str_nat.induct) (subst py_str_nat.simps, auto simp: decimal_digit_is_digit)

lemma digits_value_snoc: "digits_value (xs @ [c]) = 10 * digits_value xs + (of_char c - 48)"
  by (simp add: digits_value_def)

lemma digits_value_py_str_nat: "digits_value (py_str_nat n) = n"
proof (induction n rule: py_str_nat.induct)
  case (1 n)
  show ?case
  proof (cases "n < 10")
    case True
    then show ?thesis by (subst py_str_nat.simps) (simp add: digits_value_def of_char_decimal_digit)
  next
    case False
    then have "digits_value (py_str_nat n) = 10 * (n div 10) + n mod 10"
      using 1 by (subst py_str_nat.simps) (simp add: digits_value_snoc of_char_decimal_digit)
    then show ?thesis by simp
  qed
qed

lemma digits_value_zeros: "digits_value (replicate k CHR ''0'' @ s) = digits_value s"
proof -
  have "foldl (\<lambda>n c. 10 * n + (of_char c - 48)) 0 (replicate k CHR ''0'') = (0::nat)"
    by (induction k) simp_all
  then show ?thesis by (simp add: digits_value_def)
qed

lemma length_py_str_nat_le: "n < 10 ^ k \<Longrightarrow> 0 < k \<Longrightarrow> length (py_str_nat n) \<le> k"
proof (induction n arbitrary: k rule: py_str_nat.induct)
  case (1 n)
  show ?case
  proof (cases "n < 10")
    case True
    with 1 show ?thesis by (subst py_str_nat.simps) simp
  next
    case False
    obtain k' where k: "k = Suc k'" using 1(3) by (cases k) auto
    have "0 < k'"
    proof (rule ccontr)
      assume "\<not> 0 < k'"
      then have "k = 1" using k by simp
      with 1(2) False show False by simp
    qed
    have "n < 10 ^ k' * 10" using 1(2) k by (simp add: mult.commute)
    then have "n div 10 < 10 ^ k'" by (rule less_mult_imp_div_less)
    with 1(1)[OF False] \<open>0 < k'\<close> False k show ?thesis by (subst py_str_nat.simps) simp
  qed
qed

lemma length_py_str_nat_ge: "10 ^ k \<le> n \<Longrightarrow> k < length (py_str_nat n)"
proof (induction n arbitrary: k rule: py_str_nat.induct)
  case (1 n)
  show ?case
  proof (cases "n < 10")
    case True
    have "k = 0"
    proof (rule ccontr)
      assume "k \<noteq> 0"
      then obtain k' where "k = Suc k'" by (cases k) auto
      then have B: "10 * 10 ^ k' \<le> n" using 1(2) by simp
      have A: "(10::nat) \<le> 10 * 10 ^ k'" by simp
      from A B have "10 \<le> n" by (rule order.trans)
      with True show False by simp
    qed
    then show ?thesis by (subst py_str_nat.simps) simp
  next
    case False
    show ?thesis
    proof (cases k)
      case (Suc k')
      have "10 ^ k' \<le> n div 10" using 1(2) Suc by (simp add: less_eq_div_iff_mult_less_eq mult.commute)
      with 1(1)[OF False] False Suc show ?thesis by (subst py_str_nat.simps) simp
    qed (subst py_str_nat.simps, simp)
  qed
qed

lemma is_digit_zero [simp]: "is_digit CHR ''0''"
  by (simp add: is_digit_def)

lemma zero_pad_digits: "list_all is_digit s \<Longrightarrow> list_all is_digit (zero_pad w s)"
  by (auto simp: zero_pad_def list_all_iff)

lemma zero_pad_field:
  assumes "n < 10 ^ w" and "0 < w"
  shows "length (zero_pad w (py_str_nat n)) = w \<and> list_all is_digit (zero_pad w (py_str_nat n)) \<and>
         digits_value (zero_pad w (py_str_nat n)) = n"
  using length_py_str_nat_le[OF assms] py_str_nat_digits[of n]
  using zero_pad_digits[of "py_str_nat n" w]
  by (simp add: zero_pad_def digits_value_zeros digits_value_py_str_nat)

lemma year_field:
  assumes "1000 \<le> y" and "y < 10000"
  shows "length (py_str_nat y) = 4"
  using length_py_str_nat_le[of y 4] length_py_str_nat_ge[of 3 y] assms by simp

lemma py_str_nat_no_sep: "c \<in> set (py_str_nat n) \<Longrightarrow> is_digit c"
  using py_str_nat_digits[of n] by (simp add: list_all_iff)

lemma zero_pad_no_sep: "c \<in> set (zero_pad w (py_str_nat n)) \<Longrightarrow> is_digit c"
  using zero_pad_digits[OF py_str_nat_digits[of n], of w] by (simp add: list_all_iff)

text \<open>The time stamp is made of digits and the characters \<open>- :,\<close> only.\<close>

lemma format_time_chars: "c \<in> set (format_time ct msecs) \<Longrightarrow> is_digit c \<or> c \<in> set ''- :,''"
  by (auto simp: format_time_def strftime_default_def dest: py_str_nat_no_sep zero_pad_no_sep)

lemma format_time_length:
  assumes "valid_time ct msecs"
  shows "length (format_time ct msecs) = 23"
proof -
  have "length (py_str_nat (tm_year ct)) = 4" using assms by (simp add: valid_time_def year_field)
  moreover have "\<And>n. n < 100 \<Longrightarrow> length (zero_pad 2 (py_str_nat n)) = 2"
    using zero_pad_field[of _ 2] by simp
  moreover have "length (zero_pad 3 (py_str_nat msecs)) = 3"
    using zero_pad_field[of msecs 3] assms by (simp add: valid_time_def)
  ultimately show ?thesis using assms
    by (simp add: format_time_def strftime_default_def valid_time_def)
qed

lemma parse_format_time:
  assumes "valid_time ct msecs"
  shows "parse_time (format_time ct msecs) = Some (ct, msecs)"
proof -
  define Y where "Y = py_str_nat (tm_year ct)"
  define M where "M = zero_pad 2 (py_str_nat (tm_mon ct))"
  define D where "D = zero_pad 2 (py_str_nat (tm_mday ct))"
  define H where "H = zero_pad 2 (py_str_nat (tm_hour ct))"
  define I where "I = zero_pad 2 (py_str_nat (tm_min ct))"
  define S where "S = zero_pad 2 (py_str_nat (tm_sec ct))"
  define F where "F = zero_pad 3 (py_str_nat msecs)"
  have v: "tm_mon ct < 10 ^ 2" "tm_mday ct < 10 ^ 2" "tm_hour ct < 10 ^ 2" "tm_min ct < 10 ^ 2"
      "tm_sec ct < 10 ^ 2" "msecs < 10 ^ 3"
    using assms by (auto simp: valid_time_def)
  have Y: "length Y = 4" "list_all is_digit Y" "digits_value Y = tm_year ct"
    using assms year_field py_str_nat_digits digits_value_py_str_nat by (auto simp: Y_def valid_time_def)
  have M: "length M = 2" "list_all is_digit M" "digits_value M = tm_mon ct"
    using zero_pad_field[OF v(1)] by (simp_all add: M_def)
  have D: "length D = 2" "list_all is_digit D" "digits_value D = tm_mday ct"
    using zero_pad_field[OF v(2)] by (simp_all add: D_def)
  have H: "length H = 2" "list_all is_digit H" "digits_value H = tm_hour ct"
    using zero_pad_field[OF v(3)] by (simp_all add: H_def)
  have I: "length I = 2" "list_all is_digit I" "digits_value I = tm_min ct"
    using zero_pad_field[OF v(4)] by (simp_all add: I_def)
  have S: "length S = 2" "list_all is_digit S" "digits_value S = tm_sec ct"
    using zero_pad_field[OF v(5)] by (simp_all add: S_def)
  have F: "length F = 3" "list_all is_digit F" "digits_value F = msecs"
    using zero_pad_field[OF v(6)] by (simp_all add: F_def)
  have ft: "format_time ct msecs = Y @ ''-'' @ M @ ''-'' @ D @ '' '' @ H @ '':'' @ I @ '':'' @ S @ '','' @ F"
    by (simp add: format_time_def strftime_default_def Y_def M_def D_def H_def I_def S_def F_def)
  show ?thesis
    unfolding ft parse_time_def using Y M D H I S F by simp
qed

end
