(* ===== verification/Formatter.thy ===== *)
theory Formatter
  imports Redactor FormatTime
begin

text \<open>
  The class \<open>RedactingFormatter\<close> of \<^verbatim>\<open>src/0x00-personal_data/filtered_logger.py\<close>
  (lines 35--63) and the part of Python's \<open>logging.Formatter.format\<close> it relies on.
  \<open>log_record\<close> holds the attributes of a \<open>logging.LogRecord\<close> that the format string
  and \<open>Formatter.format\<close> read: the logger's name, the level name, the formatted time
  (\<open>formatTime\<close>'s result), the message (\<open>getMessage()\<close>'s result), and the
  exception and stack texts, where Python's falsy \<open>None\<close>/\<open>''\<close> is the empty string.
  \<open>base_format\<close> is \<open>Formatter.format\<close> for the class's \<open>FORMAT\<close>: the
  \<open>%\<close>-substitution of the template (\<open>%(asctime)-15s\<close> pads on the right to 15
  characters), then the exception text and the stack text, each after a newline unless
  the line already ends with one. \<open>format\<close> applies \<open>filter_datum\<close> to the whole
  rendered line with the instance's \<open>self.fields\<close> (\<open>fmt_fields\<close>) and the class constants \<open>REDACTION\<close> and \<open>SEPARATOR\<close>.
  \<open>percent_format\<close> is logging's \<open>PercentStyle\<close> in general (\<open>self._fmt % record.__dict__\<close>,
  over \<open>record_attrs\<close>); theorem C21 shows that on \<open>FORMAT\<close> it computes \<open>FORMAT_render\<close>.
  When \<open>asctime\<close> is \<open>formatTime\<close>'s default stamp (\<open>FormatTime.format_time\<close>), the
  padding to 15 characters is inert (C29) and the stamp reads back from the header (C30).
\<close>

record log_record =
  name :: string
  levelname :: string
  asctime :: string
  message :: string
  exc_text :: string
  stack_info :: string

record redacting_formatter =
  fmt_fields :: "field_name list"

definition REDACTION :: string where
  "REDACTION = ''***''"

definition SEPARATOR :: separator where
  "SEPARATOR = '';''"

definition ljust :: "nat \<Rightarrow> string \<Rightarrow> string" where
  "ljust n s = s @ replicate (n - length s) CHR '' ''"

definition FORMAT :: string where
  "FORMAT = ''[HOLBERTON] %(name)s %(levelname)s %(asctime)-15s: %(message)s''"

text \<open>The string attributes of the record that \<open>record.__dict__\<close> maps the template's
  keys to.\<close>

definition record_attrs :: "log_record \<Rightarrow> string \<Rightarrow> string option" where
  "record_attrs r =
     map_of [(''name'', name r), (''levelname'', levelname r), (''asctime'', asctime r),
             (''message'', message r)]"

text \<open>\<open>PercentStyle._format\<close>: \<open>self._fmt % values\<close>, one conversion specification after
  another (\<open>PercentFormat.conv_spec\<close>), the first error ending the formatting.\<close>

function percent_format :: "(string \<Rightarrow> string option) \<Rightarrow> string \<Rightarrow> fmt_error + string" where
  "percent_format attrs [] = Inr []"
| "percent_format attrs (c # cs) =
     (if c \<noteq> CHR ''%'' then map_sum id (Cons c) (percent_format attrs cs)
      else (case conv_spec attrs cs of
              Inl e \<Rightarrow> Inl e
            | Inr (out, rest) \<Rightarrow> map_sum id (append out) (percent_format attrs rest)))"
  by pat_completeness auto
termination
  by (relation "measure (\<lambda>(_, s). length s)") (auto dest: conv_spec_shorter)

definition FORMAT_prefix :: "log_record \<Rightarrow> string" where
  "FORMAT_prefix r =
     ''[HOLBERTON] '' @ name r @ '' '' @ levelname r @ '' '' @ ljust 15 (asctime r) @ '': ''"

definition FORMAT_render :: "log_record \<Rightarrow> string" where
  "FORMAT_render r = FORMAT_prefix r @ message r"

definition append_block :: "string \<Rightarrow> string \<Rightarrow> string" where
  "append_block s t =
     (if t = [] then s
      else (if s \<noteq> [] \<and> last s = CHR 0x0A then s else s @ [CHR 0x0A]) @ t)"

definition base_format :: "log_record \<Rightarrow> string" where
  "base_format r = append_block (append_block (FORMAT_render r) (exc_text r)) (stack_info r)"

definition RedactingFormatter_init :: "field_name list \<Rightarrow> redacting_formatter" where
  "RedactingFormatter_init fs = \<lparr>fmt_fields = fs\<rparr>"

definition format :: "redacting_formatter \<Rightarrow> log_record \<Rightarrow> string" where
  "format self r = filter_datum (fmt_fields self) REDACTION (base_format r) SEPARATOR"

section \<open>Lemmas\<close>

text \<open>The facts that evaluate Python's \<open>%\<close>-operator on \<open>FORMAT\<close>.\<close>

lemmas FORMAT_simps = FORMAT_def record_attrs_def conv_spec_def spec_key_def spec_fields_def
  star_arg_def convert_def pad_to_def is_flag_def is_digit_def digits_value_def PY_SSIZE_T_MAX_def

lemma re_sub_append_nomatch:
  "(\<And>i. i < length u \<Longrightarrow> match_key alts (drop i u @ w) = None) \<Longrightarrow>
   re_sub alts separator redaction (u @ w) = u @ re_sub alts separator redaction w"
proof (induction u)
  case (Cons c u)
  have "match_key alts (c # u @ w) = None" using Cons.prems [of 0] by simp
  moreover have "re_sub alts separator redaction (u @ w) = u @ re_sub alts separator redaction w"
    using Cons.prems [of "Suc _"] by (intro Cons.IH) auto
  ultimately show ?case by (simp add: re_sub_None)
qed simp

lemma re_sub_after_prefix:
  assumes noeq: "CHR ''='' \<notin> set u" and sp: "u \<noteq> [] \<Longrightarrow> last u = CHR '' ''"
    and alts: "\<forall>a\<in>set alts. CHR '' '' \<notin> set a"
  shows "re_sub alts separator redaction (u @ w) = u @ re_sub alts separator redaction w"
proof (rule re_sub_append_nomatch)
  fix i assume i: "i < length u"
  show "match_key alts (drop i u @ w) = None"
  proof (unfold match_key_None_iff, intro ballI notI)
    fix a assume a: "a \<in> set alts" and pre: "prefix (a @ ''='') (drop i u @ w)"
    have ne: "drop i u \<noteq> []" using i by simp
    have "CHR ''='' \<notin> set (drop i u)" using noeq by (meson in_set_dropD)
    with pre ne have "last (drop i u) \<in> set a" by (intro prefix_snoc_last_in [of a "CHR ''=''" _ w]) simp_all
    moreover have "u \<noteq> []" using i by auto
    then have "last (drop i u) = CHR '' ''" using sp i by (simp add: last_drop)
    ultimately show False using alts a by auto
  qed
qed

lemma prefix_append_block: "prefix s (append_block s t)"
  by (simp add: append_block_def)

lemma FORMAT_prefix_last: "last (FORMAT_prefix r) = CHR '' ''"
  by (simp add: FORMAT_prefix_def)

lemma FORMAT_prefix_no_eq:
  "CHR ''='' \<notin> set (name r @ levelname r @ asctime r) \<Longrightarrow> CHR ''='' \<notin> set (FORMAT_prefix r)"
  by (simp add: FORMAT_prefix_def ljust_def)

lemma base_format_split:
  "base_format r = FORMAT_prefix r @ drop (length (FORMAT_prefix r)) (base_format r)"
proof -
  have "prefix (FORMAT_prefix r) (base_format r)"
    unfolding base_format_def FORMAT_render_def
    by (meson prefix_append_block prefixI prefix_order.trans)
  then show ?thesis by (auto simp: prefix_def)
qed

lemma format_header:
  assumes "CHR ''='' \<notin> set (name r @ levelname r @ asctime r)"
    and "\<forall>a\<in>set (alternatives (fmt_fields self)). CHR '' '' \<notin> set a"
  shows "format self r = FORMAT_prefix r @
           filter_datum (fmt_fields self) REDACTION (drop (length (FORMAT_prefix r)) (base_format r)) SEPARATOR"
  unfolding format_def filter_datum_def
  by (subst base_format_split) (rule re_sub_after_prefix, use assms FORMAT_prefix_no_eq FORMAT_prefix_last in auto)

text \<open>The 23 characters of a default time stamp sit at a fixed place of the header,
  after the logger name and the level name, whatever follows the header.\<close>

lemma header_stamp:
  assumes "length (asctime r) = 23"
  shows "take 23 (drop (14 + length (name r) + length (levelname r)) (FORMAT_prefix r @ s)) = asctime r"
proof -
  have "FORMAT_prefix r @ s = (''[HOLBERTON] '' @ name r @ '' '' @ levelname r @ '' '') @ asctime r @ '': '' @ s"
    using assms by (simp add: FORMAT_prefix_def ljust_def)
  then show ?thesis using assms by (simp only: drop_append take_append) simp
qed

section \<open>Properties of the formatter\<close>

text \<open>
  C8. When the logger name, level name and time contain no \<open>=\<close> and no field contains
  a space, \<open>RedactingFormatter.format\<close> keeps the template's header
  \<open>[HOLBERTON] name level time: \<close> verbatim and redacts the message as
  \<open>filter_datum\<close> with \<open>"***"\<close> and \<open>";"\<close> does on its own: no key can
  start in the header, since a key running into the message would contain the header's
  final space.
\<close>

theorem format_redacts_message:
  assumes "CHR ''='' \<notin> set (name r @ levelname r @ asctime r)"
    and "\<forall>a\<in>set (alternatives (fmt_fields self)). CHR '' '' \<notin> set a"
    and "exc_text r = []" and "stack_info r = []"
  shows "format self r = FORMAT_prefix r @ filter_datum (fmt_fields self) REDACTION (message r) SEPARATOR"
proof -
  have "drop (length (FORMAT_prefix r)) (base_format r) = message r"
    using assms(3,4) by (simp add: base_format_def append_block_def FORMAT_render_def)
  with format_header [OF assms(1,2)] show ?thesis by simp
qed

theorem format_redacts_message_witness:
  "CHR ''='' \<notin> set (''user_data'' @ ''INFO'' @ ''2024-01-01 00:00:00,000'') \<and>
   list_all (\<lambda>a. CHR '' '' \<notin> set a) (alternatives [''email'']) \<and>
   format (RedactingFormatter_init [''email''])
     \<lparr>name = ''user_data'', levelname = ''INFO'', asctime = ''2024-01-01 00:00:00,000'',
      message = ''email=a@b.c;x=1'', exc_text = [], stack_info = []\<rparr> =
   FORMAT_prefix \<lparr>name = ''user_data'', levelname = ''INFO'', asctime = ''2024-01-01 00:00:00,000'',
      message = ''email=a@b.c;x=1'', exc_text = [], stack_info = []\<rparr> @
   filter_datum [''email''] REDACTION ''email=a@b.c;x=1'' SEPARATOR"
proof -
  have a: "\<forall>a\<in>set (alternatives (fmt_fields (RedactingFormatter_init [''email'']))). CHR '' '' \<notin> set a"
    by (simp add: alternatives_def RedactingFormatter_init_def)
  show ?thesis
    using a format_redacts_message [OF _ a, of "\<lparr>name = ''user_data'', levelname = ''INFO'',
      asctime = ''2024-01-01 00:00:00,000'', message = ''email=a@b.c;x=1'', exc_text = [], stack_info = []\<rparr>"]
    by (simp add: RedactingFormatter_init_def alternatives_def)
qed

text \<open>
  C9. With an exception text and no stack text, the formatted line is the header followed
  by the redaction of the message, a newline and the exception text as one string: the
  newline is not a separator, so the exception text continues the value of the last
  token of the message.
\<close>

theorem format_redacts_exception_text:
  assumes "CHR ''='' \<notin> set (name r @ levelname r @ asctime r)"
    and "\<forall>a\<in>set (alternatives (fmt_fields self)). CHR '' '' \<notin> set a"
    and "exc_text r \<noteq> []" and "stack_info r = []"
    and "message r = [] \<or> last (message r) \<noteq> CHR 0x0A"
  shows "format self r = FORMAT_prefix r @
           filter_datum (fmt_fields self) REDACTION (message r @ CHR 0x0A # exc_text r) SEPARATOR"
proof -
  have "last (FORMAT_render r) \<noteq> CHR 0x0A"
    using assms(5) FORMAT_prefix_last [of r]
    by (cases "message r = []") (simp_all add: FORMAT_render_def)
  then have "base_format r = FORMAT_prefix r @ message r @ CHR 0x0A # exc_text r"
    using assms(3,4) by (simp add: base_format_def append_block_def FORMAT_render_def)
  with format_header [OF assms(1,2)] show ?thesis by simp
qed

theorem format_redacts_exception_text_witness:
  "CHR ''='' \<notin> set (''user_data'' @ ''INFO'' @ ''2024-01-01 00:00:00,000'') \<and>
   list_all (\<lambda>a. CHR '' '' \<notin> set a) (alternatives [''password'']) \<and>
   ''Traceback'' \<noteq> [] \<and> last ''password=x'' \<noteq> CHR 0x0A \<and>
   format (RedactingFormatter_init [''password''])
     \<lparr>name = ''user_data'', levelname = ''INFO'', asctime = ''2024-01-01 00:00:00,000'',
      message = ''password=x'', exc_text = ''Traceback'', stack_info = []\<rparr> =
   FORMAT_prefix \<lparr>name = ''user_data'', levelname = ''INFO'', asctime = ''2024-01-01 00:00:00,000'',
      message = ''password=x'', exc_text = ''Traceback'', stack_info = []\<rparr> @
   filter_datum [''password''] REDACTION (''password=x'' @ CHR 0x0A # ''Traceback'') SEPARATOR"
proof -
  have a: "\<forall>a\<in>set (alternatives (fmt_fields (RedactingFormatter_init [''password'']))). CHR '' '' \<notin> set a"
    by (simp add: alternatives_def RedactingFormatter_init_def)
  show ?thesis
    using a format_redacts_exception_text [OF _ a, of "\<lparr>name = ''user_data'', levelname = ''INFO'',
      asctime = ''2024-01-01 00:00:00,000'', message = ''password=x'', exc_text = ''Traceback'', stack_info = []\<rparr>"]
    by (simp add: RedactingFormatter_init_def alternatives_def)
qed

text \<open>C21. The rendering of the template used throughout the model is what Python's
  \<open>%\<close>-operator computes on the class's \<open>FORMAT\<close> string and the record's attributes:
  \<open>%(asctime)-15s\<close> pads the time stamp on the right to 15 characters, the other
  conversions insert the attribute unchanged, and no record makes the template raise.\<close>

theorem FORMAT_percent_format:
  "percent_format (record_attrs r) FORMAT = Inr (FORMAT_render r)"
  by (simp add: FORMAT_simps FORMAT_render_def FORMAT_prefix_def ljust_def)

text \<open>C29. The width of \<open>%(asctime)-15s\<close> in \<open>FORMAT\<close> never applies: with
  \<open>formatTime\<close>'s default stamp (23 characters for four-digit years) Python's
  \<open>%\<close>-operator renders the template with the stamp unpadded, followed directly by
  \<open>": "\<close> and the message.\<close>

theorem asctime_padding_inert:
  assumes "valid_time ct msecs" and "asctime r = format_time ct msecs"
  shows "percent_format (record_attrs r) FORMAT =
           Inr (''[HOLBERTON] '' @ name r @ '' '' @ levelname r @ '' '' @ format_time ct msecs @ '': '' @
                message r)"
proof -
  have "length (asctime r) = 23" using assms format_time_length by simp
  then show ?thesis using assms(2) by (simp add: FORMAT_simps ljust_def)
qed

theorem asctime_padding_inert_witness:
  "valid_time \<lparr>tm_year = 2024, tm_mon = 1, tm_mday = 9, tm_hour = 7, tm_min = 5, tm_sec = 3\<rparr> 42 \<and>
   percent_format (record_attrs \<lparr>name = ''user_data'', levelname = ''INFO'', asctime = ''2024-01-09 07:05:03,042'', message = ''hi'', exc_text = [], stack_info = []\<rparr>) FORMAT =
     Inr (''[HOLBERTON] user_data INFO '' @ format_time \<lparr>tm_year = 2024, tm_mon = 1, tm_mday = 9, tm_hour = 7, tm_min = 5, tm_sec = 3\<rparr> 42 @ '': hi'')"
proof -
  have v: "valid_time \<lparr>tm_year = 2024, tm_mon = 1, tm_mday = 9, tm_hour = 7, tm_min = 5, tm_sec = 3\<rparr> 42"
    by (simp add: valid_time_def)
  have t: "asctime \<lparr>name = ''user_data'', levelname = ''INFO'', asctime = ''2024-01-09 07:05:03,042'', message = ''hi'', exc_text = [], stack_info = []\<rparr> =
      format_time \<lparr>tm_year = 2024, tm_mon = 1, tm_mday = 9, tm_hour = 7, tm_min = 5, tm_sec = 3\<rparr> 42"
    by (simp add: format_time_def strftime_default_def zero_pad_def py_str_nat.simps decimal_digit_def)
  show ?thesis using asctime_padding_inert[OF v t] v by simp
qed

text \<open>C30. Round trip of the time stamp: the 23 characters that follow the logger name and
  the level name in the rendered header read back as exactly the local time and the
  milliseconds the record was created with, so the header identifies the moment.\<close>

theorem header_time_roundtrip:
  assumes "valid_time ct msecs" and "asctime r = format_time ct msecs"
  shows "parse_time (take 23 (drop (14 + length (name r) + length (levelname r)) (FORMAT_prefix r))) =
         Some (ct, msecs)"
proof -
  have "length (asctime r) = 23" using assms format_time_length by simp
  from header_stamp [OF this, of "[]"]
  have "take 23 (drop (14 + length (name r) + length (levelname r)) (FORMAT_prefix r)) = asctime r"
    by simp
  then show ?thesis using assms parse_format_time by simp
qed

theorem header_time_roundtrip_witness:
  "valid_time \<lparr>tm_year = 2024, tm_mon = 1, tm_mday = 9, tm_hour = 7, tm_min = 5, tm_sec = 3\<rparr> 42 \<and>
   parse_time (take 23 (drop 27 (FORMAT_prefix \<lparr>name = ''user_data'', levelname = ''INFO'', asctime = ''2024-01-09 07:05:03,042'', message = [], exc_text = [], stack_info = []\<rparr>))) =
     Some (\<lparr>tm_year = 2024, tm_mon = 1, tm_mday = 9, tm_hour = 7, tm_min = 5, tm_sec = 3\<rparr>, 42)"
proof -
  have v: "valid_time \<lparr>tm_year = 2024, tm_mon = 1, tm_mday = 9, tm_hour = 7, tm_min = 5, tm_sec = 3\<rparr> 42"
    by (simp add: valid_time_def)
  have t: "asctime \<lparr>name = ''user_data'', levelname = ''INFO'', asctime = ''2024-01-09 07:05:03,042'', message = [], exc_text = [], stack_info = []\<rparr> =
      format_time \<lparr>tm_year = 2024, tm_mon = 1, tm_mday = 9, tm_hour = 7, tm_min = 5, tm_sec = 3\<rparr> 42"
    by (simp add: format_time_def strftime_default_def zero_pad_def py_str_nat.simps decimal_digit_def)
  show ?thesis using header_time_roundtrip[OF v t] v by simp
qed

end
