(* ===== verification/Logger.thy ===== *)
theory Logger
  imports Formatter
begin

text \<open>
  \<open>PII_FIELDS\<close> and \<open>get_logger\<close> of \<^verbatim>\<open>src/0x00-personal_data/filtered_logger.py\<close>
  (lines 12 and 66--86), with the part of Python's \<open>logging\<close> they drive made explicit
  state. The process-wide table of named loggers (\<open>logging.getLogger\<close>'s manager) is a
  map \<open>registry\<close> from names to \<open>logger\<close> records (level, \<open>propagate\<close> flag and
  the list of handlers); a \<open>StreamHandler\<close> is its level and its formatter, and writes
  to standard error. \<open>get_logger\<close> is a registry transformer: it fetches or creates
  \<open>"user_data"\<close>, sets the level to \<open>INFO\<close>, clears \<open>propagate\<close> and appends a
  new handler with a \<open>RedactingFormatter(PII_FIELDS)\<close>. \<open>logger_info\<close> is
  \<open>Logger.info\<close>: when \<open>INFO\<close> reaches the logger's effective level, every handler whose
  level admits \<open>INFO\<close> writes its formatted record followed by the terminator
  \<open>"\n"\<close>; the result is the list of strings written to standard error. The root logger
  has no handlers in this program (nothing calls \<open>basicConfig\<close>), and Python's
  last-resort handler only writes records of level \<open>WARNING\<close> and above, so
  propagation and the last resort add nothing to an \<open>INFO\<close> record.
  \<open>redacting_registry\<close> is the invariant that every handler of \<open>"user_data"\<close> redacts
  \<open>PII_FIELDS\<close>; \<open>get_logger\<close> preserves it and every line such a logger writes is a
  \<open>redacted_line\<close>.
\<close>

definition PII_FIELDS :: "field_name list" where
  "PII_FIELDS = [''name'', ''email'', ''phone'', ''ssn'', ''password'']"

definition NOTSET :: nat where "NOTSET = 0"
definition INFO :: nat where "INFO = 20"
definition WARNING :: nat where "WARNING = 30"

record stream_handler =
  handler_level :: nat
  handler_formatter :: redacting_formatter

record logger =
  level :: nat
  propagate :: bool
  handlers :: "stream_handler list"

type_synonym registry = "string \<rightharpoonup> logger"

definition new_logger :: logger where
  "new_logger = \<lparr>level = NOTSET, propagate = True, handlers = []\<rparr>"

definition getLogger :: "string \<Rightarrow> registry \<Rightarrow> logger \<times> registry" where
  "getLogger n reg =
     (case reg n of
        Some lg \<Rightarrow> (lg, reg)
      | None \<Rightarrow> (new_logger, reg(n \<mapsto> new_logger)))"

definition user_data_handler :: stream_handler where
  "user_data_handler =
     \<lparr>handler_level = NOTSET, handler_formatter = RedactingFormatter_init PII_FIELDS\<rparr>"

definition get_logger :: "registry \<Rightarrow> registry" where
  "get_logger reg =
     (let (lg, reg1) = getLogger ''user_data'' reg;
          lg1 = lg\<lparr>level := INFO\<rparr>;
          lg2 = lg1\<lparr>propagate := False\<rparr>;
          lg3 = lg2\<lparr>handlers := handlers lg2 @ [user_data_handler]\<rparr>
      in reg1(''user_data'' \<mapsto> lg3))"

definition effective_level :: "logger \<Rightarrow> nat" where
  "effective_level lg = (if level lg \<noteq> NOTSET then level lg else WARNING)"

definition info_record :: "string \<Rightarrow> string \<Rightarrow> string \<Rightarrow> log_record" where
  "info_record lname time msg =
     \<lparr>name = lname, levelname = ''INFO'', asctime = time, message = msg,
      exc_text = [], stack_info = []\<rparr>"

definition emit :: "stream_handler \<Rightarrow> log_record \<Rightarrow> string" where
  "emit h r = format (handler_formatter h) r @ [CHR 0x0A]"

definition logger_info :: "logger \<Rightarrow> string \<Rightarrow> string \<Rightarrow> string \<Rightarrow> string list" where
  "logger_info lg lname time msg =
     (if effective_level lg \<le> INFO
      then map (\<lambda>h. emit h (info_record lname time msg))
             (filter (\<lambda>h. handler_level h \<le> INFO) (handlers lg))
      else [])"

text \<open>The registry invariant of the program: every handler on \<open>"user_data"\<close> formats
  with \<open>RedactingFormatter(PII_FIELDS)\<close>.\<close>

definition redacting_registry :: "registry \<Rightarrow> bool" where
  "redacting_registry reg \<longleftrightarrow>
     (case reg ''user_data'' of
        None \<Rightarrow> True
      | Some lg \<Rightarrow> list_all (\<lambda>h. handler_formatter h = RedactingFormatter_init PII_FIELDS) (handlers lg))"

definition redacted_line :: "string \<Rightarrow> bool" where
  "redacted_line l \<longleftrightarrow> (\<exists>r. l = format (RedactingFormatter_init PII_FIELDS) r @ [CHR 0x0A])"

section \<open>Lemmas\<close>

lemma get_logger_other: "n \<noteq> ''user_data'' \<Longrightarrow> get_logger reg n = reg n"
  by (auto simp: get_logger_def getLogger_def split: option.splits)

lemma get_logger_user_data:
  "get_logger reg ''user_data'' =
     Some \<lparr>level = INFO, propagate = False,
           handlers = (case reg ''user_data'' of None \<Rightarrow> [] | Some lg \<Rightarrow> handlers lg) @ [user_data_handler]\<rparr>"
  by (simp add: get_logger_def getLogger_def new_logger_def split: option.splits)

lemma get_logger_iterate:
  "0 < n \<Longrightarrow> (get_logger ^^ n) Map.empty ''user_data'' =
     Some \<lparr>level = INFO, propagate = False, handlers = replicate n user_data_handler\<rparr>"
proof (induction n)
  case (Suc n)
  then show ?case
    by (cases "n = 0") (simp_all add: get_logger_user_data replicate_append_same)
qed simp

lemma logger_info_INFO:
  "logger_info \<lparr>level = INFO, propagate = p, handlers = hs\<rparr> lname time msg =
     map (\<lambda>h. emit h (info_record lname time msg)) (filter (\<lambda>h. handler_level h \<le> INFO) hs)"
  by (simp add: logger_info_def effective_level_def INFO_def NOTSET_def)

lemma user_data_handler_admits_INFO: "handler_level user_data_handler \<le> INFO"
  by (simp add: user_data_handler_def NOTSET_def)

lemma alternatives_PII_FIELDS: "alternatives PII_FIELDS = PII_FIELDS"
  by (rule alternatives_plain) (simp_all add: PII_FIELDS_def)

lemma FORMAT_prefix_info_record:
  "FORMAT_prefix (info_record n t msg) = FORMAT_prefix (info_record n t [])"
  by (simp add: FORMAT_prefix_def info_record_def)

text \<open>What the handler installed by \<open>get_logger\<close> writes for an \<open>INFO\<close> record.\<close>

lemma emit_user_data_handler:
  assumes "CHR ''='' \<notin> set t"
  shows "emit user_data_handler (info_record ''user_data'' t msg) =
           FORMAT_prefix (info_record ''user_data'' t []) @
           filter_datum PII_FIELDS ''***'' msg '';'' @ [CHR 0x0A]"
proof -
  let ?r = "info_record ''user_data'' t msg"
  have h: "\<forall>a\<in>set (alternatives (fmt_fields (RedactingFormatter_init PII_FIELDS))). CHR '' '' \<notin> set a"
    unfolding RedactingFormatter_init_def by (simp add: alternatives_PII_FIELDS) (simp add: PII_FIELDS_def)
  have eq: "CHR ''='' \<notin> set (name ?r @ levelname ?r @ asctime ?r)"
    using assms by (simp add: info_record_def)
  have "format (RedactingFormatter_init PII_FIELDS) ?r = FORMAT_prefix ?r @
          filter_datum PII_FIELDS REDACTION (drop (length (FORMAT_prefix ?r)) (base_format ?r)) SEPARATOR"
    using format_header [OF eq h] unfolding RedactingFormatter_init_def by simp
  moreover have "drop (length (FORMAT_prefix ?r)) (base_format ?r) = msg"
    by (simp add: base_format_def append_block_def FORMAT_render_def info_record_def)
  moreover have "FORMAT_prefix ?r = FORMAT_prefix (info_record ''user_data'' t [])"
    by (rule FORMAT_prefix_info_record)
  ultimately show ?thesis
    by (simp add: emit_def user_data_handler_def REDACTION_def SEPARATOR_def)
qed

lemma get_logger_redacting: "redacting_registry reg \<Longrightarrow> redacting_registry (get_logger reg)"
  by (auto simp: redacting_registry_def get_logger_user_data user_data_handler_def split: option.splits)

lemma logger_info_redacted:
  "redacting_registry reg \<Longrightarrow> reg ''user_data'' = Some lg \<Longrightarrow>
   list_all redacted_line (logger_info lg ''user_data'' time msg)"
  by (auto simp: redacting_registry_def logger_info_def emit_def redacted_line_def list_all_iff)

section \<open>Properties of the logger setup\<close>

text \<open>
  C10. \<open>logging.getLogger\<close> returns the same logger on every call and \<open>get_logger\<close>
  adds a handler each time, so after \<open>n\<close> calls every \<open>info\<close> record is written
  \<open>n\<close> times to standard error.
\<close>

theorem get_logger_repeated_duplicates:
  "0 < n \<Longrightarrow>
   logger_info (the ((get_logger ^^ n) Map.empty ''user_data'')) ''user_data'' time msg =
   replicate n (emit user_data_handler (info_record ''user_data'' time msg))"
  by (simp add: get_logger_iterate logger_info_INFO user_data_handler_admits_INFO)

theorem get_logger_repeated_duplicates_witness:
  "0 < (2::nat) \<and>
   logger_info (the ((get_logger ^^ 2) Map.empty ''user_data'')) ''user_data'' ''t'' ''name=x'' =
   replicate 2 (emit user_data_handler (info_record ''user_data'' ''t'' ''name=x''))"
  using get_logger_repeated_duplicates [of 2 "''t''" "''name=x''"] by simp

end
