(* ===== verification/Driver.thy ===== *)
theory Driver
  imports Logger
begin

text \<open>
  \<open>get_db\<close> and \<open>main\<close> of \<^verbatim>\<open>src/0x00-personal_data/filtered_logger.py\<close>
  (lines 89--133). The environment is a map from variable names to values
  (\<open>os.getenv\<close> with a default). The MySQL server is an external collaborator: a
  \<open>database\<close> record says whether it accepts a connection with given parameters and
  what \<open>SELECT * FROM users;\<close> returns, either an error or the column names of
  \<open>cursor.description\<close>, the rows as the strings \<open>f"{row[i]}"\<close> renders, and whether
  iterating the cursor raises after the last row delivered. The process's observable
  state (\<open>world\<close>) is the logger registry, the lines written to standard error and
  whether the connection and the cursor are open. \<open>main\<close> follows the code: connect,
  open a cursor, execute, read the column names, \<open>get_logger()\<close>, then one
  \<open>logger.info\<close> per row (\<open>process_rows\<close>, stopping at the first exception), and
  close cursor and connection only when the loop ends normally: the function has no
  \<open>try\<close>/\<open>finally\<close>, so every exception leaves them open. The \<open>k\<close>-th record's time
  stamp is \<open>clock k\<close>. \<open>parse_row_message\<close> is not code: it reads a row message back
  as the specification describes messages, for the round trip C25.
\<close>

type_synonym environ = "string \<rightharpoonup> string"

datatype db_error = ConnectError | QueryError | FetchError | IndexError

record db_config =
  db_user :: string
  db_password :: string
  db_host :: string
  db_name :: "string option"

record query_result =
  description :: "string list"
  rows :: "string list list"
  fetch_error :: bool

record database =
  accepts :: "db_config \<Rightarrow> bool"
  run_query :: "db_config \<Rightarrow> string \<Rightarrow> db_error + query_result"

record world =
  loggers :: registry
  stderr :: "string list"
  conn_open :: bool
  cursor_open :: bool

definition getenv :: "environ \<Rightarrow> string \<Rightarrow> string \<Rightarrow> string" where
  "getenv env k d = (case env k of None \<Rightarrow> d | Some v \<Rightarrow> v)"

definition get_db :: "environ \<Rightarrow> db_config" where
  "get_db env =
     \<lparr>db_user = getenv env ''PERSONAL_DATA_DB_USERNAME'' ''root'',
      db_password = getenv env ''PERSONAL_DATA_DB_PASSWORD'' '''',
      db_host = getenv env ''PERSONAL_DATA_DB_HOST'' ''localhost'',
      db_name = env ''PERSONAL_DATA_DB_NAME''\<rparr>"

definition row_message :: "string list \<Rightarrow> string list \<Rightarrow> db_error + string" where
  "row_message field_names row =
     (if length row < length field_names then Inl IndexError
      else Inr (py_join ''; '' (map (\<lambda>i. field_names ! i @ ''='' @ row ! i) [0..<length field_names])))"

definition log_info :: "string \<Rightarrow> string \<Rightarrow> world \<Rightarrow> world" where
  "log_info time msg w =
     (case loggers w ''user_data'' of
        None \<Rightarrow> w
      | Some lg \<Rightarrow> w\<lparr>stderr := stderr w @ logger_info lg ''user_data'' time msg\<rparr>)"

fun process_rows ::
  "string list \<Rightarrow> (nat \<Rightarrow> string) \<Rightarrow> nat \<Rightarrow> string list list \<Rightarrow> world \<Rightarrow> db_error option \<times> world" where
  "process_rows field_names clock k [] w = (None, w)"
| "process_rows field_names clock k (row # rs) w =
     (case row_message field_names row of
        Inl e \<Rightarrow> (Some e, w)
      | Inr msg \<Rightarrow> process_rows field_names clock (Suc k) rs (log_info (clock k) msg w))"

definition main :: "environ \<Rightarrow> database \<Rightarrow> (nat \<Rightarrow> string) \<Rightarrow> world \<Rightarrow> (db_error + unit) \<times> world" where
  "main env db clock w =
     (let cfg = get_db env in
      if \<not> accepts db cfg then (Inl ConnectError, w)
      else
        (let w1 = w\<lparr>conn_open := True\<rparr>;
             w2 = w1\<lparr>cursor_open := True\<rparr>
         in case run_query db cfg ''SELECT * FROM users;'' of
              Inl e \<Rightarrow> (Inl e, w2)
            | Inr res \<Rightarrow>
                (let field_names = description res;
                     w3 = w2\<lparr>loggers := get_logger (loggers w2)\<rparr>;
                     (err, w4) = process_rows field_names clock 0 (rows res) w3
                 in case err of
                      Some e \<Rightarrow> (Inl e, w4)
                    | None \<Rightarrow>
                        if fetch_error res then (Inl FetchError, w4)
                        else (Inr (), w4\<lparr>cursor_open := False, conn_open := False\<rparr>))))"

text \<open>
  Running the module as a script (\<open>if __name__ == "__main__": main()\<close>): \<open>main\<close> on a
  fresh process; an exception that escapes \<open>main\<close> ends the interpreter with exit
  status 1 (its traceback, written to standard error by the interpreter, is not modelled),
  a normal return with status 0.
\<close>

definition fresh_world :: world where
  "fresh_world = \<lparr>loggers = Map.empty, stderr = [], conn_open = False, cursor_open = False\<rparr>"

definition script_main :: "environ \<Rightarrow> database \<Rightarrow> (nat \<Rightarrow> string) \<Rightarrow> nat \<times> world" where
  "script_main env db clock =
     (case main env db clock fresh_world of (r, w) \<Rightarrow> (if isl r then 1 else 0, w))"

text \<open>
  How the per-row message is read back as the specification describes messages: tokens
  separated by \<open>;\<close> (after the first, without the blank \<open>"; "\<close> puts before them),
  each cut at its first \<open>=\<close> into key and value.
\<close>

definition decode_pair :: "string \<Rightarrow> string \<times> string" where
  "decode_pair t = (takeWhile (\<lambda>c. c \<noteq> CHR ''='') t, drop 1 (dropWhile (\<lambda>c. c \<noteq> CHR ''='') t))"

definition parse_row_message :: "string \<Rightarrow> (string \<times> string) list" where
  "parse_row_message m =
     (case split_at_char CHR '';'' m of [] \<Rightarrow> [] | t # ts \<Rightarrow> map decode_pair (t # map tl ts))"

section \<open>Lemmas\<close>

lemma row_message_zip:
  "length field_names \<le> length row \<Longrightarrow>
   row_message field_names row = Inr (py_join ''; '' (map (\<lambda>(f, v). f @ ''='' @ v) (zip field_names row)))"
proof -
  assume len: "length field_names \<le> length row"
  have "map (\<lambda>i. field_names ! i @ ''='' @ row ! i) [0..<length field_names] =
        map (\<lambda>(f, v). f @ ''='' @ v) (zip field_names row)"
    using len by (intro nth_equalityI) auto
  with len show ?thesis by (simp add: row_message_def)
qed

lemma log_info_frame [simp]:
  "conn_open (log_info t m w) = conn_open w" "cursor_open (log_info t m w) = cursor_open w"
  "loggers (log_info t m w) = loggers w"
  by (simp_all add: log_info_def split: option.splits)

lemma process_rows_frame:
  "conn_open (snd (process_rows field_names clock k rs w)) = conn_open w \<and>
   cursor_open (snd (process_rows field_names clock k rs w)) = cursor_open w \<and>
   loggers (snd (process_rows field_names clock k rs w)) = loggers w"
  by (induction rs arbitrary: k w) (auto split: sum.splits)

lemma process_rows_ok:
  assumes "\<forall>row\<in>set rs. length field_names \<le> length row" and "loggers w ''user_data'' = Some lg"
  shows "process_rows field_names clock k rs w =
           (None, w\<lparr>stderr := stderr w @ concat (map (\<lambda>(j, row). logger_info lg ''user_data'' (clock j)
               (py_join ''; '' (map (\<lambda>(f, v). f @ ''='' @ v) (zip field_names row)))) (zip [k..<k + length rs] rs))\<rparr>)"
  using assms
proof (induction rs arbitrary: k w)
  case (Cons row rs)
  then show ?case
    by (simp add: row_message_zip log_info_def upt_conv_Cons del: upt_Suc)
qed simp

lemma process_rows_error:
  "fst (process_rows field_names clock k rs w) = None \<longleftrightarrow> (\<forall>row\<in>set rs. length field_names \<le> length row)"
  by (induction rs arbitrary: k w) (auto simp: row_message_def split: sum.splits)

lemma process_rows_frameD:
  assumes "process_rows field_names clock k rs w = (e, w')"
  shows "conn_open w' = conn_open w" "cursor_open w' = cursor_open w" "loggers w' = loggers w"
  using process_rows_frame [of field_names clock k rs w] assms by simp_all

lemma process_rows_SomeD:
  "fst (process_rows field_names clock k rs w) = Some e \<Longrightarrow> e = IndexError"
  by (induction rs arbitrary: k w) (auto simp: row_message_def split: sum.splits if_splits)


lemma main_run_ok:
  assumes "accepts db (get_db env)"
    and "run_query db (get_db env) ''SELECT * FROM users;'' = Inr res"
    and "\<not> fetch_error res"
    and "\<forall>row\<in>set (rows res). length (description res) \<le> length row"
    and "loggers w ''user_data'' = None"
  shows "main env db clock w =
    (Inr (), w\<lparr>loggers := get_logger (loggers w),
               stderr := stderr w @ map (\<lambda>(k, row). emit user_data_handler (info_record ''user_data'' (clock k)
                   (py_join ''; '' (map (\<lambda>(f, v). f @ ''='' @ v) (zip (description res) row)))))
                 (zip [0..<length (rows res)] (rows res)),
               conn_open := False, cursor_open := False\<rparr>)"
proof -
  let ?w3 = "w\<lparr>conn_open := True, cursor_open := True, loggers := get_logger (loggers w)\<rparr>"
  have lg: "loggers ?w3 ''user_data'' = Some \<lparr>level = INFO, propagate = False, handlers = [user_data_handler]\<rparr>"
    using assms(5) by (simp add: get_logger_user_data)
  have one: "\<And>t m. logger_info \<lparr>level = INFO, propagate = False, handlers = [user_data_handler]\<rparr> ''user_data'' t m =
      [emit user_data_handler (info_record ''user_data'' t m)]"
    by (simp add: logger_info_INFO user_data_handler_admits_INFO)
  have "process_rows (description res) clock 0 (rows res) ?w3 =
        (None, ?w3\<lparr>stderr := stderr w @ map (\<lambda>(k, row). emit user_data_handler (info_record ''user_data'' (clock k)
                   (py_join ''; '' (map (\<lambda>(f, v). f @ ''='' @ v) (zip (description res) row)))))
                 (zip [0..<length (rows res)] (rows res))\<rparr>)"
    using process_rows_ok [OF assms(4) lg] by (simp add: one concat_map_pair_singleton)
  with assms show ?thesis by (simp add: main_def)
qed


lemma decode_pair_kv: "CHR ''='' \<notin> set f \<Longrightarrow> decode_pair (f @ CHR ''='' # v) = (f, v)"
  by (simp add: decode_pair_def takeWhile_append dropWhile_append takeWhile_eq_all_conv
      dropWhile_eq_Nil_conv)

lemma parse_py_join_pairs:
  assumes "ps \<noteq> []"
    and "list_all (\<lambda>(f, v). CHR '';'' \<notin> set f \<and> CHR ''='' \<notin> set f \<and> CHR '';'' \<notin> set v) ps"
  shows "parse_row_message (py_join ''; '' (map (\<lambda>(f, v). f @ ''='' @ v) ps)) = ps"
proof -
  obtain p qs where ps: "ps = p # qs" using assms(1) by (cases ps) auto
  let ?g = "\<lambda>(f, v). f @ ''='' @ v"
  have "py_join ''; '' (map ?g ps) = py_join '';'' (?g p # map (\<lambda>y. '' '' @ y) (map ?g qs))"
    using py_join_Cons_pad[of "CHR '';''" "'' ''" "?g p" "map ?g qs"] by (simp add: ps)
  moreover have "split_at_char CHR '';'' (py_join '';'' (?g p # map (\<lambda>y. '' '' @ y) (map ?g qs))) =
      ?g p # map (\<lambda>y. '' '' @ y) (map ?g qs)"
    using assms(2) by (intro split_at_char_py_join) (auto simp: ps list_all_iff)
  moreover have "map decode_pair (map ?g ps) = ps"
    using assms(2) by (induction ps) (auto simp: decode_pair_kv)
  ultimately show ?thesis by (simp add: parse_row_message_def ps comp_def)
qed

lemma log_info_appends:
  "redacting_registry (loggers w) \<Longrightarrow>
   \<exists>ls. stderr (log_info t msg w) = stderr w @ ls \<and> list_all redacted_line ls"
  by (auto simp: log_info_def logger_info_redacted split: option.splits)

lemma process_rows_appends:
  "redacting_registry (loggers w) \<Longrightarrow>
   \<exists>ls. stderr (snd (process_rows field_names clock k rs w)) = stderr w @ ls \<and> list_all redacted_line ls"
proof (induction rs arbitrary: k w)
  case (Cons row rs)
  show ?case
  proof (cases "row_message field_names row")
    case (Inr msg)
    obtain ls1 where l1: "stderr (log_info (clock k) msg w) = stderr w @ ls1" "list_all redacted_line ls1"
      using log_info_appends[OF Cons.prems] by blast
    obtain ls2 where l2: "stderr (snd (process_rows field_names clock (Suc k) rs (log_info (clock k) msg w))) =
        stderr (log_info (clock k) msg w) @ ls2" "list_all redacted_line ls2"
      using Cons.IH[of "log_info (clock k) msg w"] Cons.prems by auto
    show ?thesis using Inr l1 l2 by (intro exI[of _ "ls1 @ ls2"]) simp
  qed simp
qed simp

lemma main_appends_redacted:
  assumes "redacting_registry (loggers w)"
  shows "(\<exists>ls. stderr (snd (main env db clock w)) = stderr w @ ls \<and> list_all redacted_line ls) \<and>
         redacting_registry (loggers (snd (main env db clock w)))"
proof -
  have ok: "redacting_registry (get_logger (loggers w))"
    using assms by (rule get_logger_redacting)
  show ?thesis
  proof (cases "accepts db (get_db env)")
    case True
    show ?thesis
    proof (cases "run_query db (get_db env) ''SELECT * FROM users;''")
      case (Inr res)
      let ?w3 = "w\<lparr>conn_open := True, cursor_open := True, loggers := get_logger (loggers w)\<rparr>"
      obtain err w4 where pr: "process_rows (description res) clock 0 (rows res) ?w3 = (err, w4)"
        by (cases "process_rows (description res) clock 0 (rows res) ?w3")
      have "\<exists>ls. stderr w4 = stderr w @ ls \<and> list_all redacted_line ls"
        using process_rows_appends[of ?w3 "description res" clock 0 "rows res"] ok pr by simp
      moreover have "redacting_registry (loggers w4)"
        using process_rows_frameD(3)[OF pr] ok by simp
      ultimately show ?thesis
        using True Inr pr by (auto simp: main_def Let_def split: option.splits)
    qed (use True assms in \<open>auto simp: main_def\<close>)
  qed (use assms in \<open>auto simp: main_def\<close>)
qed

section \<open>Properties of the driver\<close>

text \<open>
  C11. Once the connection is made, \<open>main\<close> leaves the connection and the cursor open
  exactly when it ends with an exception (a failed query, a row shorter than the column
  list, or a failing fetch): there is no \<open>try\<close>/\<open>finally\<close>, and only the normal
  end of the loop reaches \<open>cursor.close()\<close> and \<open>db.close()\<close>.
\<close>

theorem main_conn_open_iff_error:
  assumes "accepts db (get_db env)"
  shows "(conn_open (snd (main env db clock w)) \<longleftrightarrow> isl (fst (main env db clock w))) \<and>
         (cursor_open (snd (main env db clock w)) \<longleftrightarrow> isl (fst (main env db clock w)))"
proof (cases "run_query db (get_db env) ''SELECT * FROM users;''")
  case (Inl e)
  with assms show ?thesis by (simp add: main_def)
next
  case (Inr res)
  obtain err w4 where pr: "process_rows (description res) clock 0 (rows res)
      (w\<lparr>conn_open := True, cursor_open := True, loggers := get_logger (loggers w)\<rparr>) = (err, w4)"
    by fastforce
  have "conn_open w4" "cursor_open w4"
    using process_rows_frameD [OF pr] by simp_all
  with assms Inr pr show ?thesis
    by (auto simp: main_def Let_def split: option.splits)
qed

theorem main_conn_open_iff_error_witness:
  "accepts \<lparr>accepts = \<lambda>_. True, run_query = \<lambda>_ _. Inr \<lparr>description = [''name''], rows = [[''Bob'']],
      fetch_error = True\<rparr>\<rparr> (get_db Map.empty) \<and>
   (conn_open (snd (main Map.empty \<lparr>accepts = \<lambda>_. True, run_query = \<lambda>_ _. Inr \<lparr>description = [''name''],
      rows = [[''Bob'']], fetch_error = True\<rparr>\<rparr> (\<lambda>_. ''t'')
      \<lparr>loggers = Map.empty, stderr = [], conn_open = False, cursor_open = False\<rparr>)) \<longleftrightarrow>
    isl (fst (main Map.empty \<lparr>accepts = \<lambda>_. True, run_query = \<lambda>_ _. Inr \<lparr>description = [''name''],
      rows = [[''Bob'']], fetch_error = True\<rparr>\<rparr> (\<lambda>_. ''t'')
      \<lparr>loggers = Map.empty, stderr = [], conn_open = False, cursor_open = False\<rparr>))) \<and>
   (cursor_open (snd (main Map.empty \<lparr>accepts = \<lambda>_. True, run_query = \<lambda>_ _. Inr \<lparr>description = [''name''],
      rows = [[''Bob'']], fetch_error = True\<rparr>\<rparr> (\<lambda>_. ''t'')
      \<lparr>loggers = Map.empty, stderr = [], conn_open = False, cursor_open = False\<rparr>)) \<longleftrightarrow>
    isl (fst (main Map.empty \<lparr>accepts = \<lambda>_. True, run_query = \<lambda>_ _. Inr \<lparr>description = [''name''],
      rows = [[''Bob'']], fetch_error = True\<rparr>\<rparr> (\<lambda>_. ''t'')
      \<lparr>loggers = Map.empty, stderr = [], conn_open = False, cursor_open = False\<rparr>)))"
  using main_conn_open_iff_error [of "\<lparr>accepts = \<lambda>_. True, run_query = \<lambda>_ _. Inr \<lparr>description = [''name''],
      rows = [[''Bob'']], fetch_error = True\<rparr>\<rparr>" "Map.empty" "\<lambda>_. ''t''"
      "\<lparr>loggers = Map.empty, stderr = [], conn_open = False, cursor_open = False\<rparr>"]
  by simp

text \<open>
  C12. A successful run on a fresh process: when the query succeeds, every row has a value
  per column and the fetch does not fail, \<open>main\<close> returns normally, closes cursor and
  connection, and writes exactly one line per row to standard error.
\<close>

theorem main_success:
  assumes "accepts db (get_db env)"
    and "run_query db (get_db env) ''SELECT * FROM users;'' = Inr res"
    and "\<not> fetch_error res"
    and "\<forall>row\<in>set (rows res). length (description res) \<le> length row"
    and "loggers w ''user_data'' = None"
  shows "fst (main env db clock w) = Inr () \<and> \<not> conn_open (snd (main env db clock w)) \<and>
         \<not> cursor_open (snd (main env db clock w)) \<and>
         length (stderr (snd (main env db clock w))) = length (stderr w) + length (rows res)"
  using main_run_ok [OF assms] by simp

theorem main_success_witness:
  "accepts \<lparr>accepts = \<lambda>_. True, run_query = \<lambda>_ _. Inr \<lparr>description = [''name'', ''ip''],
      rows = [[''Bob'', ''1.2.3.4''], [''Eve'', ''5.6.7.8'']], fetch_error = False\<rparr>\<rparr> (get_db Map.empty) \<and>
   run_query \<lparr>accepts = \<lambda>_. True, run_query = \<lambda>_ _. Inr \<lparr>description = [''name'', ''ip''],
      rows = [[''Bob'', ''1.2.3.4''], [''Eve'', ''5.6.7.8'']], fetch_error = False\<rparr>\<rparr>
      (get_db Map.empty) ''SELECT * FROM users;'' =
     Inr \<lparr>description = [''name'', ''ip''], rows = [[''Bob'', ''1.2.3.4''], [''Eve'', ''5.6.7.8'']],
       fetch_error = False\<rparr> \<and>
   list_all (\<lambda>row. length [''name'', ''ip''] \<le> length row) [[''Bob'', ''1.2.3.4''], [''Eve'', ''5.6.7.8'']] \<and>
   fst (main Map.empty \<lparr>accepts = \<lambda>_. True, run_query = \<lambda>_ _. Inr \<lparr>description = [''name'', ''ip''],
      rows = [[''Bob'', ''1.2.3.4''], [''Eve'', ''5.6.7.8'']], fetch_error = False\<rparr>\<rparr> (\<lambda>_. ''t'')
      \<lparr>loggers = Map.empty, stderr = [], conn_open = False, cursor_open = False\<rparr>) = Inr () \<and>
   length (stderr (snd (main Map.empty \<lparr>accepts = \<lambda>_. True, run_query = \<lambda>_ _. Inr \<lparr>description = [''name'', ''ip''],
      rows = [[''Bob'', ''1.2.3.4''], [''Eve'', ''5.6.7.8'']], fetch_error = False\<rparr>\<rparr> (\<lambda>_. ''t'')
      \<lparr>loggers = Map.empty, stderr = [], conn_open = False, cursor_open = False\<rparr>))) = 2"
  using main_success [of "\<lparr>accepts = \<lambda>_. True, run_query = \<lambda>_ _. Inr \<lparr>description = [''name'', ''ip''],
      rows = [[''Bob'', ''1.2.3.4''], [''Eve'', ''5.6.7.8'']], fetch_error = False\<rparr>\<rparr>" "Map.empty"
      "\<lparr>description = [''name'', ''ip''], rows = [[''Bob'', ''1.2.3.4''], [''Eve'', ''5.6.7.8'']], fetch_error = False\<rparr>"
      "\<lparr>loggers = Map.empty, stderr = [], conn_open = False, cursor_open = False\<rparr>" "\<lambda>_. ''t''"]
  by simp

text \<open>
  C15. A row with fewer values than columns makes \<open>row[i]\<close> raise \<open>IndexError\<close> in the
  generator of the message: \<open>main\<close> ends with that error (the rows before it are logged).
\<close>

theorem main_short_row_index_error:
  assumes "accepts db (get_db env)"
    and "run_query db (get_db env) ''SELECT * FROM users;'' = Inr res"
    and "\<exists>row\<in>set (rows res). length row < length (description res)"
  shows "fst (main env db clock w) = Inl IndexError"
proof -
  obtain err w4 where pr: "process_rows (description res) clock 0 (rows res)
      (w\<lparr>conn_open := True, cursor_open := True, loggers := get_logger (loggers w)\<rparr>) = (err, w4)"
    by fastforce
  have "err \<noteq> None" using pr process_rows_error [of "description res" clock 0 "rows res"] assms(3)
    by (metis fst_conv leD)
  then obtain e where e: "err = Some e" by blast
  have "fst (process_rows (description res) clock 0 (rows res)
      (w\<lparr>conn_open := True, cursor_open := True, loggers := get_logger (loggers w)\<rparr>)) = Some e"
    using pr e by simp
  then have "e = IndexError" by (rule process_rows_SomeD)
  note e this
  then show ?thesis using assms(1,2) pr by (simp add: main_def)
qed

theorem main_short_row_index_error_witness:
  "accepts \<lparr>accepts = \<lambda>_. True, run_query = \<lambda>_ _. Inr \<lparr>description = [''name'', ''email''],
      rows = [[''Bob'']], fetch_error = False\<rparr>\<rparr> (get_db Map.empty) \<and>
   run_query \<lparr>accepts = \<lambda>_. True, run_query = \<lambda>_ _. Inr \<lparr>description = [''name'', ''email''],
      rows = [[''Bob'']], fetch_error = False\<rparr>\<rparr> (get_db Map.empty) ''SELECT * FROM users;'' =
     Inr \<lparr>description = [''name'', ''email''], rows = [[''Bob'']], fetch_error = False\<rparr> \<and>
   (\<exists>row\<in>set [[''Bob'']]. length row < length [''name'', ''email'']) \<and>
   fst (main Map.empty \<lparr>accepts = \<lambda>_. True, run_query = \<lambda>_ _. Inr \<lparr>description = [''name'', ''email''],
      rows = [[''Bob'']], fetch_error = False\<rparr>\<rparr> (\<lambda>_. ''t'')
      \<lparr>loggers = Map.empty, stderr = [], conn_open = False, cursor_open = False\<rparr>) = Inl IndexError"
  using main_short_row_index_error [of "\<lparr>accepts = \<lambda>_. True, run_query = \<lambda>_ _. Inr \<lparr>description = [''name'', ''email''],
      rows = [[''Bob'']], fetch_error = False\<rparr>\<rparr>" "Map.empty"
      "\<lparr>description = [''name'', ''email''], rows = [[''Bob'']], fetch_error = False\<rparr>" "\<lambda>_. ''t''"
      "\<lparr>loggers = Map.empty, stderr = [], conn_open = False, cursor_open = False\<rparr>"]
  by simp

text \<open>C25. Round trip of the per-row message: when the column names contain neither
  \<open>;\<close> nor \<open>=\<close> and the values no \<open>;\<close>, the message \<open>main\<close> builds for a row is read
  back, token by token, as exactly the row's \<open>(column, value)\<close> pairs; this is the
  message format the redactor relies on.\<close>

theorem row_message_roundtrip:
  assumes "field_names \<noteq> []" and "length field_names \<le> length row"
    and "list_all (\<lambda>f. CHR '';'' \<notin> set f \<and> CHR ''='' \<notin> set f) field_names"
    and "list_all (\<lambda>v. CHR '';'' \<notin> set v) row"
    and "row_message field_names row = Inr m"
  shows "parse_row_message m = zip field_names row"
proof -
  have nz: "zip field_names row \<noteq> []"
    using assms(1,2) by (cases field_names; cases row) auto
  have la: "list_all (\<lambda>(f, v). CHR '';'' \<notin> set f \<and> CHR ''='' \<notin> set f \<and> CHR '';'' \<notin> set v)
      (zip field_names row)"
    using assms(3,4) by (auto simp: list_all_iff dest: set_zip_leftD set_zip_rightD)
  have "m = py_join ''; '' (map (\<lambda>(f, v). f @ ''='' @ v) (zip field_names row))"
    using assms(2,5) by (simp add: row_message_zip)
  then show ?thesis using parse_py_join_pairs[OF nz la] by simp
qed

theorem row_message_roundtrip_witness:
  "row_message [''name'', ''email''] [''Bob'', ''b=x@y.io''] = Inr ''name=Bob; email=b=x@y.io'' \<and>
   parse_row_message ''name=Bob; email=b=x@y.io'' = [(''name'', ''Bob''), (''email'', ''b=x@y.io'')]"
proof -
  have r: "row_message [''name'', ''email''] [''Bob'', ''b=x@y.io''] = Inr ''name=Bob; email=b=x@y.io''"
    by (simp add: row_message_def upt_conv_Cons del: upt_Suc)
  show ?thesis using row_message_roundtrip[OF _ _ _ _ r] r by simp
qed

text \<open>C26. Safety of the process: whatever the environment, the database and the run's
  outcome (errors included), \<open>main\<close> only appends to standard error, every line it
  appends is the output of \<open>RedactingFormatter(PII_FIELDS)\<close>, and it keeps every handler
  of \<open>"user_data"\<close> redacting, provided they were before (as on a fresh process).\<close>

theorem main_writes_only_redacted_lines:
  assumes "redacting_registry (loggers w)"
  shows "(\<exists>ls. stderr (snd (main env db clock w)) = stderr w @ ls \<and> list_all redacted_line ls) \<and>
         redacting_registry (loggers (snd (main env db clock w)))"
  using assms by (rule main_appends_redacted)

theorem main_writes_only_redacted_lines_witness:
  "redacting_registry Map.empty \<and>
   (\<exists>ls. stderr (snd (main Map.empty \<lparr>accepts = \<lambda>_. True, run_query = \<lambda>_ _. Inr \<lparr>description = [''password''],
        rows = [[''x'']], fetch_error = False\<rparr>\<rparr> (\<lambda>_. ''t'')
        \<lparr>loggers = Map.empty, stderr = [], conn_open = False, cursor_open = False\<rparr>)) = [] @ ls \<and>
      list_all redacted_line ls)"
proof -
  have r: "redacting_registry (loggers \<lparr>loggers = Map.empty, stderr = [], conn_open = False, cursor_open = False\<rparr>)"
    by (simp add: redacting_registry_def)
  show ?thesis
    using main_writes_only_redacted_lines[OF r, of Map.empty "\<lparr>accepts = \<lambda>_. True, run_query = \<lambda>_ _. Inr
      \<lparr>description = [''password''], rows = [[''x'']], fetch_error = False\<rparr>\<rparr>" "\<lambda>_. ''t''"] r
    by simp
qed

text \<open>C27. The script's outcome: run as a program on a fresh process, the module exits with
  status 0 exactly when the connection is accepted, the query succeeds, every row has a
  value for each column and fetching does not fail; on every run, whatever its status,
  everything on standard error before the interpreter's own traceback is output of the
  redacting formatter.\<close>

theorem script_main_exit_status:
  "(fst (script_main env db clock) = 0 \<longleftrightarrow>
      accepts db (get_db env) \<and>
      (\<exists>res. run_query db (get_db env) ''SELECT * FROM users;'' = Inr res \<and> \<not> fetch_error res \<and>
             (\<forall>row\<in>set (rows res). length (description res) \<le> length row))) \<and>
   list_all redacted_line (stderr (snd (script_main env db clock)))"
proof -
  have fresh: "redacting_registry (loggers fresh_world)"
    by (simp add: fresh_world_def redacting_registry_def)
  have out: "list_all redacted_line (stderr (snd (main env db clock fresh_world)))"
    using main_appends_redacted[OF fresh, of env db clock] by (auto simp: fresh_world_def)
  have snd_eq: "snd (script_main env db clock) = snd (main env db clock fresh_world)"
    by (simp add: script_main_def split: prod.splits sum.splits)
  have "fst (script_main env db clock) = 0 \<longleftrightarrow> \<not> isl (fst (main env db clock fresh_world))"
    by (simp add: script_main_def split: prod.splits sum.splits)
  also have "\<dots> \<longleftrightarrow> accepts db (get_db env) \<and>
      (\<exists>res. run_query db (get_db env) ''SELECT * FROM users;'' = Inr res \<and> \<not> fetch_error res \<and>
             (\<forall>row\<in>set (rows res). length (description res) \<le> length row))"
  proof (cases "accepts db (get_db env)")
    case True
    show ?thesis
    proof (cases "run_query db (get_db env) ''SELECT * FROM users;''")
      case (Inr res)
      let ?w3 = "fresh_world\<lparr>conn_open := True, cursor_open := True, loggers := get_logger (loggers fresh_world)\<rparr>"
      obtain err w4 where pr: "process_rows (description res) clock 0 (rows res) ?w3 = (err, w4)"
        by (cases "process_rows (description res) clock 0 (rows res) ?w3")
      have "err = None \<longleftrightarrow> (\<forall>row\<in>set (rows res). length (description res) \<le> length row)"
        using process_rows_error[of "description res" clock 0 "rows res" ?w3] pr by simp
      with True Inr pr show ?thesis
        by (auto simp: main_def Let_def split: option.splits)
    qed (use True in \<open>simp add: main_def\<close>)
  qed (simp add: main_def)
  finally show ?thesis using out snd_eq by simp
qed

theorem script_main_exit_status_witness:
  "fst (script_main Map.empty \<lparr>accepts = \<lambda>_. True, run_query = \<lambda>_ _. Inr \<lparr>description = [''password''],
      rows = [[''x'']], fetch_error = False\<rparr>\<rparr> (\<lambda>_. ''t'')) = 0 \<and>
   list_all redacted_line (stderr (snd (script_main Map.empty \<lparr>accepts = \<lambda>_. True,
      run_query = \<lambda>_ _. Inr \<lparr>description = [''password''], rows = [[''x'']], fetch_error = False\<rparr>\<rparr>
      (\<lambda>_. ''t''))))"
  using script_main_exit_status[of Map.empty "\<lparr>accepts = \<lambda>_. True, run_query = \<lambda>_ _. Inr
      \<lparr>description = [''password''], rows = [[''x'']], fetch_error = False\<rparr>\<rparr>" "\<lambda>_. ''t''"]
  by simp

end
