(* ===== verification/Regex.thy ===== *)
theory Regex
  imports Prelude
begin

text \<open>
  The fragment of Python's \<open>re\<close> module that \<open>filter_datum\<close> relies on, as an
  executable model: \<open>re_compile\<close> parses a pattern string into a \<open>regex\<close> or raises one
  of \<open>re.error\<close>'s errors, \<open>matches\<close> lists the matches of a regex at the start of a
  string in the order of the backtracking engine (alternatives left to right,
  repeats greedy), and \<open>search_from\<close> finds the leftmost match, where a flag \<open>must_advance\<close>
  rejects an empty match at the first position, as CPython's \<open>sre\<close> does after an empty
  match. The fragment: literal characters, escapes \<open>\\c\<close> of a character that is not an ASCII
  letter or digit, the wildcard \<open>.\<close> (every character but a newline), groups \<open>( )\<close>
  (numbered by their opening parenthesis), alternation \<open>|\<close>, sets \<open>[...]\<close> and
  \<open>[^...]\<close> without ranges, and the greedy repeats \<open>*\<close>, \<open>+\<close>, \<open>?\<close> of a
  single-character atom. A backslash at the end of the pattern is \<open>re.error\<close>'s bad escape.
  Every other construct (\<open>^ $ {\<close>, escapes of letters and digits, a range in a set, a
  repeat of a group, the lazy repeats \<open>*? +? ??\<close>, the extensions \<open>(?...)\<close>) is reported
  as \<open>Unsupported\<close>:
  outside the modelled fragment, not an error of Python's. The parser follows
  \<open>sre_parse\<close> of Python 3.7 to 3.10: there \<open>+\<close> after a repeat is a multiple repeat,
  which Python 3.11 reads as a possessive repeat.
\<close>

datatype re_error =
    MissingParen      \<comment> \<open>missing ), unterminated subpattern\<close>
  | UnbalancedParen   \<comment> \<open>unbalanced parenthesis\<close>
  | UnterminatedSet   \<comment> \<open>unterminated character set\<close>
  | NothingToRepeat   \<comment> \<open>nothing to repeat\<close>
  | MultipleRepeat    \<comment> \<open>multiple repeat\<close>
  | BadEscape         \<comment> \<open>bad escape (end of pattern)\<close>
  | Unsupported       \<comment> \<open>outside the modelled fragment\<close>

datatype regex =
    Empty
  | Lit char
  | AnyOf bool "char list"
  | Cat regex regex
  | Alt regex regex
  | Group nat regex
  | Star regex
  | Plus regex
  | Opt regex

type_synonym groups = "(nat \<times> string) list"

fun seq_of :: "regex list \<Rightarrow> regex" where
  "seq_of [] = Empty"
| "seq_of [r] = r"
| "seq_of (r # rs) = Cat r (seq_of rs)"

fun alt_of :: "regex list \<Rightarrow> regex" where
  "alt_of [] = Empty"
| "alt_of [r] = r"
| "alt_of (r # rs) = Alt r (alt_of rs)"

fun single_char :: "regex \<Rightarrow> bool" where
  "single_char (Lit c) = True"
| "single_char (AnyOf neg cs) = True"
| "single_char r = False"

fun is_repeat :: "regex \<Rightarrow> bool" where
  "is_repeat (Star r) = True"
| "is_repeat (Plus r) = True"
| "is_repeat (Opt r) = True"
| "is_repeat r = False"

text \<open>The repeat an operator \<open>*\<close>, \<open>+\<close> or \<open>?\<close> builds (\<open>MAX_REPEAT\<close> with bounds
  \<open>(0, MAXREPEAT)\<close>, \<open>(1, MAXREPEAT)\<close>, \<open>(0, 1)\<close>), and the atom of the wildcard \<open>.\<close>,
  every character but a newline.\<close>

definition repeat_of :: "char \<Rightarrow> regex \<Rightarrow> regex" where
  "repeat_of c r = (if c = CHR ''*'' then Star r else if c = CHR ''+'' then Plus r else Opt r)"

definition any_char :: regex where
  "any_char = AnyOf True [CHR 0x0A]"

text \<open>After a backslash, an ASCII letter or digit starts a class, an anchor, a special
  character or a group reference (outside the fragment); every other character stands
  for itself.\<close>

definition escape_literal :: "char \<Rightarrow> bool" where
  "escape_literal c \<longleftrightarrow> c \<notin> set (''0123456789'' @ ''abcdefghijklmnopqrstuvwxyz'' @ ''ABCDEFGHIJKLMNOPQRSTUVWXYZ'')"

text \<open>
  The parser reads the pattern one character at a time. Its stack holds one frame per
  open group (the innermost first, the whole pattern last): the branches already closed
  by \<open>|\<close>, the pieces of the current branch and the group's number. \<open>InSet neg ms first\<close>
  is the state inside a set, where \<open>first\<close> says that a \<open>]\<close> here is a member.
\<close>

type_synonym frame = "regex list \<times> regex list \<times> nat"

datatype pmode = Normal | InSet bool "char list" bool

definition special :: "char \<Rightarrow> bool" where
  "special c \<longleftrightarrow> c \<in> set ''.^$+?{''"

definition add_piece :: "regex \<Rightarrow> frame list \<Rightarrow> frame list" where
  "add_piece r fs = (case fs of [] \<Rightarrow> [] | (bs, ps, i) # rest \<Rightarrow> (bs, ps @ [r], i) # rest)"

text \<open>A repeat operator applies to the last piece of the current branch: an error when
  there is none or it is a repeat already (a \<open>?\<close> there makes the repeat lazy, outside
  the fragment), and outside the fragment unless the piece is a single character.\<close>

definition add_repeat :: "char \<Rightarrow> frame list \<Rightarrow> re_error + frame list" where
  "add_repeat c fs =
     (case fs of
        (bs, ps, i) # rest \<Rightarrow>
          (if ps = [] then Inl NothingToRepeat
           else if is_repeat (last ps) then (if c = CHR ''?'' then Inl Unsupported else Inl MultipleRepeat)
           else if single_char (last ps) then Inr ((bs, butlast ps @ [repeat_of c (last ps)], i) # rest)
           else Inl Unsupported)
      | [] \<Rightarrow> Inl UnbalancedParen)"

fun parse_re :: "pmode \<Rightarrow> frame list \<Rightarrow> nat \<Rightarrow> string \<Rightarrow> re_error + regex" where
  "parse_re Normal fs n [] =
     (case fs of [(bs, ps, i)] \<Rightarrow> Inr (alt_of (bs @ [seq_of ps])) | _ \<Rightarrow> Inl MissingParen)"
| "parse_re Normal fs n (c # cs) =
     (if c = CHR ''('' then
        (if prefix ''?'' cs then Inl Unsupported else parse_re Normal (([], [], Suc n) # fs) (Suc n) cs)
      else if c = CHR '')'' then
        (case fs of
           (bs, ps, i) # (bs', ps', j) # rest \<Rightarrow>
             parse_re Normal ((bs', ps' @ [Group i (alt_of (bs @ [seq_of ps]))], j) # rest) n cs
         | _ \<Rightarrow> Inl UnbalancedParen)
      else if c = CHR ''|'' then
        (case fs of
           (bs, ps, i) # rest \<Rightarrow> parse_re Normal ((bs @ [seq_of ps], [], i) # rest) n cs
         | [] \<Rightarrow> Inl UnbalancedParen)
      else if c \<in> set ''*+?'' then
        (case add_repeat c fs of Inl e \<Rightarrow> Inl e | Inr fs' \<Rightarrow> parse_re Normal fs' n cs)
      else if c = CHR ''['' then parse_re (InSet False [] True) fs n cs
      else if c = CHR ''.'' then parse_re Normal (add_piece any_char fs) n cs
      else if c = CHR 0x5C then
        (case cs of
           [] \<Rightarrow> Inl BadEscape
         | d # ds \<Rightarrow> if escape_literal d then parse_re Normal (add_piece (Lit d) fs) n ds else Inl Unsupported)
      else if special c then Inl Unsupported
      else parse_re Normal (add_piece (Lit c) fs) n cs)"
| "parse_re (InSet neg ms first) fs n [] = Inl UnterminatedSet"
| "parse_re (InSet neg ms first) fs n (c # cs) =
     (if c = CHR ''^'' \<and> first \<and> \<not> neg then parse_re (InSet True ms True) fs n cs
      else if c = CHR '']'' \<and> \<not> first then parse_re Normal (add_piece (AnyOf neg ms) fs) n cs
      else if c = CHR 0x5C then
        (case cs of
           [] \<Rightarrow> Inl BadEscape
         | d # ds \<Rightarrow> if escape_literal d then parse_re (InSet neg (ms @ [d]) False) fs n ds else Inl Unsupported)
      else if c = CHR ''-'' then Inl Unsupported
      else parse_re (InSet neg (ms @ [c]) False) fs n cs)"

definition re_compile :: "string \<Rightarrow> re_error + regex" where
  "re_compile p = parse_re Normal [([], [], 0)] 0 p"

text \<open>
  The matches of a regex at the start of a string, in the order the backtracking engine
  tries them: each is the length matched and the groups captured.
\<close>

fun matches :: "regex \<Rightarrow> string \<Rightarrow> (nat \<times> groups) list" where
  "matches Empty s = [(0, [])]"
| "matches (Lit c) s = (case s of d # _ \<Rightarrow> if d = c then [(1, [])] else [] | [] \<Rightarrow> [])"
| "matches (AnyOf neg cs) s =
     (case s of d # _ \<Rightarrow> if (d \<in> set cs) \<noteq> neg then [(1, [])] else [] | [] \<Rightarrow> [])"
| "matches (Cat r1 r2) s =
     concat (map (\<lambda>(n, g). map (\<lambda>(m, h). (n + m, g @ h)) (matches r2 (drop n s))) (matches r1 s))"
| "matches (Alt r1 r2) s = matches r1 s @ matches r2 s"
| "matches (Group i r) s = map (\<lambda>(n, g). (n, g @ [(i, take n s)])) (matches r s)"
| "matches (Star r) s =
     (let k = length (takeWhile (\<lambda>c. matches r [c] \<noteq> []) s)
      in map (\<lambda>j. (j, [])) (rev [0..<Suc k]))"
| "matches (Plus r) s =
     (let k = length (takeWhile (\<lambda>c. matches r [c] \<noteq> []) s)
      in map (\<lambda>j. (j, [])) (rev [1..<Suc k]))"
| "matches (Opt r) s =
     (let k = min 1 (length (takeWhile (\<lambda>c. matches r [c] \<noteq> []) s))
      in map (\<lambda>j. (j, [])) (rev [0..<Suc k]))"

definition first_at :: "regex \<Rightarrow> bool \<Rightarrow> string \<Rightarrow> (nat \<times> groups) option" where
  "first_at r must_advance s = find (\<lambda>(n, g). \<not> must_advance \<or> 0 < n) (matches r s)"

fun search_from :: "regex \<Rightarrow> bool \<Rightarrow> string \<Rightarrow> (nat \<times> nat \<times> groups) option" where
  "search_from r ma [] = map_option (\<lambda>(n, g). (0, n, g)) (first_at r ma [])"
| "search_from r ma (c # cs) =
     (case first_at r ma (c # cs) of
        Some (n, g) \<Rightarrow> Some (0, n, g)
      | None \<Rightarrow> map_option (\<lambda>(b, n, g). (Suc b, n, g)) (search_from r False cs))"

text \<open>
  Well-formed regexes are the ones the parser builds: \<open>*\<close> only on a single-character
  atom. On them \<open>matches\<close> agrees with the declarative semantics \<open>re_lang\<close>, the words
  a regex denotes.
\<close>

fun wf_regex :: "regex \<Rightarrow> bool" where
  "wf_regex (Cat r1 r2) \<longleftrightarrow> wf_regex r1 \<and> wf_regex r2"
| "wf_regex (Alt r1 r2) \<longleftrightarrow> wf_regex r1 \<and> wf_regex r2"
| "wf_regex (Group i r) \<longleftrightarrow> wf_regex r"
| "wf_regex (Star r) \<longleftrightarrow> single_char r"
| "wf_regex (Plus r) \<longleftrightarrow> single_char r"
| "wf_regex (Opt r) \<longleftrightarrow> single_char r"
| "wf_regex r \<longleftrightarrow> True"

definition frames_wf :: "frame list \<Rightarrow> bool" where
  "frames_wf fs \<longleftrightarrow> list_all (\<lambda>(bs, ps, i). list_all wf_regex bs \<and> list_all wf_regex ps) fs"

inductive re_lang :: "regex \<Rightarrow> string \<Rightarrow> bool" where
  lang_Empty: "re_lang Empty []"
| lang_Lit: "re_lang (Lit c) [c]"
| lang_AnyOf: "(c \<in> set cs) \<noteq> neg \<Longrightarrow> re_lang (AnyOf neg cs) [c]"
| lang_Cat: "re_lang r1 u \<Longrightarrow> re_lang r2 v \<Longrightarrow> re_lang (Cat r1 r2) (u @ v)"
| lang_Alt1: "re_lang r1 w \<Longrightarrow> re_lang (Alt r1 r2) w"
| lang_Alt2: "re_lang r2 w \<Longrightarrow> re_lang (Alt r1 r2) w"
| lang_Group: "re_lang r w \<Longrightarrow> re_lang (Group i r) w"
| lang_Star_Nil: "re_lang (Star r) []"
| lang_Star_Cons: "re_lang r u \<Longrightarrow> re_lang (Star r) v \<Longrightarrow> re_lang (Star r) (u @ v)"
| lang_Plus: "re_lang r u \<Longrightarrow> re_lang (Star r) v \<Longrightarrow> re_lang (Plus r) (u @ v)"
| lang_Opt_Nil: "re_lang (Opt r) []"
| lang_Opt: "re_lang r w \<Longrightarrow> re_lang (Opt r) w"

section \<open>Lemmas\<close>

lemma lt_takeWhile_le: "x < length (takeWhile P s) \<Longrightarrow> x \<le> length s"
  using length_takeWhile_le[of P s] by simp

text \<open>A match never extends past the end of the string.\<close>

lemma matches_length: "(n, g) \<in> set (matches r s) \<Longrightarrow> n \<le> length s"
proof (induction r arbitrary: s n g)
  case (Cat r1 r2)
  then obtain n1 g1 n2 g2 where "(n1, g1) \<in> set (matches r1 s)"
    and "(n2, g2) \<in> set (matches r2 (drop n1 s))" and "n = n1 + n2"
    by auto
  with Cat.IH show ?case by fastforce
qed (auto simp: Let_def split: list.splits if_splits
          intro: lt_takeWhile_le order_trans[OF _ length_takeWhile_le] min.coboundedI2)

lemma first_at_SomeD:
  "first_at r ma s = Some (n, g) \<Longrightarrow> n \<le> length s \<and> (ma \<longrightarrow> 0 < n)"
  unfolding first_at_def by (auto dest!: find_Some_iff[THEN iffD1] nth_mem matches_length)

lemma search_from_SomeD:
  "search_from r ma s = Some (b, n, g) \<Longrightarrow> b + n \<le> length s \<and> (ma \<and> b = 0 \<longrightarrow> 0 < n)"
proof (induction r ma s arbitrary: b n g rule: search_from.induct)
  case (1 r ma)
  then show ?case by (auto dest: first_at_SomeD)
next
  case (2 r ma c cs)
  then show ?case by (auto dest: first_at_SomeD split: option.splits)
qed

subsection \<open>The declarative semantics\<close>

inductive_cases re_lang_EmptyE [elim!]: "re_lang Empty w"
inductive_cases re_lang_LitE [elim!]: "re_lang (Lit c) w"
inductive_cases re_lang_AnyOfE [elim!]: "re_lang (AnyOf neg cs) w"
inductive_cases re_lang_CatE [elim!]: "re_lang (Cat r1 r2) w"
inductive_cases re_lang_AltE [elim!]: "re_lang (Alt r1 r2) w"
inductive_cases re_lang_GroupE [elim!]: "re_lang (Group i r) w"

lemma re_lang_single_char:
  "single_char r \<Longrightarrow> re_lang r w \<longleftrightarrow> (\<exists>c. w = [c] \<and> matches r [c] \<noteq> [])"
  by (cases r) (auto intro: re_lang.intros)

lemma re_lang_Star_chars:
  assumes "re_lang (Star r) w" and "single_char r"
  shows "list_all (\<lambda>c. matches r [c] \<noteq> []) w"
  using assms
proof (induction "Star r" w rule: re_lang.induct)
  case (lang_Star_Cons u v)
  then show ?case by (auto simp: re_lang_single_char)
qed simp

lemma re_lang_Star_of_chars:
  assumes "single_char r" and "list_all (\<lambda>c. matches r [c] \<noteq> []) w"
  shows "re_lang (Star r) w"
  using assms(2)
proof (induction w)
  case (Cons c w)
  have "re_lang r [c]" using Cons.prems assms(1) by (simp add: re_lang_single_char)
  with Cons show ?case using lang_Star_Cons[of r "[c]" w] by simp
qed (rule lang_Star_Nil)

lemma re_lang_Star_iff:
  "single_char r \<Longrightarrow> re_lang (Star r) w \<longleftrightarrow> list_all (\<lambda>c. matches r [c] \<noteq> []) w"
  using re_lang_Star_chars re_lang_Star_of_chars by blast

inductive_cases re_lang_PlusE [elim!]: "re_lang (Plus r) w"
inductive_cases re_lang_OptE [elim!]: "re_lang (Opt r) w"

lemma re_lang_Plus_iff:
  assumes "single_char r"
  shows "re_lang (Plus r) w \<longleftrightarrow> w \<noteq> [] \<and> list_all (\<lambda>c. matches r [c] \<noteq> []) w"
proof
  assume "re_lang (Plus r) w"
  then show "w \<noteq> [] \<and> list_all (\<lambda>c. matches r [c] \<noteq> []) w"
    using assms by (auto simp: re_lang_single_char re_lang_Star_iff)
next
  assume "w \<noteq> [] \<and> list_all (\<lambda>c. matches r [c] \<noteq> []) w"
  then obtain c v where "w = c # v" "matches r [c] \<noteq> []" "list_all (\<lambda>c. matches r [c] \<noteq> []) v"
    by (cases w) auto
  then show "re_lang (Plus r) w"
    using assms lang_Plus[of r "[c]" v] by (simp add: re_lang_single_char re_lang_Star_iff)
qed

lemma re_lang_Opt_iff:
  assumes "single_char r"
  shows "re_lang (Opt r) w \<longleftrightarrow> length w \<le> 1 \<and> list_all (\<lambda>c. matches r [c] \<noteq> []) w"
proof
  assume "re_lang (Opt r) w"
  then show "length w \<le> 1 \<and> list_all (\<lambda>c. matches r [c] \<noteq> []) w"
    using assms by (auto simp: re_lang_single_char)
next
  assume "length w \<le> 1 \<and> list_all (\<lambda>c. matches r [c] \<noteq> []) w"
  then have "w = [] \<or> (\<exists>c. w = [c] \<and> matches r [c] \<noteq> [])"
    by (cases w) auto
  then show "re_lang (Opt r) w"
    using assms by (auto simp: re_lang_single_char intro: lang_Opt_Nil lang_Opt)
qed

lemma take_takeWhile_all:
  "n \<le> length (takeWhile P s) \<Longrightarrow> list_all P (take n s)"
proof -
  assume "n \<le> length (takeWhile P s)"
  then have "take n s = take n (takeWhile P s)"
    by (metis takeWhile_eq_take take_take min.absorb1)
  then show ?thesis
    by (simp add: list_all_iff) (meson in_set_takeD set_takeWhileD)
qed

lemma prefix_all_takeWhile:
  "prefix w s \<Longrightarrow> list_all P w \<Longrightarrow> length w \<le> length (takeWhile P s)"
proof (induction w arbitrary: s)
  case (Cons c w)
  then show ?case by (cases s) auto
qed simp

text \<open>Soundness: every match the engine can produce is a word of the regex.\<close>

lemma matches_sound:
  "(n, g) \<in> set (matches r s) \<Longrightarrow> wf_regex r \<Longrightarrow> re_lang r (take n s)"
proof (induction r arbitrary: s n g)
  case (Cat r1 r2)
  then obtain n1 g1 n2 g2 where m1: "(n1, g1) \<in> set (matches r1 s)"
    and m2: "(n2, g2) \<in> set (matches r2 (drop n1 s))" and n: "n = n1 + n2"
    by auto
  have "take n s = take n1 s @ take n2 (drop n1 s)" by (simp add: n take_add)
  with Cat m1 m2 show ?case by (auto intro: lang_Cat)
next
  case (Alt r1 r2)
  then show ?case by (auto intro: lang_Alt1 lang_Alt2)
next
  case (Group i r)
  then show ?case by (auto intro: lang_Group)
next
  case (Star r)
  then have "n \<le> length (takeWhile (\<lambda>c. matches r [c] \<noteq> []) s)" "single_char r"
    by (auto simp: Let_def)
  then show ?case by (simp add: re_lang_Star_of_chars take_takeWhile_all)
next
  case (Plus r)
  then have n: "0 < n" "n \<le> length (takeWhile (\<lambda>c. matches r [c] \<noteq> []) s)" "single_char r"
    by (auto simp: Let_def)
  then have "n \<le> length s" using length_takeWhile_le order_trans by blast
  with n have "s \<noteq> []" by auto
  with n show ?case by (simp add: re_lang_Plus_iff take_takeWhile_all)
next
  case (Opt r)
  then have "n \<le> 1" "n \<le> length (takeWhile (\<lambda>c. matches r [c] \<noteq> []) s)" "single_char r"
    by (auto simp: Let_def)
  then show ?case by (simp add: re_lang_Opt_iff take_takeWhile_all)
qed (auto intro: re_lang.intros split: list.splits if_splits)

text \<open>Completeness: every word of the regex that starts the string is the length of some
  match the engine produces.\<close>

lemma matches_complete:
  "re_lang r w \<Longrightarrow> wf_regex r \<Longrightarrow> prefix w s \<Longrightarrow> \<exists>g. (length w, g) \<in> set (matches r s)"
proof (induction r arbitrary: w s)
  case (Cat r1 r2)
  then obtain u v where w: "w = u @ v" and u: "re_lang r1 u" and v: "re_lang r2 v" by auto
  have "prefix u s" "prefix v (drop (length u) s)"
    using Cat.prems(3) by (auto simp: w prefix_append_iff)
  with Cat.IH Cat.prems(2) u v obtain g1 g2 where "(length u, g1) \<in> set (matches r1 s)"
    and "(length v, g2) \<in> set (matches r2 (drop (length u) s))"
    by fastforce
  then have "(length u + length v, g1 @ g2) \<in> set (matches (Cat r1 r2) s)"
    by (auto intro!: bexI[where x="(length u, g1)"] image_eqI[where x="(length v, g2)"])
  then show ?case by (intro exI[of _ "g1 @ g2"]) (simp only: w length_append)
next
  case (Alt r1 r2)
  then show ?case by fastforce
next
  case (Group i r)
  then show ?case by fastforce
next
  case (Star r)
  then have "list_all (\<lambda>c. matches r [c] \<noteq> []) w" by (simp add: re_lang_Star_iff)
  with Star.prems(3) have "length w \<le> length (takeWhile (\<lambda>c. matches r [c] \<noteq> []) s)"
    by (rule prefix_all_takeWhile)
  then have "(length w, []) \<in> set (matches (Star r) s)"
    by (auto simp: Let_def image_iff)
  then show ?case by blast
next
  case (Plus r)
  then have "w \<noteq> []" "list_all (\<lambda>c. matches r [c] \<noteq> []) w" by (simp_all add: re_lang_Plus_iff)
  with Plus.prems(3) have "Suc 0 \<le> length w" "length w \<le> length (takeWhile (\<lambda>c. matches r [c] \<noteq> []) s)"
    by (simp_all add: prefix_all_takeWhile Suc_le_eq)
  then have "(length w, []) \<in> set (matches (Plus r) s)"
    by (auto simp: Let_def image_iff)
  then show ?case by blast
next
  case (Opt r)
  then have "length w \<le> 1" "list_all (\<lambda>c. matches r [c] \<noteq> []) w" by (simp_all add: re_lang_Opt_iff)
  with Opt.prems(3) have "length w \<le> min 1 (length (takeWhile (\<lambda>c. matches r [c] \<noteq> []) s))"
    by (simp add: prefix_all_takeWhile)
  then have "(length w, []) \<in> set (matches (Opt r) s)"
    by (auto simp: Let_def image_iff simp del: upt_Suc)
  then show ?case by blast
qed (auto split: list.splits simp: prefix_def)

subsection \<open>The parser builds well-formed regexes\<close>

lemma wf_alt_of: "list_all wf_regex rs \<Longrightarrow> wf_regex (alt_of rs)"
  by (induction rs rule: alt_of.induct) auto

lemma wf_seq_of: "list_all wf_regex rs \<Longrightarrow> wf_regex (seq_of rs)"
  by (induction rs rule: seq_of.induct) auto

lemma frames_wf_add_piece: "frames_wf fs \<Longrightarrow> wf_regex r \<Longrightarrow> frames_wf (add_piece r fs)"
  by (auto simp: frames_wf_def add_piece_def split: list.splits)

lemma frames_wf_simps [simp]:
  "frames_wf [] = True"
  "frames_wf ((bs, ps, i) # fs) \<longleftrightarrow> list_all wf_regex bs \<and> list_all wf_regex ps \<and> frames_wf fs"
  by (simp_all add: frames_wf_def)

lemma list_all_butlast: "list_all P xs \<Longrightarrow> list_all P (butlast xs)"
  by (auto simp: list_all_iff dest: in_set_butlastD)

lemma frames_wf_add_repeat:
  "add_repeat c fs = Inr fs' \<Longrightarrow> frames_wf fs \<Longrightarrow> frames_wf fs'"
  by (auto simp: add_repeat_def repeat_of_def list_all_butlast split: list.splits if_splits)

lemma parse_re_wf:
  "parse_re m fs n p = Inr r \<Longrightarrow> frames_wf fs \<Longrightarrow> wf_regex r"
proof (induction m fs n p rule: parse_re.induct)
  case (1 fs n)
  then show ?case
    by (auto simp: wf_alt_of wf_seq_of split: list.splits)
next
  case (2 fs n c cs)
  consider "c = CHR ''(''" | "c \<noteq> CHR ''(''" "c = CHR '')''"
    | "c \<noteq> CHR ''(''" "c \<noteq> CHR '')''" "c = CHR ''|''"
    | "c \<noteq> CHR ''(''" "c \<noteq> CHR '')''" "c \<noteq> CHR ''|''" "c \<in> set ''*+?''"
    | "c \<notin> set ''()|*+?''" "c = CHR ''[''"
    | "c \<notin> set ''()|*+?[''" "c = CHR ''.''"
    | "c \<notin> set ''()|*+?[.''" "c = CHR 0x5C"
    | "c \<notin> set ''()|*+?[.''" "c \<noteq> CHR 0x5C"
    by auto
  then show ?case
  proof cases
    case 1
    with "2.prems" "2.IH"(1) show ?thesis by (simp split: if_splits)
  next
    case 2
    with "2.prems" "2.IH"(2) show ?thesis
      by (auto simp: wf_alt_of wf_seq_of split: list.splits)
  next
    case 3
    with "2.prems" "2.IH"(3) show ?thesis
      by (auto simp: wf_seq_of split: list.splits)
  next
    case 4
    with "2.prems" "2.IH"(4) show ?thesis
      by (auto dest: frames_wf_add_repeat split: sum.splits)
  next
    case 5
    with "2.prems" "2.IH"(5) show ?thesis by simp
  next
    case 6
    with "2.prems" "2.IH"(6) show ?thesis
      by (simp add: frames_wf_add_piece any_char_def)
  next
    case 7
    with "2.prems" "2.IH"(7) show ?thesis
      by (auto simp: frames_wf_add_piece split: list.splits if_splits)
  next
    case 8
    with "2.prems" "2.IH"(8) show ?thesis
      by (auto simp: frames_wf_add_piece split: if_splits)
  qed
next
  case (4 neg ms first fs n c cs)
  then show ?case
    by (auto simp: frames_wf_add_piece split: if_splits list.splits)
qed simp

subsection \<open>The matcher is exact on compiled patterns\<close>

text \<open>On a well-formed regex, \<open>n\<close> is the length of some match at the start of \<open>s\<close>
  exactly when the first \<open>n\<close> characters of \<open>s\<close> are a word of the regex.\<close>

lemma matches_iff_re_lang:
  assumes "wf_regex r"
  shows "(\<exists>g. (n, g) \<in> set (matches r s)) \<longleftrightarrow> n \<le> length s \<and> re_lang r (take n s)"
proof
  assume "\<exists>g. (n, g) \<in> set (matches r s)"
  then show "n \<le> length s \<and> re_lang r (take n s)"
    using assms matches_length matches_sound by blast
next
  assume "n \<le> length s \<and> re_lang r (take n s)"
  then show "\<exists>g. (n, g) \<in> set (matches r s)"
    using matches_complete[OF _ assms, of "take n s" s] by (simp add: take_is_prefix)
qed

text \<open>\<open>re.compile\<close> only builds well-formed regexes.\<close>

lemma re_compile_wf:
  assumes "re_compile p = Inr r"
  shows "wf_regex r"
  using assms parse_re_wf by (simp add: re_compile_def)

end
