(* ===== verification/ReSub.thy ===== *)
theory ReSub
  imports Regex
begin

text \<open>
  \<open>re.sub(pattern, repl, string)\<close> for a compiled regex of the \<open>Regex\<close> fragment and a
  callable \<open>repl\<close>, as CPython's \<open>pattern_subx\<close> runs it (Python 3.7 and later): search
  for the leftmost match from the current position, copy the text before it, append
  \<open>repl\<close> applied to the match (its text and its groups), and continue after the match.
  After an empty match the flag \<open>must_advance\<close> forbids a second empty match at the
  same position, so that \<open>re.sub('x*', '-', 'abxd') == '-a-b--d-'\<close>. The recursion
  terminates: each call either consumes a character or turns \<open>must_advance\<close> on,
  which the measure \<open>2 * length s + (if must_advance then 0 else 1)\<close> records.
\<close>

function re_sub_py :: "regex \<Rightarrow> (string \<Rightarrow> groups \<Rightarrow> string) \<Rightarrow> bool \<Rightarrow> string \<Rightarrow> string" where
  "re_sub_py r repl must_advance s =
     (case search_from r must_advance s of
        None \<Rightarrow> s
      | Some (b, n, g) \<Rightarrow>
          take b s @ repl (take n (drop b s)) g @ re_sub_py r repl (n = 0) (drop (b + n) s))"
  by pat_completeness auto
termination
  by (relation "measure (\<lambda>(_, _, ma, s). 2 * length s + (if ma then 0 else 1))")
    (auto dest!: search_from_SomeD)


declare re_sub_py.simps [simp del]

section \<open>Lemmas\<close>

text \<open>The scan step by step: a match at the current position is replaced and the scan
  continues after it, with \<open>must_advance\<close> set exactly when the match was empty; a
  position with no match is copied and the flag is cleared.\<close>

lemma re_sub_py_hit:
  assumes "first_at r ma s = Some (n, g)"
  shows "re_sub_py r repl ma s = repl (take n s) g @ re_sub_py r repl (n = 0) (drop n s)"
proof (cases s)
  case Nil
  with assms show ?thesis by (subst re_sub_py.simps) simp
next
  case (Cons c cs)
  with assms show ?thesis by (subst re_sub_py.simps) simp
qed

lemma re_sub_py_miss:
  assumes "first_at r ma (c # cs) = None"
  shows "re_sub_py r repl ma (c # cs) = c # re_sub_py r repl False cs"
proof (cases "search_from r False cs")
  case None
  with assms show ?thesis by (simp add: re_sub_py.simps[of r repl ma] re_sub_py.simps[of r repl False])
next
  case (Some x)
  with assms show ?thesis
    by (cases x) (simp add: re_sub_py.simps[of r repl ma] re_sub_py.simps[of r repl False])
qed

lemma re_sub_py_Nil:
  assumes "first_at r ma [] = None"
  shows "re_sub_py r repl ma [] = []"
  using assms by (simp add: re_sub_py.simps)

lemma re_sub_py_Nil_advance [simp]: "re_sub_py r repl True [] = []"
proof -
  have "first_at r True [] = None"
    by (cases "first_at r True []") (auto dest: first_at_SomeD)
  then show ?thesis by (rule re_sub_py_Nil)
qed

end
