(* ===== verification/Pattern.thy ===== *)
theory Pattern
  imports ReSub Redactor
begin

text \<open>
  \<open>filter_datum\<close> as the Python executes it, through the regular-expression engine of
  \<open>Regex\<close> and \<open>ReSub\<close>: \<open>fd_pattern\<close> is the pattern string built on line 29,
  \<open>fd_repl\<close> the callback of line 32 (\<open>m.group(1)\<close> formatted by the f-string, then
  \<open>=\<close> and the redaction), and \<open>filter_datum_re\<close> the whole function, whose result is
  the \<open>re.error\<close> raised while compiling the pattern or the substituted message. The
  lemmas show that on plain field names and separators the pattern compiles to the regex
  \<open>fd_regex\<close>, whose first match at a position is the one \<open>Redactor.match_key\<close>
  describes, so that the general scan is the scanner \<open>Redactor.re_sub\<close> (C16); and that
  an empty separator or a field name starting with \<open>*\<close> make the call raise (C17, C18);
  that on plain inputs the engine's matches are exactly the prefixes \<open>key=value\<close> with a
  listed key and a value free of separator characters (C20) and group 1 is always the key
  (C23), while the field name \<open>a)|(b\<close> makes the callback write \<open>None\<close> and redact a bare
  \<open>a\<close> (C24); and that the field name
  \<open>e.mail\<close>, a wildcard, redacts keys such as \<open>eXmail\<close> but not \<open>e\<newline>mail\<close> (C32).
  \<open>plain_fields\<close>, \<open>plain_separator\<close>, \<open>lit_seq\<close>, \<open>fd_regex\<close> and \<open>fd_hit\<close> are
  vocabulary of the proofs, not code.
\<close>

definition fd_pattern :: "field_name list \<Rightarrow> separator \<Rightarrow> string" where
  "fd_pattern field_names separator =
     ''('' @ py_join ''|'' field_names @ '')=([^'' @ separator @ '']*)''"

definition match_group :: "groups \<Rightarrow> nat \<Rightarrow> string option" where
  "match_group g i = map_of (rev g) i"

definition py_format_opt :: "string option \<Rightarrow> string" where
  "py_format_opt v = (case v of None \<Rightarrow> ''None'' | Some s \<Rightarrow> s)"

definition fd_repl :: "string \<Rightarrow> string \<Rightarrow> groups \<Rightarrow> string" where
  "fd_repl redaction m g = py_format_opt (match_group g 1) @ ''='' @ redaction"

definition filter_datum_re ::
  "field_name list \<Rightarrow> string \<Rightarrow> message \<Rightarrow> separator \<Rightarrow> re_error + message" where
  "filter_datum_re field_names redaction message separator =
     (case re_compile (fd_pattern field_names separator) of
        Inl e \<Rightarrow> Inl e
      | Inr r \<Rightarrow> Inr (re_sub_py r (fd_repl redaction) False message))"

definition plain_char :: "char \<Rightarrow> bool" where
  "plain_char c \<longleftrightarrow> c \<notin> set ''()|*['' \<and> \<not> special c \<and> c \<noteq> CHR 0x5C"

definition plain_fields :: "field_name list \<Rightarrow> bool" where
  "plain_fields field_names \<longleftrightarrow> list_all (\<lambda>c. c = CHR ''|'' \<or> plain_char c) (py_join ''|'' field_names)"

definition plain_separator :: "separator \<Rightarrow> bool" where
  "plain_separator separator \<longleftrightarrow>
     separator \<noteq> [] \<and> CHR ''-'' \<notin> set separator \<and> CHR 0x5C \<notin> set separator \<and>
     CHR '']'' \<notin> set (tl separator)"

definition lit_seq :: "string \<Rightarrow> regex" where
  "lit_seq a = seq_of (map Lit a)"

definition fd_regex :: "string list \<Rightarrow> separator \<Rightarrow> regex" where
  "fd_regex alts separator =
     Cat (Group 1 (alt_of (map lit_seq alts))) (Cat (Lit CHR ''='') (Group 2 (Star (AnyOf True separator))))"

definition fd_hit :: "separator \<Rightarrow> string \<Rightarrow> string \<Rightarrow> nat \<times> groups" where
  "fd_hit separator k s =
     (let v = takeWhile (value_char separator) (drop (Suc (length k)) s)
      in (Suc (length k) + length v, [(1, k), (2, v)]))"

section \<open>Lemmas\<close>

subsection \<open>Parsing the pattern\<close>

lemma parse_plain_Cons:
  "plain_char c \<Longrightarrow> parse_re Normal fs n (c # t) = parse_re Normal (add_piece (Lit c) fs) n t"
  by (simp add: plain_char_def special_def)

lemma parse_plain:
  "list_all plain_char a \<Longrightarrow>
   parse_re Normal ((bs, ps, i) # rest) n (a @ t) = parse_re Normal ((bs, ps @ map Lit a, i) # rest) n t"
  by (induction a arbitrary: ps) (simp_all add: parse_plain_Cons add_piece_def del: parse_re.simps)

lemma parse_alts:
  "alts \<noteq> [] \<Longrightarrow> list_all (list_all plain_char) alts \<Longrightarrow>
   parse_re Normal ((bs, [], i) # rest) n (py_join ''|'' alts @ t) =
   parse_re Normal ((bs @ map lit_seq (butlast alts), map Lit (last alts), i) # rest) n t"
proof (induction alts arbitrary: bs)
  case (Cons a alts)
  show ?case
  proof (cases alts)
    case Nil
    with Cons.prems show ?thesis by (simp add: parse_plain)
  next
    case (Cons a' alts')
    with Cons.prems Cons.IH[of "bs @ [lit_seq a]"] show ?thesis
      by (simp add: parse_plain lit_seq_def)
  qed
qed simp

lemma parse_set:
  "CHR '']'' \<notin> set cs \<Longrightarrow> CHR ''-'' \<notin> set cs \<Longrightarrow> CHR 0x5C \<notin> set cs \<Longrightarrow>
   parse_re (InSet True ms False) fs n (cs @ t) = parse_re (InSet True (ms @ cs) False) fs n t"
proof (induction cs arbitrary: ms)
  case (Cons c cs)
  then have "c \<noteq> CHR '']''" "c \<noteq> CHR ''-''" "c \<noteq> CHR 0x5C" by auto
  then have "parse_re (InSet True ms False) fs n (c # cs @ t) = parse_re (InSet True (ms @ [c]) False) fs n (cs @ t)"
    by simp
  with Cons show ?case by simp
qed simp

text \<open>A pattern that starts with plain field names does not start with \<open>?\<close>, so the
  group around them is an ordinary capturing group, not an extension \<open>(?...)\<close>.\<close>

lemma plain_no_extension:
  "plain_fields field_names \<Longrightarrow> \<not> prefix ''?'' t \<Longrightarrow> \<not> prefix ''?'' (py_join ''|'' field_names @ t)"
  by (cases "py_join ''|'' field_names") (auto simp: plain_fields_def plain_char_def special_def)

lemma alternatives_plain_chars:
  "plain_fields field_names \<Longrightarrow> list_all (list_all plain_char) (alternatives field_names)"
  unfolding plain_fields_def alternatives_def list_all_iff
  by (fastforce dest: split_at_char_subset simp: plain_char_def)

lemma py_join_alternatives: "py_join ''|'' (alternatives field_names) = py_join ''|'' field_names"
  by (simp add: alternatives_def py_join_split_at_char)

lemma map_lit_seq_butlast:
  "alts \<noteq> [] \<Longrightarrow> map lit_seq (butlast alts) @ [seq_of (map Lit (last alts))] = map lit_seq alts"
  by (metis lit_seq_def append_butlast_last_id list.simps(8,9) map_append)

text \<open>On plain fields and a plain separator, \<open>re.compile\<close> builds the regex \<open>fd_regex\<close>:
  group 1 is the alternation of the branches, group 2 the greedy run of value characters.\<close>

lemma re_compile_fd_pattern:
  assumes "plain_fields field_names" and "plain_separator separator"
  shows "re_compile (fd_pattern field_names separator) = Inr (fd_regex (alternatives field_names) separator)"
proof -
  define alts where "alts = alternatives field_names"
  obtain c cs where sep: "separator = c # cs"
    using assms(2) by (cases separator) (auto simp: plain_separator_def)
  have c: "c \<noteq> CHR ''-''" "c \<noteq> CHR 0x5C"
    and cs: "CHR '']'' \<notin> set cs" "CHR ''-'' \<notin> set cs" "CHR 0x5C \<notin> set cs"
    using assms(2) by (auto simp: plain_separator_def sep)
  have alts: "alts \<noteq> []" "list_all (list_all plain_char) alts"
    using assms(1) by (auto simp: alts_def alternatives_plain_chars)
  have "re_compile (fd_pattern field_names separator) =
    parse_re Normal [([], [], 1), ([], [], 0)] 1 (py_join ''|'' alts @ '')=([^'' @ c # cs @ '']*)'')"
    using plain_no_extension [OF assms(1)] by (simp add: re_compile_def fd_pattern_def alts_def py_join_alternatives sep)
  also have "\<dots> = parse_re Normal [(map lit_seq (butlast alts), map Lit (last alts), 1), ([], [], 0)] 1
      ('')=([^'' @ c # cs @ '']*)'')"
    using parse_alts[OF alts, of "[]"] by simp
  also have "\<dots> = Inr (fd_regex alts separator)"
    using c cs by (simp add: parse_set add_piece_def add_repeat_def repeat_of_def special_def map_lit_seq_butlast[OF alts(1)]
        fd_regex_def sep)
  finally show ?thesis by (simp add: alts_def)
qed

subsection \<open>Matching the pattern\<close>

lemma matches_alt_of: "rs \<noteq> [] \<Longrightarrow> matches (alt_of rs) s = concat (map (\<lambda>r. matches r s) rs)"
  by (induction rs rule: alt_of.induct) auto

lemma matches_lit_seq: "matches (lit_seq a) s = (if prefix a s then [(length a, [])] else [])"
proof (induction a arbitrary: s)
  case (Cons c a)
  then show ?case
    by (cases a; cases s) (auto simp: lit_seq_def split: list.splits)
qed (simp add: lit_seq_def)

lemma matches_value_run:
  "matches (Star (AnyOf True separator)) s =
   map (\<lambda>j. (j, [])) (rev [0..<Suc (length (takeWhile (value_char separator) s))])"
proof -
  have "takeWhile (\<lambda>c. matches (AnyOf True separator) [c] \<noteq> []) s = takeWhile (value_char separator) s"
    by (rule takeWhile_cong) (auto simp: value_char_def)
  then show ?thesis by (simp only: matches.simps Let_def)
qed

lemma matches_group_alts:
  "alts \<noteq> [] \<Longrightarrow> matches (Group 1 (alt_of (map lit_seq alts))) s =
   concat (map (\<lambda>a. if prefix a s then [(length a, [(1, a)])] else []) alts)"
  by (auto simp: matches_alt_of matches_lit_seq map_concat comp_def prefix_def intro!: arg_cong[where f=concat])

lemma matches_eq_value:
  "matches (Cat (Lit CHR ''='') (Group 2 (Star (AnyOf True separator)))) s =
   (if prefix ''='' s
    then map (\<lambda>j. (Suc j, [(2, take j (tl s))]))
           (rev [0..<Suc (length (takeWhile (value_char separator) (tl s)))])
    else [])"
  by (cases s) (auto simp: value_char_def[abs_def] Let_def)

lemma matches_fd_regex:
  assumes "alts \<noteq> []"
  shows "matches (fd_regex alts separator) s =
    concat (map (\<lambda>a. if prefix (a @ ''='') s
      then map (\<lambda>j. (Suc (length a) + j, [(1, a), (2, take j (drop (Suc (length a)) s))]))
             (rev [0..<Suc (length (takeWhile (value_char separator) (drop (Suc (length a)) s)))])
      else []) alts)"
proof -
  define G where "G = Group 1 (alt_of (map lit_seq alts))"
  define T where "T = Cat (Lit CHR ''='') (Group 2 (Star (AnyOf True separator)))"
  define F where "F = (\<lambda>(n, g). map (\<lambda>(m, h). (n + m, g @ h)) (matches T (drop n s)))"
  have TT: "\<And>s'. matches T s' = (if prefix ''='' s'
      then map (\<lambda>j. (Suc j, [(2, take j (tl s'))]))
        (rev [0..<Suc (length (takeWhile (value_char separator) (tl s')))])
      else [])"
    by (simp only: T_def matches_eq_value)
  have "matches (fd_regex alts separator) s = concat (map F (matches G s))"
    by (simp only: fd_regex_def G_def[symmetric] T_def[symmetric] F_def matches.simps(4))
  also have "\<dots> = concat (map (\<lambda>a. concat (map F (if prefix a s then [(length a, [(1, a)])] else []))) alts)"
    by (simp only: G_def matches_group_alts[OF assms]) (simp add: concat_map_concat comp_def)
  also have "\<dots> = concat (map (\<lambda>a. if prefix (a @ ''='') s
      then map (\<lambda>j. (Suc (length a) + j, [(1, a), (2, take j (drop (Suc (length a)) s))]))
             (rev [0..<Suc (length (takeWhile (value_char separator) (drop (Suc (length a)) s)))])
      else []) alts)"
    by (auto simp: F_def TT prefix_append_iff drop_Suc tl_drop
        intro!: arg_cong[where f=concat])
  finally show ?thesis .
qed

lemma first_at_fd_regex:
  assumes "alts \<noteq> []"
  shows "first_at (fd_regex alts separator) ma s = map_option (\<lambda>k. fd_hit separator k s) (match_key alts s)"
  unfolding first_at_def matches_fd_regex[OF assms]
  by (induction alts) (auto simp: fd_hit_def Let_def takeWhile_eq_take[symmetric])

subsection \<open>The general scan on the pattern is the redaction scanner\<close>

lemma fd_repl_hit: "fd_repl redaction m (snd (fd_hit separator k s)) = k @ ''='' @ redaction"
  by (simp add: fd_repl_def fd_hit_def match_group_def py_format_opt_def Let_def)

lemma drop_fd_hit:
  "drop (fst (fd_hit separator k s)) s = dropWhile (value_char separator) (drop (Suc (length k)) s)"
  by (simp add: fd_hit_def Let_def dropWhile_eq_drop add.commute)

lemma re_sub_py_fd_regex:
  "alts \<noteq> [] \<Longrightarrow>
   re_sub_py (fd_regex alts separator) (fd_repl redaction) ma s = re_sub alts separator redaction s"
proof (induction alts separator redaction s arbitrary: ma rule: re_sub.induct)
  case (1 alts separator redaction)
  then have "first_at (fd_regex alts separator) ma [] = None"
    by (simp add: first_at_fd_regex match_key_None_iff)
  then show ?case by (simp add: re_sub_py_Nil)
next
  case (2 alts separator redaction c cs)
  show ?case
  proof (cases "match_key alts (c # cs)")
    case None
    with 2 show ?thesis by (simp add: re_sub_py_miss first_at_fd_regex re_sub.simps)
  next
    case (Some k)
    obtain n g where hit: "fd_hit separator k (c # cs) = (n, g)" by (cases "fd_hit separator k (c # cs)")
    have "0 < n" using hit by (auto simp: fd_hit_def Let_def)
    then show ?thesis
      using 2 Some hit fd_repl_hit[of redaction _ separator k "c # cs"] drop_fd_hit[of separator k "c # cs"]
      by (simp add: re_sub_py_hit first_at_fd_regex re_sub.simps)
  qed
qed

text \<open>Under plain fields and a plain separator, \<open>filter_datum\<close> with Python's \<open>re\<close>
  is the scanner \<open>Redactor.filter_datum\<close>.\<close>

lemma filter_datum_re_Inr:
  assumes "plain_fields field_names" and "plain_separator separator"
  shows "filter_datum_re field_names redaction message separator =
         Inr (filter_datum field_names redaction message separator)"
  using assms
  by (simp add: filter_datum_re_def re_compile_fd_pattern re_sub_py_fd_regex filter_datum_def)

subsection \<open>The words of the pattern\<close>

lemma re_lang_Cat_Lit: "re_lang (Cat (Lit c) r) w \<longleftrightarrow> (\<exists>v. w = c # v \<and> re_lang r v)"
  by (auto intro: lang_Cat [of _ "[c]", simplified] lang_Lit)

lemma re_lang_lit_seq: "re_lang (lit_seq a) w \<longleftrightarrow> w = a"
proof (induction a arbitrary: w)
  case Nil
  then show ?case by (auto simp: lit_seq_def intro: lang_Empty)
next
  case (Cons c a)
  note IH = Cons.IH
  show ?case
  proof (cases a)
    case Nil
    then show ?thesis by (auto simp: lit_seq_def intro: lang_Lit)
  next
    case (Cons d a')
    then have "lit_seq (c # a) = Cat (Lit c) (lit_seq a)" by (simp add: lit_seq_def)
    then show ?thesis using IH by (auto simp: re_lang_Cat_Lit)
  qed
qed

lemma re_lang_alt_of: "rs \<noteq> [] \<Longrightarrow> re_lang (alt_of rs) w \<longleftrightarrow> (\<exists>r\<in>set rs. re_lang r w)"
  by (induction rs rule: alt_of.induct) (auto intro: lang_Alt1 lang_Alt2)

lemma re_lang_value_run:
  "re_lang (Star (AnyOf True separator)) v \<longleftrightarrow> list_all (value_char separator) v"
  by (simp add: re_lang_Star_iff value_char_def[abs_def])

text \<open>The words of \<open>fd_regex\<close>: a branch, \<open>=\<close>, and a run of value characters.\<close>

lemma fd_regex_words:
  assumes "alts \<noteq> []"
  shows "re_lang (fd_regex alts separator) w \<longleftrightarrow>
         (\<exists>k v. w = k @ ''='' @ v \<and> k \<in> set alts \<and> list_all (value_char separator) v)"
proof
  assume "re_lang (fd_regex alts separator) w"
  then show "\<exists>k v. w = k @ ''='' @ v \<and> k \<in> set alts \<and> list_all (value_char separator) v"
    using assms by (fastforce simp: fd_regex_def re_lang_alt_of re_lang_lit_seq re_lang_Cat_Lit re_lang_value_run)
next
  assume "\<exists>k v. w = k @ ''='' @ v \<and> k \<in> set alts \<and> list_all (value_char separator) v"
  then obtain k v where w: "w = k @ ''='' @ v" and k: "k \<in> set alts" and v: "list_all (value_char separator) v"
    by blast
  have "re_lang (Group 1 (alt_of (map lit_seq alts))) k"
    using assms k by (auto simp: re_lang_alt_of re_lang_lit_seq intro!: lang_Group)
  moreover have "re_lang (Cat (Lit CHR ''='') (Group 2 (Star (AnyOf True separator)))) (''='' @ v)"
    using v by (auto simp: re_lang_Cat_Lit re_lang_value_run intro!: lang_Group)
  ultimately show "re_lang (fd_regex alts separator) w"
    unfolding w fd_regex_def by (rule lang_Cat)
qed

subsection \<open>Messages without a match\<close>

text \<open>When every word of a compiled pattern contains a character of some kind,
  \<open>re.sub\<close> leaves a string without such characters unchanged.\<close>

lemma first_at_no_word:
  assumes "wf_regex r" and "\<And>w. re_lang r w \<Longrightarrow> \<exists>c\<in>set w. P c" and "\<forall>c\<in>set s. \<not> P c"
  shows "first_at r ma s = None"
proof -
  have "(n, g) \<notin> set (matches r s)" for n g
  proof
    assume "(n, g) \<in> set (matches r s)"
    then have "\<exists>c\<in>set (take n s). P c" using assms(1,2) matches_sound by blast
    with assms(3) show False by (meson in_set_takeD)
  qed
  then show ?thesis by (auto simp: first_at_def find_None_iff)
qed

lemma re_sub_py_no_word:
  assumes "wf_regex r" and "\<And>w. re_lang r w \<Longrightarrow> \<exists>c\<in>set w. P c" and "\<forall>c\<in>set s. \<not> P c"
  shows "re_sub_py r repl ma s = s"
  using assms(3)
proof (induction s arbitrary: ma)
  case Nil
  then show ?case using first_at_no_word[OF assms(1,2)] re_sub_py_Nil by simp
next
  case (Cons c cs)
  then show ?case using first_at_no_word[OF assms(1,2)] re_sub_py_miss by simp
qed

section \<open>Properties\<close>

text \<open>C16. Refinement of the redactor by the regular-expression engine: for field names
  free of metacharacters other than \<open>|\<close>, and a non-empty separator without
  \<open>-\<close>, \<open>\\\<close> or a \<open>]\<close> after its first character, compiling the pattern of
  \<open>filter_datum\<close> succeeds and Python's \<open>re.sub\<close> with the code's callback computes
  exactly the redaction scanner \<open>filter_datum\<close> of the Redactor theory.\<close>

theorem filter_datum_re_refines:
  assumes "plain_fields field_names" and "plain_separator separator"
  shows "filter_datum_re field_names redaction message separator =
         Inr (filter_datum field_names redaction message separator)"
  using assms by (rule filter_datum_re_Inr)

theorem filter_datum_re_refines_witness:
  "plain_fields [''name'', ''email''] \<and> plain_separator '';'' \<and>
   filter_datum_re [''name'', ''email''] ''***'' ''name=Bob;email=b@x.io;age=3'' '';'' =
   Inr ''name=***;email=***;age=3''"
proof -
  have p: "plain_fields [''name'', ''email'']" "plain_separator '';''"
    by (simp_all add: plain_fields_def plain_char_def special_def plain_separator_def)
  show ?thesis
    using filter_datum_re_refines[OF p, of "''***''" "''name=Bob;email=b@x.io;age=3''"] p
    by (simp add: scan_simps)
qed

text \<open>C17. An empty separator makes the pattern end in \<open>[^]*)\<close>, where \<open>]\<close> is a member
  of the set and the set is never closed: \<open>re.sub\<close> raises \<open>re.error\<close>
  (unterminated character set) instead of redacting.\<close>

theorem filter_datum_re_empty_separator:
  assumes "plain_fields field_names"
  shows "filter_datum_re field_names redaction message [] = Inl UnterminatedSet"
proof -
  define alts where "alts = alternatives field_names"
  have alts: "alts \<noteq> []" "list_all (list_all plain_char) alts"
    using assms by (auto simp: alts_def alternatives_plain_chars)
  have "re_compile (fd_pattern field_names []) =
    parse_re Normal [([], [], 1), ([], [], 0)] 1 (py_join ''|'' alts @ '')=([^]*)'')"
    using plain_no_extension [OF assms] by (simp add: re_compile_def fd_pattern_def alts_def py_join_alternatives)
  also have "\<dots> = Inl UnterminatedSet"
    using parse_alts[OF alts, of "[]"] by (simp add: add_piece_def special_def)
  finally show ?thesis by (simp add: filter_datum_re_def)
qed

theorem filter_datum_re_empty_separator_witness:
  "plain_fields [''password''] \<and> filter_datum_re [''password''] ''***'' ''password=x'' [] = Inl UnterminatedSet"
proof -
  have p: "plain_fields [''password'']"
    by (simp add: plain_fields_def plain_char_def special_def)
  show ?thesis using filter_datum_re_empty_separator[OF p] p by simp
qed

text \<open>C18. A field name starting with \<open>*\<close>, after any plain field names, puts \<open>*\<close> at
  the start of a branch: \<open>re.sub\<close> raises \<open>re.error\<close> (nothing to repeat), whatever
  the separator and the message.\<close>

theorem filter_datum_re_star_field:
  assumes "plain_fields field_names"
  shows "filter_datum_re (field_names @ (CHR ''*'' # f) # more) redaction message separator =
         Inl NothingToRepeat"
proof (cases "field_names = []")
  case True
  then show ?thesis
    by (cases more) (simp_all add: filter_datum_re_def re_compile_def fd_pattern_def add_repeat_def)
next
  case False
  define alts where "alts = alternatives field_names"
  have alts: "alts \<noteq> []" "list_all (list_all plain_char) alts"
    using assms by (auto simp: alts_def alternatives_plain_chars)
  have "re_compile (fd_pattern (field_names @ (CHR ''*'' # f) # more) separator) =
    parse_re Normal [([], [], 1), ([], [], 0)] 1
      (py_join ''|'' alts @ ''|'' @ py_join ''|'' ((CHR ''*'' # f) # more) @ '')=([^'' @ separator @ '']*)'')"
    using False plain_no_extension [OF assms]
    by (simp add: re_compile_def fd_pattern_def alts_def py_join_alternatives py_join_append_Cons)
  also have "\<dots> = Inl NothingToRepeat"
    using parse_alts[OF alts, of "[]"] by (cases more) (simp_all add: add_repeat_def)
  finally show ?thesis by (simp add: filter_datum_re_def)
qed

theorem filter_datum_re_star_field_witness:
  "plain_fields [''name''] \<and>
   filter_datum_re [''name'', ''*ssn''] ''***'' ''name=Bob'' '';'' = Inl NothingToRepeat"
proof -
  have p: "plain_fields [''name'']"
    by (simp add: plain_fields_def plain_char_def special_def)
  show ?thesis using filter_datum_re_star_field[OF p, of "''ssn''" "[]"] p by simp
qed

text \<open>C20. The matches of the compiled line-29 pattern: for plain field names and a plain
  separator, the engine finds a match of length \<open>n\<close> at the start of \<open>s\<close> exactly when
  the first \<open>n\<close> characters are a branch of the group, then \<open>=\<close>, then a run of
  characters outside the separator: no other text is ever replaced.\<close>

theorem fd_pattern_matches_exact:
  assumes "plain_fields field_names" and "plain_separator separator"
    and "re_compile (fd_pattern field_names separator) = Inr r"
  shows "(\<exists>g. (n, g) \<in> set (matches r s)) \<longleftrightarrow>
         n \<le> length s \<and> (\<exists>k v. take n s = k @ ''='' @ v \<and> k \<in> set (alternatives field_names) \<and>
                                list_all (value_char separator) v)"
proof -
  have "r = fd_regex (alternatives field_names) separator"
    using assms re_compile_fd_pattern by simp
  then show ?thesis
    using matches_iff_re_lang [OF re_compile_wf [OF assms(3)]] fd_regex_words by simp
qed

theorem fd_pattern_matches_exact_witness:
  "plain_fields [''name''] \<and> plain_separator '';'' \<and>
   re_compile (fd_pattern [''name''] '';'') = Inr (fd_regex [''name''] '';'') \<and>
   (\<exists>g. (8, g) \<in> set (matches (fd_regex [''name''] '';'') ''name=Bob;x''))"
proof -
  have p: "plain_fields [''name'']" "plain_separator '';''"
    by (simp_all add: plain_fields_def plain_char_def special_def plain_separator_def)
  have c: "re_compile (fd_pattern [''name''] '';'') = Inr (fd_regex [''name''] '';'')"
    by (simp add: re_compile_def fd_pattern_def special_def add_piece_def add_repeat_def repeat_of_def fd_regex_def lit_seq_def)
  have "\<exists>k v. take 8 ''name=Bob;x'' = k @ ''='' @ v \<and> k \<in> set (alternatives [''name'']) \<and>
        list_all (value_char '';'') v"
    by (intro exI [of _ "''name''"] exI [of _ "''Bob''"]) (simp add: alternatives_def value_char_def eval_nat_numeral)
  then show ?thesis using fd_pattern_matches_exact [OF p c, of 8 "''name=Bob;x''"] p c by simp
qed

text \<open>C23. Type of the callback's argument: on plain field names and a plain separator,
  every match of the compiled pattern has group 1, and it is the branch whose \<open>key=\<close>
  starts the match, so \<open>m.group(1)\<close> is a string and never \<open>None\<close>.\<close>

theorem fd_match_group1_key:
  assumes "plain_fields field_names" and "plain_separator separator"
    and "re_compile (fd_pattern field_names separator) = Inr r"
    and "(n, g) \<in> set (matches r s)"
  shows "\<exists>k. k \<in> set (alternatives field_names) \<and> match_group g 1 = Some k \<and> prefix (k @ ''='') s"
proof -
  have "r = fd_regex (alternatives field_names) separator"
    using assms(1-3) re_compile_fd_pattern by simp
  with assms(4) show ?thesis
    by (auto simp: matches_fd_regex match_group_def)
qed

theorem fd_match_group1_key_witness:
  "plain_fields [''name''] \<and> plain_separator '';'' \<and>
   re_compile (fd_pattern [''name''] '';'') = Inr (fd_regex [''name''] '';'') \<and>
   (8, [(1, ''name''), (2, ''Bob'')]) \<in> set (matches (fd_regex [''name''] '';'') ''name=Bob'') \<and>
   match_group [(1, ''name''), (2, ''Bob'')] 1 = Some ''name''"
proof -
  have p: "plain_fields [''name'']" "plain_separator '';''"
    by (simp_all add: plain_fields_def plain_char_def special_def plain_separator_def)
  have c: "re_compile (fd_pattern [''name''] '';'') = Inr (fd_regex [''name''] '';'')"
    by (simp add: re_compile_def fd_pattern_def special_def add_piece_def add_repeat_def repeat_of_def fd_regex_def lit_seq_def)
  have m: "(8, [(1, ''name''), (2, ''Bob'')]) \<in> set (matches (fd_regex [''name''] '';'') ''name=Bob'')"
    by (simp add: fd_regex_def lit_seq_def eval_nat_numeral)
  from fd_match_group1_key[OF p c m] have "match_group [(1, ''name''), (2, ''Bob'')] 1 = Some ''name''"
    by (auto simp: alternatives_def)
  with p c m show ?thesis by simp
qed

text \<open>C24. The unescaped field name \<open>a)|(b\<close> turns the pattern into
  \<open>(a)|(b)=([^;]*)\<close>: a match of the second branch has no group 1, so the callback's
  f-string writes \<open>None\<close> in place of the key \<open>b\<close>; and the first branch matches a bare
  \<open>a\<close>, with no \<open>=\<close> after it, which is rewritten to \<open>a=***\<close>.\<close>

theorem filter_datum_re_group_none:
  assumes "CHR '';'' \<notin> set v" and "CHR ''a'' \<notin> set w" and "CHR ''='' \<notin> set w"
  shows "filter_datum_re [''a)|(b''] redaction (''b='' @ v) '';'' = Inr (''None='' @ redaction) \<and>
         filter_datum_re [''a)|(b''] redaction (CHR ''a'' # w) '';'' = Inr (''a='' @ redaction @ w)"
proof -
  define R where "R = Alt (Group 1 (Lit CHR ''a''))
                      (Cat (Group 2 (Lit CHR ''b'')) (Cat (Lit CHR ''='') (Group 3 (Star (AnyOf True '';'')))))"
  have R: "re_compile (fd_pattern [''a)|(b''] '';'') = Inr R"
    by (simp add: R_def re_compile_def fd_pattern_def add_piece_def add_repeat_def repeat_of_def special_def)
  have wf: "wf_regex R" using R by (rule re_compile_wf)
  have e: "first_at R False [] = None"
    by (simp add: R_def first_at_def)
  have tw: "takeWhile (\<lambda>d. d \<noteq> CHR '';'') v = v"
    using assms(1) by (auto simp: takeWhile_eq_all_conv)
  have m2: "first_at R False (''b='' @ v) = Some (2 + length v, [(2, ''b''), (3, v)])"
    by (simp add: R_def first_at_def Let_def tw)
  have none: "filter_datum_re [''a)|(b''] redaction (''b='' @ v) '';'' = Inr (''None='' @ redaction)"
    using R re_sub_py_hit [OF m2, of "fd_repl redaction"] re_sub_py_Nil [OF e]
    by (simp add: filter_datum_re_def fd_repl_def match_group_def py_format_opt_def)
  have m1: "first_at R False (CHR ''a'' # w) = Some (1, [(1, ''a'')])"
    by (simp add: R_def first_at_def)
  have word: "\<exists>d\<in>set u. d = CHR ''a'' \<or> d = CHR ''=''" if "re_lang R u" for u
  proof -
    from that consider "re_lang (Group 1 (Lit CHR ''a'')) u"
      | "re_lang (Cat (Group 2 (Lit CHR ''b'')) (Cat (Lit CHR ''='') (Group 3 (Star (AnyOf True '';''))))) u"
      unfolding R_def by (rule re_lang_AltE)
    then show ?thesis
    proof cases
      case 1
      then have "u = [CHR ''a'']" by (rule re_lang_GroupE) (erule re_lang_LitE)
      then show ?thesis by simp
    next
      case 2
      then obtain x y where u: "u = x @ y"
        and y: "re_lang (Cat (Lit CHR ''='') (Group 3 (Star (AnyOf True '';'')))) y"
        by (rule re_lang_CatE)
      from y obtain y' where "y = CHR ''='' # y'" by (auto simp: re_lang_Cat_Lit)
      then show ?thesis using u by simp
    qed
  qed
  have rest: "re_sub_py R (fd_repl redaction) False w = w"
  proof (rule re_sub_py_no_word [OF wf word])
    show "\<forall>d\<in>set w. \<not> (d = CHR ''a'' \<or> d = CHR ''='')" using assms(2,3) by blast
  qed
  have bare: "filter_datum_re [''a)|(b''] redaction (CHR ''a'' # w) '';'' = Inr (''a='' @ redaction @ w)"
    using R re_sub_py_hit [OF m1, of "fd_repl redaction"] rest
    by (simp add: filter_datum_re_def fd_repl_def match_group_def py_format_opt_def)
  from none bare show ?thesis ..
qed

theorem filter_datum_re_group_none_witness:
  "CHR '';'' \<notin> set ''x'' \<and> CHR ''a'' \<notin> set ''!'' \<and> CHR ''='' \<notin> set ''!'' \<and>
   filter_datum_re [''a)|(b''] ''***'' ''b=x'' '';'' = Inr ''None=***'' \<and>
   filter_datum_re [''a)|(b''] ''***'' ''a!'' '';'' = Inr ''a=***!''"
proof -
  have h: "CHR '';'' \<notin> set ''x''" "CHR ''a'' \<notin> set ''!''" "CHR ''='' \<notin> set ''!''" by simp_all
  show ?thesis using filter_datum_re_group_none [OF h, of "''***''"] h by simp
qed

text \<open>C32. Field names are inserted without \<open>re.escape\<close>, so a \<open>.\<close> in a field name is
  the wildcard: the field \<open>e.mail\<close> redacts the value of every key \<open>e?mail\<close> whose second
  character is not a newline (\<open>eXmail\<close>, \<open>e;mail\<close>, not only \<open>e.mail\<close>), while
  \<open>e\<newline>mail\<close> is left as it is, since \<open>.\<close> does not match a newline.\<close>

theorem filter_datum_re_dot_field:
  assumes "c \<noteq> CHR 0x0A" and "CHR '';'' \<notin> set v" and "CHR ''='' \<notin> set v"
  shows "filter_datum_re [''e.mail''] redaction (CHR ''e'' # c # ''mail='' @ v) '';'' =
           Inr (CHR ''e'' # c # ''mail='' @ redaction) \<and>
         filter_datum_re [''e.mail''] redaction (CHR ''e'' # CHR 0x0A # ''mail='' @ v) '';'' =
           Inr (CHR ''e'' # CHR 0x0A # ''mail='' @ v)"
proof -
  define R where "R = Cat (Group 1 (Cat (Lit CHR ''e'') (Cat any_char (lit_seq ''mail''))))
                        (Cat (Lit CHR ''='') (Group 2 (Star (AnyOf True '';''))))"
  have R: "re_compile (fd_pattern [''e.mail''] '';'') = Inr R"
    by (simp add: R_def re_compile_def fd_pattern_def add_piece_def add_repeat_def repeat_of_def
        special_def lit_seq_def)
  have wf: "wf_regex R" using R by (rule re_compile_wf)
  have eq: "\<exists>d\<in>set w. d = CHR ''=''" if "re_lang R w" for w
    using that by (auto simp: R_def)
  have tw: "takeWhile (\<lambda>d. d \<noteq> CHR '';'') v = v"
    using assms(2) by (auto simp: takeWhile_eq_all_conv)
  have m: "first_at R False (CHR ''e'' # c # ''mail='' @ v) =
           Some (7 + length v, [(1, CHR ''e'' # c # ''mail''), (2, v)])"
    using assms(1) by (simp add: R_def first_at_def any_char_def lit_seq_def Let_def tw)
  have e: "first_at R False [] = None"
    by (simp add: R_def first_at_def)
  have hit: "filter_datum_re [''e.mail''] redaction (CHR ''e'' # c # ''mail='' @ v) '';'' =
           Inr (CHR ''e'' # c # ''mail='' @ redaction)"
    using R re_sub_py_hit[OF m, of "fd_repl redaction"] re_sub_py_Nil[OF e]
    by (simp add: filter_datum_re_def fd_repl_def match_group_def py_format_opt_def)
  have nv: "\<forall>d\<in>set v. \<not> d = CHR ''=''" using assms(3) by blast
  have "re_sub_py R (fd_repl redaction) False (CHR ''e'' # CHR 0x0A # ''mail='' @ v) =
        CHR ''e'' # CHR 0x0A # ''mail='' @ re_sub_py R (fd_repl redaction) False v"
    by (simp add: re_sub_py_miss R_def first_at_def any_char_def lit_seq_def)
  also have "re_sub_py R (fd_repl redaction) False v = v"
    by (rule re_sub_py_no_word [OF wf eq nv])
  finally have miss: "filter_datum_re [''e.mail''] redaction (CHR ''e'' # CHR 0x0A # ''mail='' @ v) '';'' =
           Inr (CHR ''e'' # CHR 0x0A # ''mail='' @ v)"
    using R by (simp add: filter_datum_re_def)
  from hit miss show ?thesis ..
qed


theorem filter_datum_re_dot_field_witness:
  "CHR ''X'' \<noteq> CHR 0x0A \<and> CHR '';'' \<notin> set ''555'' \<and> CHR ''='' \<notin> set ''555'' \<and>
   filter_datum_re [''e.mail''] ''***'' ''eXmail=555'' '';'' = Inr ''eXmail=***''"
proof -
  have h: "CHR ''X'' \<noteq> CHR 0x0A" "CHR '';'' \<notin> set ''555''" "CHR ''='' \<notin> set ''555''"
    by simp_all
  show ?thesis using filter_datum_re_dot_field[OF h, of "''***''"] h by simp
qed

end
