(* ===== verification/Spec2Isabelle.thy ===== *)
theory Spec2Isabelle
  imports Driver SubLoop
begin

text \<open>
  \<^bold>\<open>A verification library for the PII-redacting logger\<close>
  of \<^verbatim>\<open>src/0x00-personal_data/filtered_logger.py\<close>.

  \<^bold>\<open>The program.\<close> One Python module with four parts, called leaf first:
  \<^item> the redactor \<open>filter_datum(fields, redaction, message, separator)\<close> (lines 15--32):
    builds the pattern \<open>(f1|...|fn)=([^sep]*)\<close> and replaces every match by the key, \<open>=\<close> and
    the redaction with \<open>re.sub\<close>;
  \<^item> the formatter class \<open>RedactingFormatter\<close> (lines 35--63): renders a log record with the
    template \<open>[HOLBERTON] %(name)s %(levelname)s %(asctime)-15s: %(message)s\<close> through
    \<open>logging.Formatter.format\<close> and passes the whole line to \<open>filter_datum\<close> with
    \<open>"***"\<close> and \<open>";"\<close>;
  \<^item> the logger setup \<open>get_logger\<close> (lines 12, 66--86): configures the process-wide logger
    \<open>"user_data"\<close> with a stream handler carrying a \<open>RedactingFormatter(PII_FIELDS)\<close>;
  \<^item> the driver \<open>get_db\<close> and \<open>main\<close> (lines 89--133): reads connection parameters from
    the environment, queries \<open>users\<close>, builds \<open>"; ".join(f"{col}={val}")\<close> per row and
    logs it at \<open>INFO\<close>, then closes the cursor and the connection.

  \<^bold>\<open>The theories.\<close>
  \<^item> \<open>Prelude\<close>: Python's \<open>str.join\<close> (\<open>py_join\<close>) and one-character
    \<open>str.split\<close> (\<open>split_at_char\<close>) and the list lemmas on prefixes, suffixes and
    \<open>takeWhile\<close>/\<open>dropWhile\<close> the components share.
  \<^item> \<open>Redactor\<close>: \<open>filter_datum\<close> as \<open>alternatives\<close> (the branches of the group,
    from \<open>'|'.join(fields)\<close>), \<open>value_char\<close> (the class \<open>[^sep]\<close>),
    \<open>match_key\<close> (the first branch followed by \<open>=\<close> at a position) and \<open>re_sub\<close>
    (the left-to-right scan of \<open>re.sub\<close>, a \<open>function\<close> with a length measure).
    Its specification is \<open>redact_tokens\<close>: cut the message at separator characters and
    redact each token from its leftmost key occurrence (\<open>redact_token\<close>). Lemmas: the scan
    refines the specification (C2), the behaviour on \<open>key=value\<close> messages (C1, C5),
    a value containing the separator is masked only up to it (C14), idempotence (C3), the
    separator skeleton (C4), identity without keys (C6), a length bound (C7).
  \<^item> \<open>PercentFormat\<close>: one conversion specification of Python's \<open>str % mapping\<close>
    (\<open>conv_spec\<close>: mapping key, flags, width, precision, conversion, with \<open>KeyError\<close>,
    \<open>ValueError\<close> and \<open>TypeError\<close> as values of \<open>fmt_error\<close>).
  \<^item> \<open>Formatter\<close>: the \<open>log_record\<close> attributes, \<open>base_format\<close> (template, padding,
    exception and stack text), \<open>format\<close>, and \<open>percent_format\<close>, logging's
    \<open>PercentStyle\<close>. Lemmas: the header survives and the message is
    redacted on its own (C8), exception text joins the last value and is redacted with it
    (C9), the rendering \<open>FORMAT_render\<close> is what \<open>%\<close> computes on the class's
    \<open>FORMAT\<close> (C21).
  \<^item> \<open>FormatTime\<close>: \<open>logging.Formatter.formatTime\<close> without a date format, the stamp
    behind \<open>%(asctime)s\<close>: \<open>strftime_default\<close> (\<open>time.strftime("%Y-%m-%d %H:%M:%S")\<close> of a
    \<open>struct_time\<close> record), then \<open>format_time\<close> adds \<open>",%03d"\<close> of the milliseconds;
    \<open>py_str_nat\<close> is \<open>str\<close> of a natural number and \<open>zero_pad\<close> the zero-padded widths.
    Lemmas: for the ranges \<open>time.localtime\<close> produces (\<open>valid_time\<close>, four-digit years) the
    stamp has 23 characters, only digits and \<open>- :,\<close>, and \<open>parse_time\<close> reads it back.
    In \<open>Formatter\<close> this gives that Python's \<open>%\<close> on \<open>FORMAT\<close> renders the stamp
    unpadded, the \<open>-15\<close> width of \<open>%(asctime)-15s\<close> never applying (C29), and that the
    stamp can be read back at its place in the rendered header (C30).
  \<^item> \<open>Logger\<close>: the logger registry as explicit state (a map from names to
    \<open>logger\<close> records), \<open>get_logger\<close> as a registry transformer, \<open>logger_info\<close>
    as the list of strings written to standard error. Lemmas: repeated setup duplicates
    every line (C10); \<open>get_logger\<close> keeps the invariant \<open>redacting_registry\<close>.
  \<^item> \<open>Driver\<close>: the environment as a map, \<open>get_db\<close>, the database as an external
    \<open>database\<close> record (connection, query result or error, failing fetch), the process
    state \<open>world\<close> (registry, standard error, open connection and cursor), the row loop
    \<open>process_rows\<close> with \<open>IndexError\<close> for short rows, and \<open>main\<close> with every
    exception path as an \<open>Inl\<close> result. Lemmas: resources stay open exactly on the error
    paths (C11), a successful run writes one line per row and closes both (C12), a short
    row ends the run with \<open>IndexError\<close> (C15),
    the per-row message reads back as the row's pairs (C25, with the decoder
    \<open>parse_row_message\<close>), and on every path \<open>main\<close> only appends lines produced by the
    redacting formatter, keeping the registry invariant \<open>redacting_registry\<close> of
    \<open>Logger\<close> (C26); run as a script (\<open>script_main\<close>, lines 135--136) it exits with
    status 0 exactly on a complete run (C27).
  \<^item> \<open>Regex\<close>: the fragment of Python's \<open>re\<close> the pattern uses, with a declarative
    semantics \<open>re_lang\<close> (an inductive predicate) against which the matcher is proved
    sound and complete on the well-formed regexes the parser builds. \<open>re_compile\<close> parses
    a pattern string into a \<open>regex\<close> (literals and escaped punctuation, the wildcard
    \<open>.\<close>, numbered groups, alternation, sets \<open>[...]\<close> and \<open>[^...]\<close>, the greedy
    repeats \<open>*\<close>, \<open>+\<close>, \<open>?\<close> of one character, \<open>add_repeat\<close>) or one of
    \<open>re.error\<close>'s errors
    (\<open>re_error\<close>), the constructs outside the fragment being \<open>Unsupported\<close>;
    \<open>matches\<close> lists the matches at a position in the order of the backtracking engine;
    \<open>search_from\<close> finds the leftmost match under CPython's \<open>must_advance\<close> rule.
  \<^item> \<open>ReSub\<close>: \<open>re_sub_py\<close>, \<open>re.sub\<close> with a callable replacement and Python 3.7's
    rules for empty matches, with the scan lemmas (replace a match, copy a character).
  \<^item> \<open>Pattern\<close>: \<open>filter_datum_re\<close>, the Python function run through that engine
    (pattern string, callback \<open>m.group(1)\<close>, \<open>re.error\<close> as \<open>Inl\<close>). Lemmas: on plain
    field names and separators it is \<open>Redactor.filter_datum\<close> (C16), which justifies
    the scanner model; an empty separator (C17) or a field name starting with \<open>*\<close> (C18)
    raise \<open>re.error\<close>; on plain inputs the engine's matches of the compiled pattern are
    exactly the prefixes \<open>key=value\<close> with a listed key and a value free of separator
    characters (C20, through the words \<open>fd_regex_words\<close> of the pattern in \<open>re_lang\<close>),
    and every match carries group 1, the key (C23), while the field name \<open>a)|(b\<close> makes
    the callback write \<open>None\<close> and redact a bare \<open>a\<close> (C24)
    and the field name \<open>e.mail\<close> redacts unlisted keys such as \<open>eXmail\<close> (C32).
  \<^item> \<open>SubLoop\<close>: the loop of CPython's \<open>pattern_subx\<close> as an inductive step relation
    \<open>sub_step\<close> on the record \<open>sub_state\<close> (current position, \<open>must_advance\<close>, output,
    finished), with the executable \<open>sub_next\<close>. Lemmas: every finished run has written
    \<open>re_sub_py\<close>'s result (the invariant \<open>sub_pending\<close>, by rule induction); on plain
    inputs every match of \<open>filter_datum\<close>'s pattern is non-empty, so its loop leaves
    within \<open>len(message) + 1\<close> iterations (C22), and on every execution, an infinite
    sequence of states (\<open>sub_run\<close>), it finishes for good with the scanner's result (C28).
  \<^item> This theory: the end-to-end property of the program (C13), and that the installed
    formatter never raises and is computed by the engine as the model says (C19); with \<open>FormatTime\<close>'s stamps as the
  clock of \<open>main\<close>, every line it writes carries its row's creation time, readable at a
  fixed position (C31). C13 and C31 share \<open>main_pii_lines\<close>, the lines of a successful
  run on plain rows.

  \<^bold>\<open>Modelling choices.\<close> Python strings are \<open>string\<close> (lists of 8-bit characters);
  the claims use ASCII text, where this agrees with Python's code points. Errors are values:
  \<open>db_error + unit\<close> for \<open>main\<close>, \<open>db_error + string\<close> for the row message. No loop
  needs fuel: \<open>re_sub\<close> and \<open>redact_tokens\<close> consume at least one character per call
  (termination by \<open>measure length\<close>), \<open>process_rows\<close> recurses on the row list.
  \<open>re_sub_py\<close> terminates by the measure \<open>2 * length s + (if must_advance then 0 else 1)\<close>.
  \<open>re_sub\<close> is exact for the regular expressions the code builds when the field names
  contain no metacharacter other than \<open>|\<close> and the separator is non-empty, free of
  \<open>-\<close> and backslash and has no \<open>]\<close> after its first character: this is theorem C16,
  proved against the engine model; the program's own inputs (\<open>PII_FIELDS\<close>,
  \<open>";"\<close>) are of this kind (C19). The loop of \<open>pattern_subx\<close> needs no fuel either:
  on those inputs C22 bounds its iterations by \<open>len(message) + 1\<close>. In \<open>PercentFormat\<close> widths and
  precisions are unbounded naturals checked against \<open>PY_SSIZE_T_MAX = 2^63 - 1\<close>, as
  CPython checks them, and \<open>percent_format\<close> terminates because every specification
  consumes its conversion character.

  \<^bold>\<open>Not modelled.\<close> Python's \<open>re\<close> beyond the fragment of \<open>Regex\<close> (\<open>^ $ {m,n}\<close>,
  lazy repeats, escapes of letters and digits, ranges in sets, extensions \<open>(?...)\<close>,
  repetition of groups): on such field names
  \<open>filter_datum_re\<close> returns \<open>Unsupported\<close> and nothing is claimed;
  the conversion of the creation time in seconds to local time (\<open>time.localtime\<close> and its
  time zone tables: \<open>FormatTime\<close> starts from the \<open>struct_time\<close>, and \<open>Driver\<close> takes
  the stamp of the \<open>k\<close>-th line as an input, \<open>clock k\<close>) and \<open>formatTime\<close> with a
  \<open>datefmt\<close> (the program sets none); the MySQL connector and
  server beyond the \<open>database\<close> record; handler locking and stream flushing in
  \<open>logging\<close>; \<open>getMessage\<close>'s \<open>%\<close>-formatting with arguments (the program passes
  none); the traceback the interpreter prints when an exception escapes \<open>main\<close>; in \<open>PercentFormat\<close>, specifications without a key, \<open>*\<close> widths and the
  \<open>repr\<close> conversions \<open>r\<close> and \<open>a\<close> (\<open>FmtUnsupported\<close>).
\<close>

section \<open>End-to-end properties\<close>

text \<open>The lines \<open>main\<close> writes on a successful run with plain rows, shared by the
  end-to-end theorems.\<close>

lemma main_pii_lines:
  assumes "accepts db (get_db env)"
    and "run_query db (get_db env) ''SELECT * FROM users;'' = Inr res"
    and "\<not> fetch_error res"
    and "loggers w ''user_data'' = None"
    and rows: "\<forall>row\<in>set (rows res). length (description res) \<le> length row \<and>
                 (\<forall>v\<in>set row. CHR '';'' \<notin> set v \<and> CHR ''='' \<notin> set v)"
    and cols: "\<forall>c\<in>set (description res). CHR '';'' \<notin> set c \<and> CHR ''='' \<notin> set c"
    and clock: "\<forall>k. CHR ''='' \<notin> set (clock k)"
  shows "stderr (snd (main env db clock w)) = stderr w @
           map (\<lambda>(k, row). FORMAT_prefix (info_record ''user_data'' (clock k) []) @
                  py_join ''; '' (map (\<lambda>(c, v). c @ ''='' @
                    (if \<exists>f\<in>set PII_FIELDS. suffix f c then ''***'' else v))
                    (zip (description res) row)) @ [CHR 0x0A])
             (zip [0..<length (rows res)] (rows res))"
proof -
  have lens: "\<forall>row\<in>set (rows res). length (description res) \<le> length row" using rows by blast
  have keys: "keys_avoid '';'' (alternatives PII_FIELDS)"
    unfolding alternatives_PII_FIELDS by (simp add: keys_avoid_def value_char_def PII_FIELDS_def)
  have alts: "\<forall>a\<in>set (alternatives PII_FIELDS). CHR ''='' \<notin> set a \<and> CHR '' '' \<notin> set a"
    unfolding alternatives_PII_FIELDS by (simp add: PII_FIELDS_def)
  have line: "emit user_data_handler (info_record ''user_data'' (clock k)
                (py_join ''; '' (map (\<lambda>(f, v). f @ ''='' @ v) (zip (description res) row)))) =
              FORMAT_prefix (info_record ''user_data'' (clock k) []) @
                py_join ''; '' (map (\<lambda>(c, v). c @ ''='' @
                  (if \<exists>f\<in>set PII_FIELDS. suffix f c then ''***'' else v)) (zip (description res) row)) @
                [CHR 0x0A]"
    if "row \<in> set (rows res)" for k row
  proof -
    have kv: "\<forall>(c, v)\<in>set (zip (description res) row). CHR ''='' \<notin> set c \<and> CHR ''='' \<notin> set v \<and>
                CHR '';'' \<notin> set c \<and> CHR '';'' \<notin> set v"
      using rows cols that by (auto dest: set_zip_leftD set_zip_rightD)
    show ?thesis
      using emit_user_data_handler [OF clock [rule_format, of k]]
        filter_datum_semicolon_join [OF keys alts kv, of "''***''"]
      by (simp add: alternatives_PII_FIELDS)
  qed
  show ?thesis
    using main_run_ok [OF assms(1-3) lens assms(4), of clock] line
    by (auto simp: set_zip_rightD intro!: map_cong)
qed

text \<open>
  C13. End to end: on a fresh process, when the query succeeds and the column names and
  values contain neither \<open>;\<close> nor \<open>=\<close>, \<open>main\<close> writes, for the \<open>k\<close>-th row,
  the header \<open>[HOLBERTON] user_data INFO time: \<close> followed by the row's
  \<open>col=value\<close> pairs joined by \<open>"; "\<close>, where the value is replaced by \<open>***\<close>
  exactly when one of \<open>PII_FIELDS\<close> is a suffix of the column name.
\<close>

theorem main_redacts_pii:
  assumes "accepts db (get_db env)"
    and "run_query db (get_db env) ''SELECT * FROM users;'' = Inr res"
    and "\<not> fetch_error res"
    and "loggers w ''user_data'' = None"
    and rows: "\<forall>row\<in>set (rows res). length (description res) \<le> length row \<and>
                 (\<forall>v\<in>set row. CHR '';'' \<notin> set v \<and> CHR ''='' \<notin> set v)"
    and cols: "\<forall>c\<in>set (description res). CHR '';'' \<notin> set c \<and> CHR ''='' \<notin> set c"
    and clock: "\<forall>k. CHR ''='' \<notin> set (clock k)"
  shows "stderr (snd (main env db clock w)) = stderr w @
           map (\<lambda>(k, row). FORMAT_prefix (info_record ''user_data'' (clock k) []) @
                  py_join ''; '' (map (\<lambda>(c, v). c @ ''='' @
                    (if \<exists>f\<in>set PII_FIELDS. suffix f c then ''***'' else v))
                    (zip (description res) row)) @ [CHR 0x0A])
             (zip [0..<length (rows res)] (rows res))"
  using assms by (rule main_pii_lines)

theorem main_redacts_pii_witness:
  "accepts \<lparr>accepts = \<lambda>_. True, run_query = \<lambda>_ _. Inr \<lparr>description = [''email'', ''ip''],
      rows = [[''bob@x.com'', ''1.2.3.4'']], fetch_error = False\<rparr>\<rparr> (get_db Map.empty) \<and>
   run_query \<lparr>accepts = \<lambda>_. True, run_query = \<lambda>_ _. Inr \<lparr>description = [''email'', ''ip''],
      rows = [[''bob@x.com'', ''1.2.3.4'']], fetch_error = False\<rparr>\<rparr> (get_db Map.empty) ''SELECT * FROM users;'' =
     Inr \<lparr>description = [''email'', ''ip''], rows = [[''bob@x.com'', ''1.2.3.4'']], fetch_error = False\<rparr> \<and>
   list_all (\<lambda>row. length [''email'', ''ip''] \<le> length row \<and>
     list_all (\<lambda>v. CHR '';'' \<notin> set v \<and> CHR ''='' \<notin> set v) row) [[''bob@x.com'', ''1.2.3.4'']] \<and>
   list_all (\<lambda>c. CHR '';'' \<notin> set c \<and> CHR ''='' \<notin> set c) [''email'', ''ip''] \<and>
   (\<forall>k::nat. CHR ''='' \<notin> set ''2024-01-01 00:00:00,000'') \<and>
   stderr (snd (main Map.empty \<lparr>accepts = \<lambda>_. True, run_query = \<lambda>_ _. Inr \<lparr>description = [''email'', ''ip''],
      rows = [[''bob@x.com'', ''1.2.3.4'']], fetch_error = False\<rparr>\<rparr> (\<lambda>_. ''2024-01-01 00:00:00,000'')
      \<lparr>loggers = Map.empty, stderr = [], conn_open = False, cursor_open = False\<rparr>)) =
   [FORMAT_prefix (info_record ''user_data'' ''2024-01-01 00:00:00,000'' []) @
    py_join ''; '' (map (\<lambda>(c, v). c @ ''='' @ (if \<exists>f\<in>set PII_FIELDS. suffix f c then ''***'' else v))
      (zip [''email'', ''ip''] [''bob@x.com'', ''1.2.3.4''])) @ [CHR 0x0A]]"
  using main_redacts_pii [of "\<lparr>accepts = \<lambda>_. True, run_query = \<lambda>_ _. Inr \<lparr>description = [''email'', ''ip''],
      rows = [[''bob@x.com'', ''1.2.3.4'']], fetch_error = False\<rparr>\<rparr>" "Map.empty"
      "\<lparr>description = [''email'', ''ip''], rows = [[''bob@x.com'', ''1.2.3.4'']], fetch_error = False\<rparr>"
      "\<lparr>loggers = Map.empty, stderr = [], conn_open = False, cursor_open = False\<rparr>"
      "\<lambda>_. ''2024-01-01 00:00:00,000''"]
  by simp

text \<open>C19. The formatter the program installs runs \<open>filter_datum\<close> with \<open>PII_FIELDS\<close> and
  the separator \<open>";"\<close>: for every log record, compiling the pattern succeeds and
  \<open>re.sub\<close> on the rendered line computes exactly \<open>RedactingFormatter.format\<close> of the
  model, so no record makes the formatter raise \<open>re.error\<close>.\<close>

theorem format_pii_via_re_engine:
  "filter_datum_re PII_FIELDS REDACTION (base_format r) SEPARATOR =
   Inr (format (RedactingFormatter_init PII_FIELDS) r)"
proof -
  have "plain_fields PII_FIELDS" "plain_separator SEPARATOR"
    by (simp_all add: plain_fields_def plain_char_def special_def plain_separator_def PII_FIELDS_def
        SEPARATOR_def)
  then show ?thesis
    by (simp add: filter_datum_re_Inr format_def RedactingFormatter_init_def)
qed

text \<open>
  C31. Composition of the driver with \<open>formatTime\<close>: when the clock of \<open>main\<close> is the
  default stamp of valid local times \<open>ct k\<close> with milliseconds \<open>ms k\<close>, a successful run
  on plain rows writes exactly one line per row, and the 23 characters after
  \<open>[HOLBERTON] user_data INFO \<close> of the \<open>k\<close>-th line read back as \<open>(ct k, ms k)\<close>:
  the stamp is neither padded, nor cut, nor touched by the redaction.
\<close>

theorem main_lines_timestamped:
  assumes "accepts db (get_db env)"
    and "run_query db (get_db env) ''SELECT * FROM users;'' = Inr res"
    and "\<not> fetch_error res"
    and "loggers w ''user_data'' = None"
    and "\<forall>row\<in>set (rows res). length (description res) \<le> length row \<and>
                 (\<forall>v\<in>set row. CHR '';'' \<notin> set v \<and> CHR ''='' \<notin> set v)"
    and "\<forall>c\<in>set (description res). CHR '';'' \<notin> set c \<and> CHR ''='' \<notin> set c"
    and valid: "\<forall>k. valid_time (ct k) (ms k)"
  shows "length (stderr (snd (main env db (\<lambda>k. format_time (ct k) (ms k)) w))) =
           length (stderr w) + length (rows res) \<and>
         (\<forall>k<length (rows res). parse_time (take 23 (drop 27
            (stderr (snd (main env db (\<lambda>k. format_time (ct k) (ms k)) w)) ! (length (stderr w) + k)))) =
            Some (ct k, ms k))"
proof -
  have "\<forall>k. CHR ''='' \<notin> set (format_time (ct k) (ms k))"
    using format_time_chars by (fastforce simp: is_digit_def)
  note lines = main_pii_lines [OF assms(1-6) this]
  have stamp: "parse_time (take 23 (drop 27
                 (FORMAT_prefix (info_record ''user_data'' (format_time (ct k) (ms k)) []) @ s))) =
               Some (ct k, ms k)" for k s
  proof -
    have "length (format_time (ct k) (ms k)) = 23" using valid format_time_length by simp
    then show ?thesis
      using header_stamp [of "info_record ''user_data'' (format_time (ct k) (ms k)) []" s]
        parse_format_time valid by (simp add: info_record_def)
  qed
  have "\<exists>s. stderr (snd (main env db (\<lambda>k. format_time (ct k) (ms k)) w)) ! (length (stderr w) + k) =
          FORMAT_prefix (info_record ''user_data'' (format_time (ct k) (ms k)) []) @ s"
    if "k < length (rows res)" for k
    using that by (simp add: lines nth_append)
  then show ?thesis
    using lines stamp by (fastforce simp del: drop_append take_append)
qed

theorem main_lines_timestamped_witness:
  "accepts \<lparr>accepts = \<lambda>_. True, run_query = \<lambda>_ _. Inr \<lparr>description = [''email'', ''ip''],
      rows = [[''bob@x.com'', ''1.2.3.4'']], fetch_error = False\<rparr>\<rparr> (get_db Map.empty) \<and>
   list_all (\<lambda>row. length [''email'', ''ip''] \<le> length row \<and>
     list_all (\<lambda>v. CHR '';'' \<notin> set v \<and> CHR ''='' \<notin> set v) row) [[''bob@x.com'', ''1.2.3.4'']] \<and>
   list_all (\<lambda>c. CHR '';'' \<notin> set c \<and> CHR ''='' \<notin> set c) [''email'', ''ip''] \<and>
   valid_time \<lparr>tm_year = 2024, tm_mon = 1, tm_mday = 9, tm_hour = 7, tm_min = 5, tm_sec = 3\<rparr> 42 \<and>
   parse_time (take 23 (drop 27 (stderr (snd (main Map.empty \<lparr>accepts = \<lambda>_. True,
      run_query = \<lambda>_ _. Inr \<lparr>description = [''email'', ''ip''], rows = [[''bob@x.com'', ''1.2.3.4'']],
      fetch_error = False\<rparr>\<rparr>
      (\<lambda>_. format_time \<lparr>tm_year = 2024, tm_mon = 1, tm_mday = 9, tm_hour = 7, tm_min = 5, tm_sec = 3\<rparr> 42)
      \<lparr>loggers = Map.empty, stderr = [], conn_open = False, cursor_open = False\<rparr>)) ! 0))) =
     Some (\<lparr>tm_year = 2024, tm_mon = 1, tm_mday = 9, tm_hour = 7, tm_min = 5, tm_sec = 3\<rparr>, 42)"
proof -
  have v: "valid_time \<lparr>tm_year = 2024, tm_mon = 1, tm_mday = 9, tm_hour = 7, tm_min = 5, tm_sec = 3\<rparr> 42"
    by (simp add: valid_time_def)
  show ?thesis
    using main_lines_timestamped [of "\<lparr>accepts = \<lambda>_. True, run_query = \<lambda>_ _. Inr \<lparr>description = [''email'', ''ip''],
      rows = [[''bob@x.com'', ''1.2.3.4'']], fetch_error = False\<rparr>\<rparr>" "Map.empty"
      "\<lparr>description = [''email'', ''ip''], rows = [[''bob@x.com'', ''1.2.3.4'']], fetch_error = False\<rparr>"
      "\<lparr>loggers = Map.empty, stderr = [], conn_open = False, cursor_open = False\<rparr>"
      "\<lambda>_. \<lparr>tm_year = 2024, tm_mon = 1, tm_mday = 9, tm_hour = 7, tm_min = 5, tm_sec = 3\<rparr>" "\<lambda>_. 42"] v
    by simp
qed

end
